(* ===== verification/Sip_Prelude.thy ===== *)
theory Sip_Prelude
  imports Main "HOL-Library.Word"
begin

text \<open>
  The prelude of the development: the theorem collections the component theories
  add to, the functions of Go's standard packages \<^verbatim>\<open>strings\<close> and \<^verbatim>\<open>append\<close> that
  the program uses, and generic facts on lists and maps.

  \<^item> \<open>prog_defs\<close>: the definitions of the program's functions, unfolded when all
    the paths of a function are enumerated.
  \<^item> \<open>record_defs\<close>: the definitions that only name a record value.
\<close>

named_theorems prog_defs "definitions of the program's functions"
named_theorems record_defs "definitions that name a constant record or string"

subsection \<open>Package strings\<close>

text \<open>\<^verbatim>\<open>strings.Split(s, sep)\<close> for a separator of one character.\<close>

fun strings_Split :: "string \<Rightarrow> char \<Rightarrow> string list" where
  "strings_Split [] c = [[]]"
| "strings_Split (x # xs) c =
     (if x = c then [] # strings_Split xs c
      else (x # hd (strings_Split xs c)) # tl (strings_Split xs c))"

lemma strings_Split_nonempty [simp]: "strings_Split s c \<noteq> []"
  by (cases s) auto

lemma length_strings_Split: "length (strings_Split s c) = Suc (count_list s c)"
  by (induction s) auto

text \<open>The inverse: \<^verbatim>\<open>strings.Join\<close> with the same separator.\<close>

fun join_with :: "char \<Rightarrow> string list \<Rightarrow> string" where
  "join_with c [] = []"
| "join_with c [x] = x"
| "join_with c (x # y # zs) = x @ c # join_with c (y # zs)"

lemma join_with_Cons_Cons: "join_with c ((a # x) # xs) = a # join_with c (x # xs)"
  by (cases xs) auto

lemma join_strings_Split: "join_with c (strings_Split s c) = s"
proof (induction s)
  case Nil
  show ?case by simp
next
  case (Cons x s)
  obtain y ys where "strings_Split s c = y # ys"
    by (cases "strings_Split s c") auto
  with Cons.IH show ?case by (simp add: join_with_Cons_Cons)
qed

lemma strings_Split_no_sep: "s' \<in> set (strings_Split s c) \<Longrightarrow> c \<notin> set s'"
proof (induction s arbitrary: s')
  case Nil
  then show ?case by simp
next
  case (Cons x s)
  obtain y ys where yys: "strings_Split s c = y # ys"
    by (cases "strings_Split s c") auto
  with Cons show ?case by (auto split: if_splits)
qed

text \<open>\<^verbatim>\<open>strings.TrimSuffix(s, suffix)\<close>.\<close>

definition strings_TrimSuffix :: "string \<Rightarrow> string \<Rightarrow> string" where
  "strings_TrimSuffix s suf =
     (if length suf \<le> length s \<and> drop (length s - length suf) s = suf
      then take (length s - length suf) s else s)"

lemma strings_TrimSuffix_append [simp]: "strings_TrimSuffix (s @ suf) suf = s"
  by (simp add: strings_TrimSuffix_def)

subsection \<open>Lists and maps\<close>

text \<open>A Go slice read \<^verbatim>\<open>xs[i]\<close>: \<open>None\<close> is the runtime panic.\<close>

definition go_index :: "'a list \<Rightarrow> nat \<Rightarrow> 'a option" where
  "go_index xs i = (if i < length xs then Some (xs ! i) else None)"

lemma go_index_eq_None [simp]: "go_index xs i = None \<longleftrightarrow> length xs \<le> i"
  by (auto simp: go_index_def)

lemma go_index_SomeD: "go_index xs i = Some x \<Longrightarrow> i < length xs \<and> x = xs ! i"
  by (auto simp: go_index_def split: if_splits)

lemma map_filter_append [simp]: "List.map_filter f (xs @ ys) = List.map_filter f xs @ List.map_filter f ys"
  by (simp add: List.map_filter_def)

end
