(* ===== verification/Go_X509.thy ===== *)
theory Go_X509
  imports Sip_Prelude "HOL-Library.Product_Lexorder"
begin

text \<open>
  The types of Go's packages \<^verbatim>\<open>time\<close>, \<^verbatim>\<open>net\<close>, \<^verbatim>\<open>crypto/ecdsa\<close> and \<^verbatim>\<open>crypto/x509\<close> that the
  certificate generator of mtls-demo uses: civil time with \<^verbatim>\<open>AddDate\<close>, IP addresses, keys,
  distinguished names, and \<^verbatim>\<open>x509.Certificate\<close>, which is both the template a certificate is made
  from and the result of parsing one.
\<close>

unbundle bit_operations_syntax

subsection \<open>Time\<close>

text \<open>A civil time of the local zone: year, month, day, and nanoseconds since midnight.\<close>

datatype go_time = GoTime (year: int) (month: int) (day: int) (clock: int)

definition leap_year :: "int \<Rightarrow> bool" where
  "leap_year y \<longleftrightarrow> y mod 4 = 0 \<and> (y mod 100 \<noteq> 0 \<or> y mod 400 = 0)"

text \<open>\<^verbatim>\<open>t.AddDate(years, 0, 0)\<close>: the day is normalised, so 29 February becomes 1 March in a
  year that has none.\<close>

fun AddDate :: "go_time \<Rightarrow> int \<Rightarrow> go_time" where
  "AddDate (GoTime y m d c) years =
     (if m = 2 \<and> d = 29 \<and> \<not> leap_year (y + years) then GoTime (y + years) 3 1 c
      else GoTime (y + years) m d c)"

lemma year_AddDate [simp]: "year (AddDate t n) = year t + n"
  by (cases t) simp

lemma go_time_eq_iff:
  "s = t \<longleftrightarrow> year s = year t \<and> month s = month t \<and> day s = day t \<and> clock s = clock t"
  by (cases s; cases t) simp

text \<open>Times are ordered as \<^verbatim>\<open>Before\<close> and \<^verbatim>\<open>After\<close> order them.\<close>

definition time_key :: "go_time \<Rightarrow> int \<times> int \<times> int \<times> int" where
  "time_key t = (year t, month t, day t, clock t)"

lemma time_key_eq [simp]: "time_key s = time_key t \<longleftrightarrow> s = t"
  by (auto simp: time_key_def go_time_eq_iff)

instantiation go_time :: linorder
begin

definition less_go_time :: "go_time \<Rightarrow> go_time \<Rightarrow> bool" where
  "less_go_time s t \<longleftrightarrow> time_key s < time_key t"

definition less_eq_go_time :: "go_time \<Rightarrow> go_time \<Rightarrow> bool" where
  "less_eq_go_time s t \<longleftrightarrow> time_key s \<le> time_key t"

instance
  by standard (auto simp: less_go_time_def less_eq_go_time_def simp flip: time_key_eq)

end

lemma year_mono: "s \<le> t \<Longrightarrow> year s \<le> year t" for s t :: go_time
  by (auto simp: less_eq_go_time_def time_key_def)

lemma year_less: "year s < year t \<Longrightarrow> s < t" for s t :: go_time
  by (simp add: less_go_time_def time_key_def)

subsection \<open>Addresses, keys and names\<close>

text \<open>\<^verbatim>\<open>net.IP\<close>: sixteen bytes, an IPv4 address in its mapped form.\<close>

type_synonym ip = "nat list"

definition net_IPv4 :: "nat \<Rightarrow> nat \<Rightarrow> nat \<Rightarrow> nat \<Rightarrow> ip" where
  "net_IPv4 a b c d = replicate 10 0 @ [255, 255, a, b, c, d]"

definition net_IPv6loopback :: ip where
  "net_IPv6loopback = replicate 15 0 @ [1]"

text \<open>A private key is known by the reply of the key generator; a public key is the public half
  of one.\<close>

type_synonym private_key = string

datatype public_key = Public private_key

text \<open>The dynamic type of the \<^verbatim>\<open>interface{}\<close> argument of \<^verbatim>\<open>KeyToFile\<close>.\<close>

datatype any_key = EcdsaKey private_key | OtherKey

record pkix_name =
  Country :: "string list"
  Province :: "string list"
  Organization :: "string list"
  OrganizationalUnit :: "string list"
  CommonName :: string

subsection \<open>Certificates\<close>

type_synonym key_usage = "64 word"

definition KeyUsageDigitalSignature :: key_usage where "KeyUsageDigitalSignature = push_bit 0 1"
definition KeyUsageCertSign :: key_usage where "KeyUsageCertSign = push_bit 5 1"
definition KeyUsageCRLSign :: key_usage where "KeyUsageCRLSign = push_bit 6 1"

datatype ext_key_usage = ExtKeyUsageServerAuth | ExtKeyUsageClientAuth

text \<open>The fields of \<^verbatim>\<open>x509.Certificate\<close> the program sets; \<open>X_PublicKey\<close> is set by the parser
  only.\<close>

record x509_cert =
  SerialNumber :: int
  X_Subject :: pkix_name
  DNSNames :: "string list"
  IPAddresses :: "ip list"
  NotBefore :: go_time
  NotAfter :: go_time
  X_KeyUsage :: key_usage
  X_ExtKeyUsage :: "ext_key_usage list"
  BasicConstraintsValid :: bool
  IsCA :: bool
  AuthorityKeyId :: string
  X_PublicKey :: "public_key option"

text \<open>What a certificate may do: \<^verbatim>\<open>KeyUsage\<close> is a set of bits.\<close>

definition may :: "key_usage \<Rightarrow> x509_cert \<Rightarrow> bool" where
  "may u c \<longleftrightarrow> X_KeyUsage c AND u = u"

lemma key_usage_simps [simp]:
  "may KeyUsageCertSign (c\<lparr>X_KeyUsage := KeyUsageCertSign OR KeyUsageCRLSign\<rparr>)"
  "may KeyUsageCRLSign (c\<lparr>X_KeyUsage := KeyUsageCertSign OR KeyUsageCRLSign\<rparr>)"
  "\<not> may KeyUsageDigitalSignature (c\<lparr>X_KeyUsage := KeyUsageCertSign OR KeyUsageCRLSign\<rparr>)"
  "may KeyUsageDigitalSignature (c\<lparr>X_KeyUsage := KeyUsageDigitalSignature\<rparr>)"
  "\<not> may KeyUsageCertSign (c\<lparr>X_KeyUsage := KeyUsageDigitalSignature\<rparr>)"
  by (simp_all add: may_def KeyUsageCertSign_def KeyUsageCRLSign_def KeyUsageDigitalSignature_def)

end
