(* ===== verification/Sip_Types.thy ===== *)
theory Sip_Types
  imports Go_X509
begin

text \<open>
  The data of the program: the Go errors it distinguishes, the Kubernetes objects it
  reads and writes, the two custom resources (\<^verbatim>\<open>InternalCertificate\<close> of
  operator/internal-cert and \<^verbatim>\<open>InternalClientCA\<close> of operator/internal-client-ca),
  and the requests it sends to Vault.  Struct fields keep their Go names, with a prefix
  where two structs share one; Go strings and byte slices are \<^typ>\<open>string\<close>s.
\<close>

subsection \<open>Object metadata\<close>

text \<open>The part of \<^verbatim>\<open>metav1.ObjectMeta\<close> and \<^verbatim>\<open>types.NamespacedName\<close> the code uses.\<close>

record owner_ref =
  Owner_Kind :: string
  Owner_Name :: string
  Owner_UID :: string

record object_meta =
  Meta_Name :: string
  Meta_Namespace :: string
  Meta_UID :: string
  OwnerReferences :: "owner_ref list"

type_synonym namespaced_name = "string \<times> string"

subsection \<open>The custom resource InternalCertificate\<close>

record issuer =
  Reference :: string

record subject =
  CN :: string

record extended_key_usage =
  ClientAuth :: bool
  ServerAuth :: bool

record certificate =
  Issuer :: issuer
  Subject :: subject
  ExtendedKeyUsage :: extended_key_usage

record secret_spec =
  Secret_Name :: string
  CertName :: string
  KeyName :: string

record internal_certificate_spec =
  Spec_Certificate :: certificate
  Spec_Secret :: secret_spec

record internal_certificate =
  IntCert_Meta :: object_meta
  IntCert_Spec :: internal_certificate_spec

subsection \<open>The custom resource InternalClientCA\<close>

record ca_subject =
  CA_CN :: string

record ca_certificate =
  CA_Subject :: ca_subject

record ca_secret_spec =
  CA_Secret_Name :: string
  CA_CertName :: string

record internal_client_ca_spec =
  CA_Spec_Certificate :: ca_certificate
  CA_Spec_Secret :: ca_secret_spec

record internal_client_ca =
  ClientCA_Meta :: object_meta
  ClientCA_Spec :: internal_client_ca_spec

subsection \<open>Errors\<close>

text \<open>
  A Go \<^verbatim>\<open>error\<close> value that is not nil.  Kubernetes errors carry the reason the
  \<^verbatim>\<open>apierrors.Is...\<close> predicates test; \<^verbatim>\<open>field.Invalid\<close> and
  \<^verbatim>\<open>apierrors.NewInvalid\<close> are the validation errors the webhook builds.  An error
  is either absent (\<^term>\<open>None\<close>, nil) or present (\<^term>\<open>Some\<close>).
\<close>

datatype field_error =
  FieldInvalid "string list" certificate string

datatype reason = NotFound | AlreadyExists | Invalid | OtherReason

datatype go_error =
    StatusError reason string
  | NewInvalid string string string "field_error list"
  | VaultError string
  | PlainError string

fun ReasonForError :: "go_error \<Rightarrow> reason" where
  "ReasonForError (StatusError r _) = r"
| "ReasonForError (NewInvalid _ _ _ _) = Invalid"
| "ReasonForError (VaultError _) = OtherReason"
| "ReasonForError (PlainError _) = OtherReason"

definition IsNotFound :: "go_error \<Rightarrow> bool" where
  "IsNotFound e \<longleftrightarrow> ReasonForError e = NotFound"

definition IsAlreadyExists :: "go_error \<Rightarrow> bool" where
  "IsAlreadyExists e \<longleftrightarrow> ReasonForError e = AlreadyExists"

definition IsInvalid :: "go_error \<Rightarrow> bool" where
  "IsInvalid e \<longleftrightarrow> ReasonForError e = Invalid"

lemma reason_disjoint [simp]:
  "IsNotFound e \<Longrightarrow> \<not> IsAlreadyExists e"
  "IsAlreadyExists e \<Longrightarrow> \<not> IsNotFound e"
  "IsAlreadyExists e \<Longrightarrow> \<not> IsInvalid e"
  "IsNotFound e \<Longrightarrow> \<not> IsInvalid e"
  by (auto simp: IsNotFound_def IsAlreadyExists_def IsInvalid_def)

lemma reason_simps [simp]:
  "IsNotFound (StatusError r m) \<longleftrightarrow> r = NotFound"
  "IsAlreadyExists (StatusError r m) \<longleftrightarrow> r = AlreadyExists"
  "IsInvalid (StatusError r m) \<longleftrightarrow> r = Invalid"
  "\<not> IsNotFound (VaultError m)"
  "\<not> IsNotFound (NewInvalid g k n es)"
  "\<not> IsAlreadyExists (VaultError m)"
  "\<not> IsAlreadyExists (NewInvalid g k n es)"
  "\<not> IsNotFound (PlainError m)"
  "\<not> IsAlreadyExists (PlainError m)"
  by (auto simp: IsNotFound_def IsAlreadyExists_def IsInvalid_def)

subsection \<open>Kubernetes objects\<close>

text \<open>
  A \<^verbatim>\<open>corev1.Secret\<close>.  \<^verbatim>\<open>Data\<close> may be a nil map, which can be read but not written, so it
  is an optional map; \<^verbatim>\<open>StringData\<close> is only ever built by a map literal.
\<close>

record secret =
  Secret_Meta :: object_meta
  Data :: "(string \<rightharpoonup> string) option"
  StringData :: "string \<rightharpoonup> string"
  Type :: string

definition SecretTypeOpaque :: string where
  "SecretTypeOpaque = ''Opaque''"

text \<open>The zero value \<^verbatim>\<open>corev1.Secret{}\<close>: what a typed client hands back beside an error.\<close>

definition empty_meta :: object_meta where
  "empty_meta = \<lparr>Meta_Name = [], Meta_Namespace = [], Meta_UID = [], OwnerReferences = []\<rparr>"

definition empty_secret :: secret where
  "empty_secret = \<lparr>Secret_Meta = empty_meta, Data = None, StringData = Map.empty, Type = []\<rparr>"

text \<open>Reading \<^verbatim>\<open>secret.Data[k]\<close>: a missing key, or a nil map, reads as nil bytes.\<close>

definition data_get :: "secret \<Rightarrow> string \<Rightarrow> string" where
  "data_get s k = (case Data s of None \<Rightarrow> [] | Some m \<Rightarrow> (case m k of None \<Rightarrow> [] | Some v \<Rightarrow> v))"

text \<open>Writing \<^verbatim>\<open>secret.Data[k] = v\<close>: \<^term>\<open>None\<close> is the panic on a nil map.\<close>

definition data_set :: "secret \<Rightarrow> string \<Rightarrow> string \<Rightarrow> secret option" where
  "data_set s k v = map_option (\<lambda>m. s\<lparr>Data := Some (m(k \<mapsto> v))\<rparr>) (Data s)"

lemma data_set_eq_None [simp]: "data_set s k v = None \<longleftrightarrow> Data s = None"
  by (simp add: data_set_def)

lemma data_set_Some [simp]:
  "Data s = Some m \<Longrightarrow> data_set s k v = Some (s\<lparr>Data := Some (m(k \<mapsto> v))\<rparr>)"
  by (simp add: data_set_def)

text \<open>Adding a controller owner reference, what \<^verbatim>\<open>ctrl.SetControllerReference\<close> does to an
  object without one when it succeeds.\<close>

definition set_owner :: "string \<Rightarrow> object_meta \<Rightarrow> secret \<Rightarrow> secret" where
  "set_owner kind own s =
     s\<lparr>Secret_Meta := (Secret_Meta s)\<lparr>OwnerReferences :=
         OwnerReferences (Secret_Meta s) @
           [\<lparr>Owner_Kind = kind, Owner_Name = Meta_Name own, Owner_UID = Meta_UID own\<rparr>]\<rparr>\<rparr>"

lemma set_owner_frame [simp]:
  "Data (set_owner k own s) = Data s"
  "StringData (set_owner k own s) = StringData s"
  "Type (set_owner k own s) = Type s"
  "Meta_Name (Secret_Meta (set_owner k own s)) = Meta_Name (Secret_Meta s)"
  "Meta_Namespace (Secret_Meta (set_owner k own s)) = Meta_Namespace (Secret_Meta s)"
  by (simp_all add: set_owner_def)

text \<open>A \<^verbatim>\<open>certificatesv1.CertificateSigningRequest\<close>; the expiration is a Go int32.\<close>

record csr_condition =
  Condition_Type :: string
  Condition_Reason :: string
  Condition_Message :: string
  Condition_LastUpdateTime :: go_time
  Condition_Status :: string

record csr_object =
  CSR_Name :: string
  SignerName :: string
  ExpirationSeconds :: "32 word"
  Request :: string
  Usages :: "string list"
  Conditions :: "csr_condition list"
  Status_Certificate :: string

subsection \<open>Requests to Vault\<close>

record mount_request =
  Mount_Type :: string
  Mount_Description :: string

record generate_request =
  Gen_CommonName :: string
  Gen_KeyType :: string
  Gen_KeyBits :: int
  Gen_AddBasicConstraints :: bool
  Gen_Ttl :: string

record urls_request =
  IssuingCertificates :: "string list"
  CrlDistributionPoints :: "string list"

record role_request =
  AllowAnyName :: bool
  Role_KeyType :: string
  Role_KeyBits :: int
  Role_KeyUsage :: "string list"
  Role_ExtKeyUsage :: "string list"
  EnforceHostnames :: bool
  BasicConstraintsValidForNonCa :: bool
  Role_MaxTtl :: string

record sign_request =
  Sign_Csr :: string
  Sign_Format :: string
  Sign_UseCsrValues :: bool
  Sign_Ttl :: string

record issue_request =
  Issue_CommonName :: string
  Issue_AltNames :: string

text \<open>The fields of \<^verbatim>\<open>schema.PkiIssueWithRoleResponse\<close> the code reads.\<close>

record issue_response =
  Resp_Certificate :: string
  Resp_PrivateKey :: string
  Resp_CaChain :: "string list"

text \<open>The value of an untyped JSON response, \<^verbatim>\<open>map[string]interface{}\<close>.\<close>

datatype json = JNull | JBool bool | JNumber int | JString string | JArray "json list"

text \<open>The Go type assertions the code makes; \<^term>\<open>None\<close> is the panic.\<close>

fun as_bool :: "json option \<Rightarrow> bool option" where
  "as_bool (Some (JBool b)) = Some b"
| "as_bool _ = None"

fun as_string :: "json option \<Rightarrow> string option" where
  "as_string (Some (JString s)) = Some s"
| "as_string _ = None"

fun as_array :: "json option \<Rightarrow> json list option" where
  "as_array (Some (JArray xs)) = Some xs"
| "as_array _ = None"

fun_cases as_bool_SomeE: "as_bool j = Some b"
fun_cases as_string_SomeE: "as_string j = Some s"
fun_cases as_array_SomeE: "as_array j = Some xs"

text \<open>The HTTP request \<^verbatim>\<open>disableFlag\<close> builds.\<close>

record http_request =
  Method :: string
  URL :: string
  Body :: string
  Header :: "(string \<times> string) list"
  InsecureSkipVerify :: bool

end
