(* ===== verification/Server_Types.thy ===== *)
theory Server_Types
  imports Sip_Prelude
begin

text \<open>
  What the programs pass to the libraries that serve requests: the TLS configurations, HTTP
  clients and servers of mtls-demo, and the options of the controller-runtime managers in
  cmd/main.go of the two operators.
\<close>

subsection \<open>TLS, clients and servers\<close>

datatype client_auth = NoClientCert | RequireAndVerifyClientCert

text \<open>The fields of \<^verbatim>\<open>tls.Config\<close> the programs set; a certificate pool is the list of the PEM
  texts appended to it, absent for the system's pool.\<close>

record tls_config =
  RootCAs :: "string list option"
  ClientCAs :: "string list option"
  ClientAuth_Mode :: client_auth
  MinVersion :: "16 word"
  Certificates :: "string list"
  NextProtos :: "string list"

definition zero_tls_config :: tls_config where
  "zero_tls_config =
     \<lparr>RootCAs = None, ClientCAs = None, ClientAuth_Mode = NoClientCert, MinVersion = 0,
      Certificates = [], NextProtos = []\<rparr>"

text \<open>How a gin engine is run: plainly, with a certificate and a key file, or as the handler of
  an \<^verbatim>\<open>http.Server\<close> with its own TLS configuration.  The routes map a path to the text the
  handler of a GET request answers with.\<close>

datatype transport = Plain | TLSFiles string string | TLSConfigured tls_config

record http_server =
  Addr :: string
  Routes :: "(string \<times> string) list"
  Transport :: transport

subsection \<open>Managers\<close>

text \<open>The command line flags of the managers.\<close>

record flags =
  metrics_bind_address :: string
  health_probe_bind_address :: string
  leader_elect :: bool
  metrics_secure :: bool
  enable_http2 :: bool

record metrics_options =
  BindAddress :: string
  SecureServing :: bool
  Metrics_TLSOpts :: "(tls_config \<Rightarrow> tls_config) list"
  FilterProvider :: "string option"

record manager_options =
  Opt_Scheme :: "string list"
  Metrics :: metrics_options
  WebhookServer_TLSOpts :: "(tls_config \<Rightarrow> tls_config) list"
  HealthProbeBindAddress :: string
  LeaderElection :: bool
  LeaderElectionID :: string

end
