(* ===== verification/Go_Prog.thy ===== *)
theory Go_Prog
  imports Sip_Types Go_X509 Server_Types
begin

text \<open>
  Programs as trees of calls to their environment.

  A Go function of the repository becomes a value of type \<^verbatim>\<open>'a prog\<close>: either it has
  returned (\<open>Ret\<close>), ended the process (\<open>Exit\<close> for \<^verbatim>\<open>os.Exit\<close> and \<^verbatim>\<open>log.Fatal\<close>,
  \<open>Panic\<close>), or it makes a call and continues with the reply.  The services called
  (the Kubernetes API server, Vault, the operating system, the network, the random
  source) are not part of the repository, so nothing is assumed of their replies here:
  a run of a program is a list of events, each a call together with the reply it got,
  and \<open>accepts p t out\<close> says that \<open>t\<close> is a complete run of \<open>p\<close> that ends with \<open>out\<close>, for
  whatever replies.  Where a property needs the service to behave, it says so by a
  hypothesis on the events.

  Calls are grouped by the type of their reply.  Logging, which has no reply the code
  reads, is left out.
\<close>

subsection \<open>Calls\<close>

text \<open>Calls whose reply is only an error or nil (\<^verbatim>\<open>_, err = ...\<close> included).\<close>

datatype act =
    CreateSecret string secret            \<comment> \<open>namespace, object\<close>
  | UpdateSecret string secret
  | CreateCSR csr_object
  | DeleteCSR string
  | UpdateApproval string csr_object
  | SetControllerReference object_meta secret
  | InClusterConfig
  | NewForConfig
  | VaultNew string string                \<comment> \<open>address, CA certificate file\<close>
  | SetToken string
  | MountsEnableSecretsEngine string mount_request
  | MountsTuneConfigurationParameters string string
  | PkiConfigureUrls string urls_request
  | PkiWriteRole string string role_request
  | PkiSetSignedIntermediate string string
  | Unseal string string                  \<comment> \<open>Vault address, key\<close>
  | HttpNewRequest string string string
  | HttpDo http_request
  | BodyClose
  | FileCreate string
  | FileWrite string string               \<comment> \<open>file, contents\<close>
  | FileClose string
  | WriteFile string string nat           \<comment> \<open>file, contents, permissions\<close>
  | CloseBody string                      \<comment> \<open>the response\<close>
  | SetTrustedProxies "string list"
  | Serve http_server
  | AddToScheme string
  | GetConfig
  | NewManager manager_options
  | SetupWithManager string string        \<comment> \<open>kind, Vault address of its client\<close>
  | SetupWebhookWithManager string
  | AddHealthzCheck string
  | AddReadyzCheck string
  | ManagerStart

text \<open>Calls whose reply is one string (a certificate, a CSR, file contents, a key) or an error.\<close>

datatype query =
    PkiGenerateRoot string string generate_request       \<comment> \<open>mount, exported, request\<close>
  | PkiReadCertCaChain string
  | PkiGenerateIntermediate string string generate_request
  | PkiRootSignIntermediate string sign_request
  | ReadFile string
  | EcdsaGenerateKey string
  | MarshalECPrivateKey string
  | CreateCertificateRequest string "string list" string "string list" "string list" string
      \<comment> \<open>common name, organisations, signature algorithm, DNS names, IP addresses, key\<close>
  | X509CreateCertificate x509_cert x509_cert public_key private_key
      \<comment> \<open>template, parent, public key, private key of the signer\<close>
  | X509CreateCertificateRequest pkix_name public_key private_key
  | ParseECPrivateKey string
  | LoadX509KeyPair string string         \<comment> \<open>certificate file, key file\<close>
  | HttpGet "tls_config option" string    \<comment> \<open>TLS configuration of the client, URL\<close>
  | ReadAll string                        \<comment> \<open>the response\<close>

text \<open>Calls whose reply is an untyped JSON object or an error.\<close>

datatype json_query =
    ReadHealthStatus string
  | Initialize string int int             \<comment> \<open>Vault address, shares, threshold\<close>

text \<open>The goroutines the program starts, named by the function and its arguments.\<close>

datatype goroutine =
    PersistRootCA string string            \<comment> \<open>namespace, certificate\<close>
  | UnSealWorker string string bool
  | ServePlain
  | ServeTLS

datatype 'a prog =
    Ret 'a
  | Exit nat
  | Panic
  | Do act "go_error option \<Rightarrow> 'a prog"
  | Ask query "go_error + string \<Rightarrow> 'a prog"
  | AskJson json_query "go_error + (string \<rightharpoonup> json) \<Rightarrow> 'a prog"
  | GetIntCert namespaced_name "go_error + internal_certificate \<Rightarrow> 'a prog"
  | GetIntClientCA namespaced_name "go_error + internal_client_ca \<Rightarrow> 'a prog"
  | GetSecret string string "go_error + secret \<Rightarrow> 'a prog"
  | GetCSR string "go_error + csr_object \<Rightarrow> 'a prog"
  | PkiIssueWithRole string string issue_request "go_error + issue_response \<Rightarrow> 'a prog"
      \<comment> \<open>mount, role, request\<close>
  | MountsListSecretsEngines "go_error + string set \<Rightarrow> 'a prog"
  | RandInt int "go_error + int \<Rightarrow> 'a prog"
  | ParseCertificate string "go_error + x509_cert \<Rightarrow> 'a prog"
  | Now "go_time \<Rightarrow> 'a prog"
  | FlagParse flags "flags \<Rightarrow> 'a prog"
  | Getenv string "string \<Rightarrow> 'a prog"
  | Sleep nat "'a prog"
  | Go goroutine "'a prog"
  | LoadErr "go_error option \<Rightarrow> 'a prog"
  | StoreErr "go_error option" "'a prog"
  | WgAdd nat "'a prog"
  | WgDone "'a prog"
  | WgWait "'a prog"

subsection \<open>Events and runs\<close>

datatype event =
    EvDo act "go_error option"
  | EvAsk query "go_error + string"
  | EvAskJson json_query "go_error + (string \<rightharpoonup> json)"
  | EvGetIntCert namespaced_name "go_error + internal_certificate"
  | EvGetIntClientCA namespaced_name "go_error + internal_client_ca"
  | EvGetSecret string string "go_error + secret"
  | EvGetCSR string "go_error + csr_object"
  | EvIssue string string issue_request "go_error + issue_response"
  | EvListMounts "go_error + string set"
  | EvRandInt int "go_error + int"
  | EvParseCertificate string "go_error + x509_cert"
  | EvNow go_time
  | EvFlags flags flags
  | EvGetenv string string
  | EvSleep nat
  | EvGo goroutine
  | EvLoadErr "go_error option"
  | EvStoreErr "go_error option"
  | EvWgAdd nat
  | EvWgDone
  | EvWgWait

text \<open>How a program can end.\<close>

datatype 'a outcome = Returned 'a | Exited nat | Panicked

text \<open>The program after one event: \<^term>\<open>None\<close> when it does not make that call.\<close>

primrec after :: "'a prog \<Rightarrow> event \<Rightarrow> 'a prog option" where
  "after (Ret x) e = None"
| "after (Exit n) e = None"
| "after Panic e = None"
| "after (Do a k) e = (case e of EvDo a' r \<Rightarrow> if a' = a then Some (k r) else None | _ \<Rightarrow> None)"
| "after (Ask q k) e = (case e of EvAsk q' r \<Rightarrow> if q' = q then Some (k r) else None | _ \<Rightarrow> None)"
| "after (AskJson q k) e =
     (case e of EvAskJson q' r \<Rightarrow> if q' = q then Some (k r) else None | _ \<Rightarrow> None)"
| "after (GetIntCert n k) e =
     (case e of EvGetIntCert n' r \<Rightarrow> if n' = n then Some (k r) else None | _ \<Rightarrow> None)"
| "after (GetIntClientCA n k) e =
     (case e of EvGetIntClientCA n' r \<Rightarrow> if n' = n then Some (k r) else None | _ \<Rightarrow> None)"
| "after (GetSecret ns n k) e =
     (case e of EvGetSecret ns' n' r \<Rightarrow> if ns' = ns \<and> n' = n then Some (k r) else None | _ \<Rightarrow> None)"
| "after (GetCSR n k) e = (case e of EvGetCSR n' r \<Rightarrow> if n' = n then Some (k r) else None | _ \<Rightarrow> None)"
| "after (PkiIssueWithRole m ro q k) e =
     (case e of EvIssue m' ro' q' r \<Rightarrow> if m' = m \<and> ro' = ro \<and> q' = q then Some (k r) else None
      | _ \<Rightarrow> None)"
| "after (MountsListSecretsEngines k) e = (case e of EvListMounts r \<Rightarrow> Some (k r) | _ \<Rightarrow> None)"
| "after (RandInt m k) e = (case e of EvRandInt m' r \<Rightarrow> if m' = m then Some (k r) else None | _ \<Rightarrow> None)"
| "after (ParseCertificate der k) e = (case e of EvParseCertificate der' r \<Rightarrow> if der' = der then Some (k r) else None | _ \<Rightarrow> None)"
| "after (Now k) e = (case e of EvNow r \<Rightarrow> Some (k r) | _ \<Rightarrow> None)"
| "after (FlagParse fl k) e = (case e of EvFlags fl' r \<Rightarrow> if fl' = fl then Some (k r) else None | _ \<Rightarrow> None)"
| "after (Getenv n k) e = (case e of EvGetenv n' r \<Rightarrow> if n' = n then Some (k r) else None | _ \<Rightarrow> None)"
| "after (Sleep n p) e = (case e of EvSleep n' \<Rightarrow> if n' = n then Some p else None | _ \<Rightarrow> None)"
| "after (Go f p) e = (case e of EvGo f' \<Rightarrow> if f' = f then Some p else None | _ \<Rightarrow> None)"
| "after (LoadErr k) e = (case e of EvLoadErr r \<Rightarrow> Some (k r) | _ \<Rightarrow> None)"
| "after (StoreErr v p) e = (case e of EvStoreErr v' \<Rightarrow> if v' = v then Some p else None | _ \<Rightarrow> None)"
| "after (WgAdd n p) e = (case e of EvWgAdd n' \<Rightarrow> if n' = n then Some p else None | _ \<Rightarrow> None)"
| "after (WgDone p) e = (case e of EvWgDone \<Rightarrow> Some p | _ \<Rightarrow> None)"
| "after (WgWait p) e = (case e of EvWgWait \<Rightarrow> Some p | _ \<Rightarrow> None)"

text \<open>The program after a list of events, and the outcome of a program that has ended.\<close>

fun steps :: "'a prog \<Rightarrow> event list \<Rightarrow> 'a prog option" where
  "steps p [] = Some p"
| "steps p (e # t) = (case after p e of None \<Rightarrow> None | Some p' \<Rightarrow> steps p' t)"

primrec ended :: "'a prog \<Rightarrow> 'a outcome option" where
  "ended (Ret x) = Some (Returned x)"
| "ended (Exit n) = Some (Exited n)"
| "ended Panic = Some Panicked"
| "ended (Do a k) = None"
| "ended (Ask q k) = None"
| "ended (AskJson q k) = None"
| "ended (GetIntCert n k) = None"
| "ended (GetIntClientCA n k) = None"
| "ended (GetSecret ns n k) = None"
| "ended (GetCSR n k) = None"
| "ended (PkiIssueWithRole m ro q k) = None"
| "ended (MountsListSecretsEngines k) = None"
| "ended (RandInt m k) = None"
| "ended (ParseCertificate der k) = None"
| "ended (Now k) = None"
| "ended (FlagParse fl k) = None"
| "ended (Getenv n k) = None"
| "ended (Sleep n p) = None"
| "ended (Go f p) = None"
| "ended (LoadErr k) = None"
| "ended (StoreErr v p) = None"
| "ended (WgAdd n p) = None"
| "ended (WgDone p) = None"
| "ended (WgWait p) = None"

fun accepts :: "'a prog \<Rightarrow> event list \<Rightarrow> 'a outcome \<Rightarrow> bool" where
  "accepts p [] out \<longleftrightarrow> ended p = Some out"
| "accepts p (e # t) out \<longleftrightarrow> (case after p e of None \<Rightarrow> False | Some p' \<Rightarrow> accepts p' t out)"

lemma accepts_end [simp]:
  "accepts (Ret x) t out \<longleftrightarrow> t = [] \<and> out = Returned x"
  "accepts (Exit n) t out \<longleftrightarrow> t = [] \<and> out = Exited n"
  "accepts Panic t out \<longleftrightarrow> t = [] \<and> out = Panicked"
  by (cases t; auto)+

lemma steps_append:
  "steps p (s @ t) = (case steps p s of None \<Rightarrow> None | Some p' \<Rightarrow> steps p' t)"
  by (induction s arbitrary: p) (auto split: option.splits)

lemma accepts_iff_steps: "accepts p t out \<longleftrightarrow> (\<exists>p'. steps p t = Some p' \<and> ended p' = Some out)"
  by (induction t arbitrary: p) (auto split: option.splits)

lemma ended_after: "ended p = Some out \<Longrightarrow> after p e = None"
  by (cases p) auto

text \<open>A run is determined by its events: two complete runs are equal or differ at a reply.\<close>

lemma accepts_deterministic: "accepts p t out \<Longrightarrow> accepts p t out' \<Longrightarrow> out = out'"
  by (auto simp: accepts_iff_steps)

text \<open>The calls answered with an error.\<close>

definition reply_error :: "event \<Rightarrow> bool" where
  "reply_error e =
     (case e of EvDo a r \<Rightarrow> r \<noteq> None | EvAsk q r \<Rightarrow> isl r | EvAskJson q r \<Rightarrow> isl r
      | EvGetIntCert n r \<Rightarrow> isl r | EvGetIntClientCA n r \<Rightarrow> isl r | EvGetSecret ns n r \<Rightarrow> isl r
      | EvGetCSR n r \<Rightarrow> isl r | EvIssue m ro q r \<Rightarrow> isl r | EvListMounts r \<Rightarrow> isl r
      | EvRandInt m r \<Rightarrow> isl r | EvParseCertificate der r \<Rightarrow> isl r | _ \<Rightarrow> False)"

lemma reply_error_simps [simp]:
  "reply_error (EvDo a r) \<longleftrightarrow> r \<noteq> None" "reply_error (EvAsk q qr) \<longleftrightarrow> isl qr"
  "reply_error (EvGetSecret ns n sr) \<longleftrightarrow> isl sr" "reply_error (EvRandInt m ri) \<longleftrightarrow> isl ri"
  "reply_error (EvParseCertificate der pc) \<longleftrightarrow> isl pc" "\<not> reply_error (EvNow a0)"
  "\<not> reply_error (EvGetenv x y)" "\<not> reply_error (EvSleep k)" "\<not> reply_error (EvGo g)"
  "\<not> reply_error (EvFlags fl fl')"
  by (simp_all add: reply_error_def)

end
