(* ===== verification/Go_Paths.thy ===== *)
theory Go_Paths
  imports Go_Prog
begin

text \<open>
  Sequencing of programs (\<open>bind\<close>, a Go call of another function of the repository), and
  the two predicate transformers the properties are proved with: \<open>all_paths p Q\<close>, every
  complete run of \<open>p\<close> satisfies \<open>Q\<close>, and \<open>always p I\<close>, every partial run of \<open>p\<close>
  satisfies \<open>I\<close> (what is needed of a goroutine that may be stopped anywhere).  Both
  compute by recursion on the program, so a property of a Go function is proved by
  unfolding its definition and splitting on the replies; \<open>all_paths_iff\<close> and
  \<open>always_iff\<close> turn the result into a statement on runs.
\<close>

subsection \<open>Sequencing\<close>

primrec bind :: "'a prog \<Rightarrow> ('a \<Rightarrow> 'b prog) \<Rightarrow> 'b prog" where
  "bind (Ret x) f = f x"
| "bind (Exit n) f = Exit n"
| "bind Panic f = Panic"
| "bind (Do a k) f = Do a (\<lambda>r. bind (k r) f)"
| "bind (Ask q k) f = Ask q (\<lambda>r. bind (k r) f)"
| "bind (AskJson q k) f = AskJson q (\<lambda>r. bind (k r) f)"
| "bind (GetIntCert n k) f = GetIntCert n (\<lambda>r. bind (k r) f)"
| "bind (GetIntClientCA n k) f = GetIntClientCA n (\<lambda>r. bind (k r) f)"
| "bind (GetSecret ns n k) f = GetSecret ns n (\<lambda>r. bind (k r) f)"
| "bind (GetCSR n k) f = GetCSR n (\<lambda>r. bind (k r) f)"
| "bind (PkiIssueWithRole m ro q k) f = PkiIssueWithRole m ro q (\<lambda>r. bind (k r) f)"
| "bind (MountsListSecretsEngines k) f = MountsListSecretsEngines (\<lambda>r. bind (k r) f)"
| "bind (RandInt m k) f = RandInt m (\<lambda>r. bind (k r) f)"
| "bind (ParseCertificate der k) f = ParseCertificate der (\<lambda>r. bind (k r) f)"
| "bind (Now k) f = Now (\<lambda>r. bind (k r) f)"
| "bind (FlagParse fl k) f = FlagParse fl (\<lambda>r. bind (k r) f)"
| "bind (Getenv n k) f = Getenv n (\<lambda>r. bind (k r) f)"
| "bind (Sleep n p) f = Sleep n (bind p f)"
| "bind (Go g p) f = Go g (bind p f)"
| "bind (LoadErr k) f = LoadErr (\<lambda>r. bind (k r) f)"
| "bind (StoreErr v p) f = StoreErr v (bind p f)"
| "bind (WgAdd n p) f = WgAdd n (bind p f)"
| "bind (WgDone p) f = WgDone (bind p f)"
| "bind (WgWait p) f = WgWait (bind p f)"

lemma bind_Ret [simp]: "bind p Ret = p"
  by (induction p) auto

lemma bind_assoc: "bind (bind p f) g = bind p (\<lambda>x. bind (f x) g)"
  by (induction p) auto

subsection \<open>Every complete run\<close>

primrec all_paths :: "'a prog \<Rightarrow> (event list \<Rightarrow> 'a outcome \<Rightarrow> bool) \<Rightarrow> bool" where
  "all_paths (Ret x) Q = Q [] (Returned x)"
| "all_paths (Exit n) Q = Q [] (Exited n)"
| "all_paths Panic Q = Q [] Panicked"
| "all_paths (Do a k) Q = (\<forall>r. all_paths (k r) (\<lambda>t. Q (EvDo a r # t)))"
| "all_paths (Ask q k) Q = (\<forall>r. all_paths (k r) (\<lambda>t. Q (EvAsk q r # t)))"
| "all_paths (AskJson q k) Q = (\<forall>r. all_paths (k r) (\<lambda>t. Q (EvAskJson q r # t)))"
| "all_paths (GetIntCert n k) Q = (\<forall>r. all_paths (k r) (\<lambda>t. Q (EvGetIntCert n r # t)))"
| "all_paths (GetIntClientCA n k) Q = (\<forall>r. all_paths (k r) (\<lambda>t. Q (EvGetIntClientCA n r # t)))"
| "all_paths (GetSecret ns n k) Q = (\<forall>r. all_paths (k r) (\<lambda>t. Q (EvGetSecret ns n r # t)))"
| "all_paths (GetCSR n k) Q = (\<forall>r. all_paths (k r) (\<lambda>t. Q (EvGetCSR n r # t)))"
| "all_paths (PkiIssueWithRole m ro q k) Q = (\<forall>r. all_paths (k r) (\<lambda>t. Q (EvIssue m ro q r # t)))"
| "all_paths (MountsListSecretsEngines k) Q = (\<forall>r. all_paths (k r) (\<lambda>t. Q (EvListMounts r # t)))"
| "all_paths (RandInt m k) Q = (\<forall>r. all_paths (k r) (\<lambda>t. Q (EvRandInt m r # t)))"
| "all_paths (ParseCertificate der k) Q = (\<forall>r. all_paths (k r) (\<lambda>t. Q (EvParseCertificate der r # t)))"
| "all_paths (Now k) Q = (\<forall>r. all_paths (k r) (\<lambda>t. Q (EvNow r # t)))"
| "all_paths (FlagParse fl k) Q = (\<forall>r. all_paths (k r) (\<lambda>t. Q (EvFlags fl r # t)))"
| "all_paths (Getenv n k) Q = (\<forall>r. all_paths (k r) (\<lambda>t. Q (EvGetenv n r # t)))"
| "all_paths (Sleep n p) Q = all_paths p (\<lambda>t. Q (EvSleep n # t))"
| "all_paths (Go g p) Q = all_paths p (\<lambda>t. Q (EvGo g # t))"
| "all_paths (LoadErr k) Q = (\<forall>r. all_paths (k r) (\<lambda>t. Q (EvLoadErr r # t)))"
| "all_paths (StoreErr v p) Q = all_paths p (\<lambda>t. Q (EvStoreErr v # t))"
| "all_paths (WgAdd n p) Q = all_paths p (\<lambda>t. Q (EvWgAdd n # t))"
| "all_paths (WgDone p) Q = all_paths p (\<lambda>t. Q (EvWgDone # t))"
| "all_paths (WgWait p) Q = all_paths p (\<lambda>t. Q (EvWgWait # t))"

lemma all_paths_after:
  "all_paths p Q \<Longrightarrow> after p e = Some p' \<Longrightarrow> all_paths p' (\<lambda>t. Q (e # t))"
  by (cases p) (auto split: event.splits if_splits)

lemma all_paths_ended: "all_paths p Q \<Longrightarrow> ended p = Some out \<Longrightarrow> Q [] out"
  by (cases p) auto

lemma all_paths_accepts: "all_paths p Q \<Longrightarrow> accepts p t out \<Longrightarrow> Q t out"
  by (induction t arbitrary: p Q)
    (auto intro: all_paths_ended dest: all_paths_after split: option.splits)

lemma all_paths_conj:
  "all_paths p (\<lambda>t out. Q t out \<and> R t out) \<longleftrightarrow> all_paths p Q \<and> all_paths p R"
  by (induction p arbitrary: Q R) auto

lemma all_paths_mono:
  assumes "all_paths p Q" and "\<And>t out. Q t out \<Longrightarrow> R t out"
  shows "all_paths p R"
proof -
  have "Q = (\<lambda>t out. R t out \<and> Q t out)"
    using assms(2) by (auto simp: fun_eq_iff)
  with assms(1) have "all_paths p (\<lambda>t out. R t out \<and> Q t out)" by simp
  then show ?thesis by (simp add: all_paths_conj)
qed

lemma accepts_Cons_ext:
  "accepts p (e # t) = (case after p e of None \<Rightarrow> (\<lambda>_. False) | Some p' \<Rightarrow> accepts p' t)"
  by (auto simp: fun_eq_iff split: option.splits)

lemma all_paths_self: "all_paths p (accepts p)"
  by (induction p) (auto simp: accepts_Cons_ext)

lemma all_paths_iff: "all_paths p Q \<longleftrightarrow> (\<forall>t out. accepts p t out \<longrightarrow> Q t out)"
proof
  assume "all_paths p Q"
  then show "\<forall>t out. accepts p t out \<longrightarrow> Q t out" by (auto dest: all_paths_accepts)
next
  assume "\<forall>t out. accepts p t out \<longrightarrow> Q t out"
  then show "all_paths p Q" by (intro all_paths_mono [OF all_paths_self]) simp
qed

lemma accepts_all_pathsI: "(\<And>t out. accepts p t out \<Longrightarrow> Q t out) \<Longrightarrow> all_paths p Q"
  by (simp add: all_paths_iff)

text \<open>A function call: the caller continues only where the callee has returned.\<close>

lemma all_paths_bind:
  "all_paths (bind p f) Q \<longleftrightarrow>
     all_paths p (\<lambda>t out. case out of
         Returned x \<Rightarrow> all_paths (f x) (\<lambda>t'. Q (t @ t'))
       | Exited n \<Rightarrow> Q t (Exited n)
       | Panicked \<Rightarrow> Q t Panicked)"
  by (induction p arbitrary: Q) auto

lemma all_paths_bindI:
  assumes "all_paths p R"
    and "\<And>t x. R t (Returned x) \<Longrightarrow> all_paths (f x) (\<lambda>t'. Q (t @ t'))"
    and "\<And>t n. R t (Exited n) \<Longrightarrow> Q t (Exited n)"
    and "\<And>t. R t Panicked \<Longrightarrow> Q t Panicked"
  shows "all_paths (bind p f) Q"
  unfolding all_paths_bind using assms(1)
  by (rule all_paths_mono) (auto simp: assms(2-4) split: outcome.splits)

text \<open>A property of runs that concatenation keeps holds of a sequence of programs.\<close>

lemma all_paths_bind_closed:
  assumes "all_paths p (\<lambda>t _. I t)" and "\<And>x. all_paths (f x) (\<lambda>t _. I t)"
    and "\<And>s t. I s \<Longrightarrow> I t \<Longrightarrow> I (s @ t)"
  shows "all_paths (bind p f) (\<lambda>t _. I t)"
  by (rule all_paths_bindI [OF assms(1)]) (auto intro: all_paths_mono [OF assms(2)] assms(3))

text \<open>Every program has a run, whatever the replies: a loop-free Go function returns,
  exits or panics.\<close>

lemma accepts_exists: "\<exists>t out. accepts p t out"
proof (rule ccontr)
  assume "\<nexists>t out. accepts p t out"
  then have "all_paths p (\<lambda>_ _. False)" by (simp add: all_paths_iff)
  moreover have "\<not> all_paths p (\<lambda>_ _. False)" by (induction p) auto
  ultimately show False by simp
qed

subsection \<open>Every partial run\<close>

primrec always :: "'a prog \<Rightarrow> (event list \<Rightarrow> bool) \<Rightarrow> bool" where
  "always (Ret x) I = I []"
| "always (Exit n) I = I []"
| "always Panic I = I []"
| "always (Do a k) I = (I [] \<and> (\<forall>r. always (k r) (\<lambda>t. I (EvDo a r # t))))"
| "always (Ask q k) I = (I [] \<and> (\<forall>r. always (k r) (\<lambda>t. I (EvAsk q r # t))))"
| "always (AskJson q k) I = (I [] \<and> (\<forall>r. always (k r) (\<lambda>t. I (EvAskJson q r # t))))"
| "always (GetIntCert n k) I = (I [] \<and> (\<forall>r. always (k r) (\<lambda>t. I (EvGetIntCert n r # t))))"
| "always (GetIntClientCA n k) I =
     (I [] \<and> (\<forall>r. always (k r) (\<lambda>t. I (EvGetIntClientCA n r # t))))"
| "always (GetSecret ns n k) I = (I [] \<and> (\<forall>r. always (k r) (\<lambda>t. I (EvGetSecret ns n r # t))))"
| "always (GetCSR n k) I = (I [] \<and> (\<forall>r. always (k r) (\<lambda>t. I (EvGetCSR n r # t))))"
| "always (PkiIssueWithRole m ro q k) I =
     (I [] \<and> (\<forall>r. always (k r) (\<lambda>t. I (EvIssue m ro q r # t))))"
| "always (MountsListSecretsEngines k) I =
     (I [] \<and> (\<forall>r. always (k r) (\<lambda>t. I (EvListMounts r # t))))"
| "always (RandInt m k) I = (I [] \<and> (\<forall>r. always (k r) (\<lambda>t. I (EvRandInt m r # t))))"
| "always (ParseCertificate der k) I = (I [] \<and> (\<forall>r. always (k r) (\<lambda>t. I (EvParseCertificate der r # t))))"
| "always (Now k) I = (I [] \<and> (\<forall>r. always (k r) (\<lambda>t. I (EvNow r # t))))"
| "always (FlagParse fl k) I = (I [] \<and> (\<forall>r. always (k r) (\<lambda>t. I (EvFlags fl r # t))))"
| "always (Getenv n k) I = (I [] \<and> (\<forall>r. always (k r) (\<lambda>t. I (EvGetenv n r # t))))"
| "always (Sleep n p) I = (I [] \<and> always p (\<lambda>t. I (EvSleep n # t)))"
| "always (Go g p) I = (I [] \<and> always p (\<lambda>t. I (EvGo g # t)))"
| "always (LoadErr k) I = (I [] \<and> (\<forall>r. always (k r) (\<lambda>t. I (EvLoadErr r # t))))"
| "always (StoreErr v p) I = (I [] \<and> always p (\<lambda>t. I (EvStoreErr v # t)))"
| "always (WgAdd n p) I = (I [] \<and> always p (\<lambda>t. I (EvWgAdd n # t)))"
| "always (WgDone p) I = (I [] \<and> always p (\<lambda>t. I (EvWgDone # t)))"
| "always (WgWait p) I = (I [] \<and> always p (\<lambda>t. I (EvWgWait # t)))"

lemma always_Nil: "always p I \<Longrightarrow> I []"
  by (cases p) auto

lemma always_after:
  "always p I \<Longrightarrow> after p e = Some p' \<Longrightarrow> always p' (\<lambda>t. I (e # t))"
  by (cases p) (auto split: event.splits if_splits)

lemma always_steps: "always p I \<Longrightarrow> steps p t = Some p' \<Longrightarrow> I t"
  by (induction t arbitrary: p I)
    (auto intro: always_Nil dest: always_after split: option.splits)

lemma always_accepts: "always p I \<Longrightarrow> accepts p t out \<Longrightarrow> I t"
  by (auto simp: accepts_iff_steps intro: always_steps)

lemma always_conj: "always p (\<lambda>t. I t \<and> J t) \<longleftrightarrow> always p I \<and> always p J"
  by (induction p arbitrary: I J) auto

lemma always_mono:
  assumes "always p I" and "\<And>t. I t \<Longrightarrow> J t"
  shows "always p J"
proof -
  have "I = (\<lambda>t. J t \<and> I t)"
    using assms(2) by (auto simp: fun_eq_iff)
  with assms(1) have "always p (\<lambda>t. J t \<and> I t)" by simp
  then show ?thesis by (simp add: always_conj)
qed

lemma always_const [simp]: "always p (\<lambda>_. c) \<longleftrightarrow> c"
  by (induction p) auto

lemma always_bind:
  "always (bind p f) I \<longleftrightarrow>
     always p I \<and> all_paths p (\<lambda>t out. \<forall>x. out = Returned x \<longrightarrow> always (f x) (\<lambda>t'. I (t @ t')))"
  by (induction p arbitrary: I) (auto intro: always_Nil)

subsection \<open>Deferred calls\<close>

text \<open>
  \<^verbatim>\<open>defer\<close>: the deferred call is made when the function returns and when it panics, but
  not when the process exits from inside it (\<^verbatim>\<open>os.Exit\<close>, \<^verbatim>\<open>log.Fatal\<close>).
\<close>

primrec deferred :: "('a prog \<Rightarrow> 'a prog) \<Rightarrow> 'a prog \<Rightarrow> 'a prog" where
  "deferred d (Ret x) = d (Ret x)"
| "deferred d (Exit n) = Exit n"
| "deferred d Panic = d Panic"
| "deferred d (Do a k) = Do a (\<lambda>r. deferred d (k r))"
| "deferred d (Ask q k) = Ask q (\<lambda>r. deferred d (k r))"
| "deferred d (AskJson q k) = AskJson q (\<lambda>r. deferred d (k r))"
| "deferred d (GetIntCert n k) = GetIntCert n (\<lambda>r. deferred d (k r))"
| "deferred d (GetIntClientCA n k) = GetIntClientCA n (\<lambda>r. deferred d (k r))"
| "deferred d (GetSecret ns n k) = GetSecret ns n (\<lambda>r. deferred d (k r))"
| "deferred d (GetCSR n k) = GetCSR n (\<lambda>r. deferred d (k r))"
| "deferred d (PkiIssueWithRole m ro q k) = PkiIssueWithRole m ro q (\<lambda>r. deferred d (k r))"
| "deferred d (MountsListSecretsEngines k) = MountsListSecretsEngines (\<lambda>r. deferred d (k r))"
| "deferred d (RandInt m k) = RandInt m (\<lambda>r. deferred d (k r))"
| "deferred d (ParseCertificate der k) = ParseCertificate der (\<lambda>r. deferred d (k r))"
| "deferred d (Now k) = Now (\<lambda>r. deferred d (k r))"
| "deferred d (FlagParse fl k) = FlagParse fl (\<lambda>r. deferred d (k r))"
| "deferred d (Getenv n k) = Getenv n (\<lambda>r. deferred d (k r))"
| "deferred d (Sleep n p) = Sleep n (deferred d p)"
| "deferred d (Go g p) = Go g (deferred d p)"
| "deferred d (LoadErr k) = LoadErr (\<lambda>r. deferred d (k r))"
| "deferred d (StoreErr v p) = StoreErr v (deferred d p)"
| "deferred d (WgAdd n p) = WgAdd n (deferred d p)"
| "deferred d (WgDone p) = WgDone (deferred d p)"
| "deferred d (WgWait p) = WgWait (deferred d p)"

lemma all_paths_deferred:
  "all_paths (deferred d p) Q \<longleftrightarrow>
     all_paths p (\<lambda>t out. case out of
         Returned x \<Rightarrow> all_paths (d (Ret x)) (\<lambda>t'. Q (t @ t'))
       | Exited n \<Rightarrow> Q t (Exited n)
       | Panicked \<Rightarrow> all_paths (d Panic) (\<lambda>t'. Q (t @ t')))"
  by (induction p arbitrary: Q) auto

text \<open>A property of every call: it holds of a composed program when it holds of its parts.\<close>

abbreviation each_call :: "(event \<Rightarrow> bool) \<Rightarrow> 'a prog \<Rightarrow> bool" where
  "each_call P p \<equiv> always p (list_all P)"

lemma each_call_bind:
  assumes "each_call P p" and "\<And>x. each_call P (f x)"
  shows "each_call P (bind p f)"
  using assms by (induction p) (simp_all add: always_conj)

lemma always_bindI:
  assumes "each_call P p" and "\<And>t. list_all P t \<Longrightarrow> I t"
    and "\<And>t x. list_all P t \<Longrightarrow> always (f x) (\<lambda>t'. I (t @ t'))"
  shows "always (bind p f) I"
  unfolding always_bind
  using assms always_mono [OF assms(1)] always_accepts [OF assms(1)]
  by (auto intro: accepts_all_pathsI)

lemma each_call_deferred:
  assumes "each_call P p" and "\<And>q. each_call P q \<Longrightarrow> each_call P (d q)"
  shows "each_call P (deferred d p)"
  using assms by (induction p) (simp_all add: always_conj)

lemma always_bind_closed:
  assumes "always p I" and "\<And>x. always (f x) I" and "\<And>s t. I s \<Longrightarrow> I t \<Longrightarrow> I (s @ t)"
  shows "always (bind p f) I"
  unfolding always_bind
  using assms(1) always_accepts [OF assms(1)] always_mono [OF assms(2)] assms(3)
  by (intro conjI accepts_all_pathsI) auto

lemma accepts_bindD:
  "accepts (bind p f) t out \<Longrightarrow>
     (\<exists>t1 t2 x. t = t1 @ t2 \<and> accepts p t1 (Returned x) \<and> accepts (f x) t2 out) \<or>
     (\<exists>n. out = Exited n \<and> accepts p t (Exited n)) \<or> out = Panicked \<and> accepts p t Panicked"
proof -
  have "all_paths (bind p f) (\<lambda>t out.
     (\<exists>t1 t2 x. t = t1 @ t2 \<and> accepts p t1 (Returned x) \<and> accepts (f x) t2 out) \<or>
     (\<exists>n. out = Exited n \<and> accepts p t (Exited n)) \<or> out = Panicked \<and> accepts p t Panicked)"
    by (rule all_paths_bindI [OF all_paths_self])
      (auto intro: all_paths_mono [OF all_paths_self])
  then show "accepts (bind p f) t out \<Longrightarrow> ?thesis" by (rule all_paths_accepts)
qed

end
