(* ===== verification/Kube_Store.thy ===== *)
theory Kube_Store
  imports Go_Paths
begin

text \<open>
  The abstract specification of the Kubernetes secrets the program manages.  The API
  server is not part of the repository; what the code relies on is its documented
  contract, stated on the events of a run:

  \<^item> \<open>replay st t\<close>: the stored secrets after the calls of \<open>t\<close>, starting from \<open>st\<close>.
    Only a successful create or update changes them, and stores the object's \<^verbatim>\<open>Data\<close> with
    its write-only \<^verbatim>\<open>StringData\<close> merged over it.
  \<^item> \<open>conforms st t\<close>: the replies in \<open>t\<close> are replies an API server that holds \<open>st\<close> can
    give: a read returns the stored entries (never \<^verbatim>\<open>StringData\<close>) or fails, a create succeeds only if the object
    is absent and says AlreadyExists only if it is present, an update succeeds only if it
    is present and says NotFound only if it is absent.  Any call may fail otherwise.
\<close>

type_synonym secret_store = "namespaced_name \<rightharpoonup> (string \<rightharpoonup> string)"

definition entries :: "secret \<Rightarrow> (string \<rightharpoonup> string)" where
  "entries s = (case Data s of None \<Rightarrow> StringData s | Some m \<Rightarrow> m ++ StringData s)"

lemma entries_simps [simp]:
  "Data s = None \<Longrightarrow> entries s = StringData s"
  "Data s = Some m \<Longrightarrow> StringData s = Map.empty \<Longrightarrow> entries s = m"
  by (simp_all add: entries_def)

lemma entries_set_owner [simp]: "entries (set_owner k m s) = entries s"
  by (cases "Data s") (simp_all add: entries_def)

lemma owner_set_owner [simp]:
  "OwnerReferences (Secret_Meta (set_owner k m s)) = OwnerReferences (Secret_Meta s) @
     [\<lparr>Owner_Kind = k, Owner_Name = Meta_Name m, Owner_UID = Meta_UID m\<rparr>]"
  by (simp add: set_owner_def)

abbreviation secret_name :: "secret \<Rightarrow> string" where
  "secret_name s \<equiv> Meta_Name (Secret_Meta s)"

text \<open>The secret a call tries to write, and the one it has written.\<close>

definition secret_write :: "event \<Rightarrow> (namespaced_name \<times> secret) option" where
  "secret_write e =
     (case e of EvDo a r \<Rightarrow>
        (case a of CreateSecret ns s \<Rightarrow> Some ((ns, secret_name s), s)
         | UpdateSecret ns s \<Rightarrow> Some ((ns, secret_name s), s)
         | _ \<Rightarrow> None)
      | _ \<Rightarrow> None)"

definition succeeded :: "event \<Rightarrow> bool" where
  "succeeded e = (case e of EvDo a r \<Rightarrow> r = None | _ \<Rightarrow> False)"

definition apply_event :: "secret_store \<Rightarrow> event \<Rightarrow> secret_store" where
  "apply_event st e =
     (if succeeded e
      then (case secret_write e of None \<Rightarrow> st | Some (k, s) \<Rightarrow> st(k \<mapsto> entries s))
      else st)"

fun replay :: "secret_store \<Rightarrow> event list \<Rightarrow> secret_store" where
  "replay st [] = st"
| "replay st (e # t) = replay (apply_event st e) t"

lemma replay_append [simp]: "replay st (s @ t) = replay (replay st s) t"
  by (induction s arbitrary: st) auto

text \<open>Every call a program makes, as simp rules: only secret writes have an effect.\<close>

lemma secret_write_simps [simp]:
  "secret_write (EvDo (CreateSecret ns s) r) = Some ((ns, secret_name s), s)"
  "secret_write (EvDo (UpdateSecret ns s) r) = Some ((ns, secret_name s), s)"
  "secret_write (EvDo (CreateCSR c) r) = None"
  "secret_write (EvDo (DeleteCSR n) r) = None"
  "secret_write (EvDo (UpdateApproval n c) r) = None"
  "secret_write (EvDo (SetControllerReference om s) r) = None"
  "secret_write (EvDo InClusterConfig r) = None"
  "secret_write (EvDo NewForConfig r) = None"
  "secret_write (EvDo (VaultNew x y) r) = None"
  "secret_write (EvDo (SetToken x) r) = None"
  "secret_write (EvDo (MountsEnableSecretsEngine x mr) r) = None"
  "secret_write (EvDo (MountsTuneConfigurationParameters x y) r) = None"
  "secret_write (EvDo (PkiConfigureUrls x u) r) = None"
  "secret_write (EvDo (PkiWriteRole x y ro) r) = None"
  "secret_write (EvDo (PkiSetSignedIntermediate x y) r) = None"
  "secret_write (EvDo (Unseal x y) r) = None"
  "secret_write (EvDo (HttpNewRequest x y z) r) = None"
  "secret_write (EvDo (HttpDo h) r) = None"
  "secret_write (EvDo BodyClose r) = None"
  "secret_write (EvDo (FileCreate x) r) = None"
  "secret_write (EvDo (FileWrite x y) r) = None"
  "secret_write (EvDo (FileClose x) r) = None"
  "secret_write (EvDo (WriteFile x y p0) r) = None"
  "secret_write (EvDo (CloseBody x) r) = None"
  "secret_write (EvDo (SetTrustedProxies ps) r) = None"
  "secret_write (EvDo (Serve sv) r) = None"
  "secret_write (EvDo (AddToScheme x) r) = None"
  "secret_write (EvDo GetConfig r) = None"
  "secret_write (EvDo (NewManager mo) r) = None"
  "secret_write (EvDo (SetupWithManager x y) r) = None"
  "secret_write (EvDo (SetupWebhookWithManager x) r) = None"
  "secret_write (EvDo (AddHealthzCheck x) r) = None"
  "secret_write (EvDo (AddReadyzCheck x) r) = None"
  "secret_write (EvDo ManagerStart r) = None"
  "secret_write (EvAsk q qr) = None"
  "secret_write (EvAskJson jq jr) = None"
  "secret_write (EvGetIntCert nn ir) = None"
  "secret_write (EvGetIntClientCA nn cr) = None"
  "secret_write (EvGetSecret ns n sr) = None"
  "secret_write (EvGetCSR n rr) = None"
  "secret_write (EvIssue m ro' iq ip) = None"
  "secret_write (EvListMounts lr) = None"
  "secret_write (EvRandInt n0 ri) = None"
  "secret_write (EvParseCertificate x pc) = None"
  "secret_write (EvNow t0) = None"
  "secret_write (EvFlags f0 f1) = None"
  "secret_write (EvGetenv n v0) = None"
  "secret_write (EvSleep k0) = None"
  "secret_write (EvGo g) = None"
  "secret_write (EvLoadErr v') = None"
  "secret_write (EvStoreErr v') = None"
  "secret_write (EvWgAdd k0) = None"
  "secret_write EvWgDone = None"
  "secret_write EvWgWait = None"
  by (simp_all add: secret_write_def)

lemma succeeded_EvDo [simp]: "succeeded (EvDo a r) \<longleftrightarrow> r = None"
  by (simp add: succeeded_def)

lemma apply_event_no_write [simp]: "secret_write e = None \<Longrightarrow> apply_event st e = st"
  by (simp add: apply_event_def)

lemma apply_event_write [simp]:
  "apply_event st (EvDo (CreateSecret ns s) None) = st((ns, secret_name s) \<mapsto> entries s)"
  "apply_event st (EvDo (UpdateSecret ns s) None) = st((ns, secret_name s) \<mapsto> entries s)"
  "apply_event st (EvDo a (Some err)) = st"
  by (simp_all add: apply_event_def)

text \<open>The keys a run tries to write; everything else is untouched.\<close>

definition written_keys :: "event list \<Rightarrow> namespaced_name set" where
  "written_keys t = (\<Union>e \<in> set t. case secret_write e of None \<Rightarrow> {} | Some (k, s) \<Rightarrow> {k})"

lemma written_keys_Nil [simp]: "written_keys [] = {}"
  by (simp add: written_keys_def)

lemma written_keys_Cons [simp]:
  "written_keys (e # t) =
     (case secret_write e of None \<Rightarrow> {} | Some (k, s) \<Rightarrow> {k}) \<union> written_keys t"
  by (simp add: written_keys_def)

lemma written_keys_append [simp]: "written_keys (s @ t) = written_keys s \<union> written_keys t"
  by (simp add: written_keys_def)

lemma replay_frame: "k \<notin> written_keys t \<Longrightarrow> replay st t k = st k"
  by (induction t arbitrary: st) (auto simp: apply_event_def split: option.splits)

subsection \<open>Replies of a conforming API server\<close>

definition reply_ok :: "secret_store \<Rightarrow> event \<Rightarrow> bool" where
  "reply_ok st e =
     (case e of
        EvGetSecret ns n r \<Rightarrow>
          (case r of
             Inr s \<Rightarrow> st (ns, n) = Some (entries s) \<and> secret_name s = n \<and> StringData s = Map.empty
           | Inl err \<Rightarrow> IsNotFound err \<longrightarrow> st (ns, n) = None)
      | EvDo a r \<Rightarrow>
          (case a of
             CreateSecret ns s \<Rightarrow>
               (case r of None \<Rightarrow> st (ns, secret_name s) = None
                | Some err \<Rightarrow> IsAlreadyExists err \<longrightarrow> st (ns, secret_name s) \<noteq> None)
           | UpdateSecret ns s \<Rightarrow>
               (case r of None \<Rightarrow> st (ns, secret_name s) \<noteq> None
                | Some err \<Rightarrow> IsNotFound err \<longrightarrow> st (ns, secret_name s) = None)
           | _ \<Rightarrow> True)
      | _ \<Rightarrow> True)"

fun conforms :: "secret_store \<Rightarrow> event list \<Rightarrow> bool" where
  "conforms st [] = True"
| "conforms st (e # t) \<longleftrightarrow> reply_ok st e \<and> conforms (apply_event st e) t"

lemma conforms_append [simp]:
  "conforms st (s @ t) \<longleftrightarrow> conforms st s \<and> conforms (replay st s) t"
  by (induction s arbitrary: st) auto

lemma reply_ok_simps [simp]:
  "reply_ok st (EvGetSecret ns n (Inr s)) \<longleftrightarrow>
     st (ns, n) = Some (entries s) \<and> secret_name s = n \<and> StringData s = Map.empty"
  "reply_ok st (EvGetSecret ns n (Inl err)) \<longleftrightarrow> (IsNotFound err \<longrightarrow> st (ns, n) = None)"
  "reply_ok st (EvDo (CreateSecret ns s) None) \<longleftrightarrow> st (ns, secret_name s) = None"
  "reply_ok st (EvDo (CreateSecret ns s) (Some err)) \<longleftrightarrow>
     (IsAlreadyExists err \<longrightarrow> st (ns, secret_name s) \<noteq> None)"
  "reply_ok st (EvDo (UpdateSecret ns s) None) \<longleftrightarrow> st (ns, secret_name s) \<noteq> None"
  "reply_ok st (EvDo (UpdateSecret ns s) (Some err)) \<longleftrightarrow>
     (IsNotFound err \<longrightarrow> st (ns, secret_name s) = None)"
  by (simp_all add: reply_ok_def)

text \<open>Calls that do not touch secrets neither change the store nor are constrained by it, so
  they can be dropped from a run.\<close>

definition on_secrets :: "event \<Rightarrow> bool" where
  "on_secrets e \<longleftrightarrow> secret_write e \<noteq> None \<or> (\<exists>ns n r. e = EvGetSecret ns n r)"

lemma reply_ok_other:
  "secret_write e = None \<Longrightarrow> (\<And>ns n r. e \<noteq> EvGetSecret ns n r) \<Longrightarrow> reply_ok st e"
  by (cases e) (auto simp: reply_ok_def secret_write_def split: act.splits)

lemma off_secrets:
  "\<not> on_secrets e \<Longrightarrow> apply_event st e = st \<and> reply_ok st e \<and> secret_write e = None"
  unfolding on_secrets_def by (intro conjI apply_event_no_write reply_ok_other) blast+

lemma replay_filter: "replay st (filter on_secrets t) = replay st t"
  by (induction t arbitrary: st) (auto simp: off_secrets)

lemma conforms_filter: "conforms st (filter on_secrets t) \<longleftrightarrow> conforms st t"
  by (induction t arbitrary: st) (auto simp: off_secrets)

lemma replay_cong_filter:
  "filter on_secrets t = filter on_secrets u \<Longrightarrow> replay st t = replay st u"
  by (metis replay_filter)

lemma written_keys_filter: "written_keys (filter on_secrets t) = written_keys t"
  by (induction t) (auto simp: off_secrets)

end
