(* ===== verification/Reconciler.thy ===== *)
theory Reconciler
  imports Kube_Store
begin

text \<open>
  The interface between a controller and the controller manager that calls it: the manager
  hands it one request after another, and may be stopped in the middle of any of them.
  The locale states what both controllers of the repository promise, and its lemmas
  follow any series of their reconciliations.
\<close>

type_synonym reconcile_result = "go_error option"

text \<open>
  A series of reconciliations: the requests in the order they are handled, each with the
  calls it made, possibly cut short (a crash, a restart, a lost leader election).
\<close>

inductive worked ::
    "(namespaced_name \<Rightarrow> reconcile_result prog) \<Rightarrow> namespaced_name list \<Rightarrow> event list \<Rightarrow> bool"
  for reconcile where
  idle: "worked reconcile [] []"
| handled: "steps (reconcile req) t = Some p \<Longrightarrow> worked reconcile reqs u \<Longrightarrow>
     worked reconcile (req # reqs) (t @ u)"

inductive_cases worked_NilE: "worked reconcile [] t"
inductive_cases worked_ConsE: "worked reconcile (req # reqs) t"

locale reconciler =
  fixes reconcile :: "namespaced_name \<Rightarrow> reconcile_result prog"
    and declared :: "event list \<Rightarrow> namespaced_name set"
    and owner_kind :: string
  assumes never_exits: "accepts (reconcile req) t out \<Longrightarrow> out \<noteq> Exited n"
    and writes_declared: "steps (reconcile req) t = Some p \<Longrightarrow> written_keys t \<subseteq> declared t"
    and writes_owned: "steps (reconcile req) t = Some p \<Longrightarrow> e \<in> set t \<Longrightarrow>
      secret_write e = Some (k, s) \<Longrightarrow>
      \<exists>name uid. OwnerReferences (Secret_Meta s) =
        [\<lparr>Owner_Kind = owner_kind, Owner_Name = name, Owner_UID = uid\<rparr>]"
    and declared_append: "declared (t @ u) = declared t \<union> declared u"
begin

text \<open>A series of reconciliations writes only secrets some custom resource names.\<close>

lemma worked_writes_declared:
  "worked reconcile reqs t \<Longrightarrow> written_keys t \<subseteq> declared t"
proof (induction rule: worked.induct)
  case idle
  then show ?case by simp
next
  case (handled req t p reqs u)
  then show ?case using writes_declared [of req t p] by (auto simp: declared_append)
qed

text \<open>Every other secret of the cluster is left as it was.\<close>

lemma worked_frame:
  "worked reconcile reqs t \<Longrightarrow> k \<notin> declared t \<Longrightarrow> replay st t k = st k"
  using worked_writes_declared by (blast intro: replay_frame)

lemma worked_writes_owned:
  "worked reconcile reqs t \<Longrightarrow> e \<in> set t \<Longrightarrow> secret_write e = Some (k, s) \<Longrightarrow>
   \<exists>name uid. OwnerReferences (Secret_Meta s) =
     [\<lparr>Owner_Kind = owner_kind, Owner_Name = name, Owner_UID = uid\<rparr>]"
proof (induction rule: worked.induct)
  case idle
  then show ?case by simp
next
  case (handled req t p reqs u)
  then show ?case by (auto intro: writes_owned)
qed

text \<open>A reconciliation that is not cut short returns to the manager or panics.\<close>

lemma returns_or_panics:
  "accepts (reconcile req) t out \<Longrightarrow> (\<exists>err. out = Returned err) \<or> out = Panicked"
  using never_exits [of req t out] by (cases out) blast+

end

end
