(* ===== verification/IntCert_Controller.thy ===== *)
theory IntCert_Controller
  imports Reconciler
begin

text \<open>
  The controller of operator/internal-cert,
  internal/controller/internalcertificate_controller.go: \<^verbatim>\<open>Reconcile\<close> turns one
  InternalCertificate into one Secret with a keypair issued by Vault.  \<^verbatim>\<open>ctrl.Result{}\<close> is
  always the zero value, so the result of a reconciliation is its error.
\<close>

definition newline :: string where [record_defs]:
  "newline = [CHR 0x0A]"

subsection \<open>Building the secret\<close>

text \<open>
  The certificate chain of the secret: a server gets the issuing CA appended, which is
  the runtime panic of \<^verbatim>\<open>issueResp.Data.CaChain[0]\<close> when Vault returned no chain.
\<close>

definition secret_cert :: "internal_certificate \<Rightarrow> issue_response \<Rightarrow> string option" where
  "secret_cert intCert issueResp =
     (if ClientAuth (ExtendedKeyUsage (Spec_Certificate (IntCert_Spec intCert)))
      then Some (Resp_Certificate issueResp)
      else map_option (\<lambda>ca. Resp_Certificate issueResp @ newline @ ca)
             (go_index (Resp_CaChain issueResp) 0))"

definition secret_literal :: "internal_certificate \<Rightarrow> issue_response \<Rightarrow> string \<Rightarrow> secret" where
  "secret_literal intCert issueResp cert =
     \<lparr>Secret_Meta = empty_meta\<lparr>
        Meta_Name := Secret_Name (Spec_Secret (IntCert_Spec intCert)),
        Meta_Namespace := Meta_Namespace (IntCert_Meta intCert)\<rparr>,
      Data = None,
      StringData =
        [KeyName (Spec_Secret (IntCert_Spec intCert)) \<mapsto> Resp_PrivateKey issueResp,
         CertName (Spec_Secret (IntCert_Spec intCert)) \<mapsto> cert],
      Type = SecretTypeOpaque\<rparr>"

definition buildSecretFrom ::
    "internal_certificate \<Rightarrow> issue_response \<Rightarrow> (go_error + secret) prog" where
  "buildSecretFrom intCert issueResp =
     (case secret_cert intCert issueResp of
        None \<Rightarrow> Panic
      | Some cert \<Rightarrow>
          (let secret = secret_literal intCert issueResp cert
           in Do (SetControllerReference (IntCert_Meta intCert) secret) (\<lambda>err.
                case err of
                  Some e \<Rightarrow> Ret (Inl e)
                | None \<Rightarrow> Ret (Inr (set_owner ''InternalCertificate'' (IntCert_Meta intCert) secret)))))"

subsection \<open>Reconcile\<close>

definition alt_names :: "string \<Rightarrow> string" where
  "alt_names cn =
     cn @ '', '' @ cn @ ''.sip, '' @ cn @ ''.sip.svc, '' @ cn @ ''.sip.svc.cluster.local''"

definition issue_req :: "string \<Rightarrow> issue_request" where
  "issue_req cn = \<lparr>Issue_CommonName = cn, Issue_AltNames = alt_names cn\<rparr>"

text \<open>The branch for a client certificate: any failed read of the secret leads to issuing.\<close>

definition reconcile_client ::
    "namespaced_name \<Rightarrow> internal_certificate \<Rightarrow> reconcile_result prog" where
  "reconcile_client req intCert =
     (let cn = CN (Subject (Spec_Certificate (IntCert_Spec intCert)));
          issuer = Reference (Issuer (Spec_Certificate (IntCert_Spec intCert)));
          ns = Meta_Namespace (IntCert_Meta intCert)
      in GetSecret (fst req) (Secret_Name (Spec_Secret (IntCert_Spec intCert))) (\<lambda>got.
           case got of
             Inr _ \<Rightarrow> Ret None
           | Inl _ \<Rightarrow>
               PkiIssueWithRole (''sip-client-ca/'' @ issuer) ''client-ca'' (issue_req cn) (\<lambda>resp.
                 case resp of
                   Inl err \<Rightarrow> Ret (Some err)
                 | Inr issueResp \<Rightarrow>
                     bind (buildSecretFrom intCert issueResp) (\<lambda>built.
                       case built of
                         Inl err \<Rightarrow> Ret (Some err)
                       | Inr secret \<Rightarrow>
                           Do (CreateSecret ns secret) (\<lambda>err.
                             case err of
                               None \<Rightarrow> Ret None
                             | Some e \<Rightarrow>
                                 if IsAlreadyExists e then
                                   Do (UpdateSecret ns secret) (\<lambda>err'.
                                     case err' of Some e' \<Rightarrow> Ret (Some e') | None \<Rightarrow> Ret None)
                                 else Ret (Some e))))))"

text \<open>The branch for a server certificate: only a missing secret leads to issuing.\<close>

definition reconcile_server ::
    "namespaced_name \<Rightarrow> internal_certificate \<Rightarrow> reconcile_result prog" where
  "reconcile_server req intCert =
     (let cn = CN (Subject (Spec_Certificate (IntCert_Spec intCert)));
          ns = Meta_Namespace (IntCert_Meta intCert)
      in GetSecret (fst req) (Secret_Name (Spec_Secret (IntCert_Spec intCert))) (\<lambda>got.
           case got of
             Inr _ \<Rightarrow> Ret None
           | Inl e \<Rightarrow>
               if IsNotFound e then
                 PkiIssueWithRole ''sip-interm-ca'' ''interm-ca'' (issue_req cn) (\<lambda>resp.
                   case resp of
                     Inl err \<Rightarrow> Ret (Some err)
                   | Inr issueResp \<Rightarrow>
                       bind (buildSecretFrom intCert issueResp) (\<lambda>built.
                         case built of
                           Inl err \<Rightarrow> Ret (Some err)
                         | Inr secret \<Rightarrow>
                             Do (CreateSecret ns secret) (\<lambda>err.
                               case err of Some e' \<Rightarrow> Ret (Some e') | None \<Rightarrow> Ret None)))
               else Ret None))"

definition Reconcile :: "namespaced_name \<Rightarrow> reconcile_result prog" where
  "Reconcile req =
     GetIntCert req (\<lambda>got.
       case got of
         Inl err \<Rightarrow> if IsNotFound err then Ret None else Ret (Some err)
       | Inr intCert \<Rightarrow>
           (if ClientAuth (ExtendedKeyUsage (Spec_Certificate (IntCert_Spec intCert)))
            then reconcile_client req intCert
            else if ServerAuth (ExtendedKeyUsage (Spec_Certificate (IntCert_Spec intCert)))
            then reconcile_server req intCert
            else Ret None))"

subsection \<open>The paths of Reconcile\<close>

lemmas reconcile_defs =
  Reconcile_def reconcile_client_def reconcile_server_def buildSecretFrom_def Let_def

text \<open>The secret an InternalCertificate names.\<close>

abbreviation intcert_key :: "internal_certificate \<Rightarrow> namespaced_name" where
  "intcert_key c \<equiv> (Meta_Namespace (IntCert_Meta c), Secret_Name (Spec_Secret (IntCert_Spec c)))"

abbreviation is_client :: "internal_certificate \<Rightarrow> bool" where
  "is_client c \<equiv> ClientAuth (ExtendedKeyUsage (Spec_Certificate (IntCert_Spec c)))"

abbreviation is_server :: "internal_certificate \<Rightarrow> bool" where
  "is_server c \<equiv> ServerAuth (ExtendedKeyUsage (Spec_Certificate (IntCert_Spec c)))"

definition declared_intcert :: "event list \<Rightarrow> namespaced_name set" where
  "declared_intcert t =
     (\<Union>e \<in> set t. case e of EvGetIntCert n r \<Rightarrow> (case r of Inl _ \<Rightarrow> {} | Inr c \<Rightarrow> {intcert_key c})
        | _ \<Rightarrow> {})"

lemma declared_intcert_simps [simp]:
  "declared_intcert [] = {}"
  "declared_intcert (t @ u) = declared_intcert t \<union> declared_intcert u"
  "declared_intcert (EvGetIntCert n (Inr c) # t) = insert (intcert_key c) (declared_intcert t)"
  "declared_intcert (EvGetIntCert n (Inl e) # t) = declared_intcert t"
  "(\<And>n r. e' \<noteq> EvGetIntCert n r) \<Longrightarrow> declared_intcert (e' # t) = declared_intcert t"
  by (auto simp: declared_intcert_def split: event.splits)

lemma secret_literal_meta [simp]:
  "secret_name (secret_literal c r cert) = Secret_Name (Spec_Secret (IntCert_Spec c))"
  "Meta_Namespace (Secret_Meta (secret_literal c r cert)) = Meta_Namespace (IntCert_Meta c)"
  "Data (secret_literal c r cert) = None"
  "Type (secret_literal c r cert) = SecretTypeOpaque"
  "OwnerReferences (Secret_Meta (secret_literal c r cert)) = []"
  by (simp_all add: secret_literal_def empty_meta_def)

lemma Reconcile_writes:
  "always (Reconcile req) (\<lambda>t. written_keys t \<subseteq> declared_intcert t)"
  by (auto simp: reconcile_defs split: sum.splits option.splits)

lemma Reconcile_owned:
  "always (Reconcile req) (\<lambda>t. \<forall>e \<in> set t. \<forall>k s. secret_write e = Some (k, s) \<longrightarrow>
     (\<exists>name uid. OwnerReferences (Secret_Meta s) =
       [\<lparr>Owner_Kind = ''InternalCertificate'', Owner_Name = name, Owner_UID = uid\<rparr>]))"
  by (auto simp: reconcile_defs split: sum.splits option.splits)

lemma Reconcile_returns: "all_paths (Reconcile req) (\<lambda>t out. \<forall>n. out \<noteq> Exited n)"
  by (auto simp: reconcile_defs split: sum.splits option.splits)

interpretation intcert: reconciler Reconcile declared_intcert "''InternalCertificate''"
proof unfold_locales
  show "written_keys t \<subseteq> declared_intcert t" if "steps (Reconcile req) t = Some p" for req t p
    using always_steps [OF Reconcile_writes that] .
  show "\<exists>name uid. OwnerReferences (Secret_Meta s) =
      [\<lparr>Owner_Kind = ''InternalCertificate'', Owner_Name = name, Owner_UID = uid\<rparr>]"
    if "steps (Reconcile req) t = Some p" "e \<in> set t" "secret_write e = Some (k, s)" for req t p e k s
    using always_steps [OF Reconcile_owned that(1)] that(2,3) by blast
  show "out \<noteq> Exited n" if "accepts (Reconcile req) t out" for req t out n
    using all_paths_accepts [OF Reconcile_returns that] by simp
qed simp_all

subsection \<open>Sample objects\<close>

definition sample_cr :: "bool \<Rightarrow> internal_certificate" where [record_defs]:
  "sample_cr client =
     \<lparr>IntCert_Meta = \<lparr>Meta_Name = ''cr'', Meta_Namespace = ''sip'', Meta_UID = ''1'',
        OwnerReferences = []\<rparr>,
      IntCert_Spec =
        \<lparr>Spec_Certificate =
           \<lparr>Issuer = \<lparr>Reference = ''sp-ca''\<rparr>, Subject = \<lparr>CN = ''sp''\<rparr>,
            ExtendedKeyUsage = \<lparr>ClientAuth = client, ServerAuth = \<not> client\<rparr>\<rparr>,
         Spec_Secret = \<lparr>Secret_Name = ''sec'', CertName = ''tls.crt'', KeyName = ''tls.key''\<rparr>\<rparr>\<rparr>"

definition sample_resp :: issue_response where [record_defs]:
  "sample_resp = \<lparr>Resp_Certificate = ''C'', Resp_PrivateKey = ''K'', Resp_CaChain = [''CA'']\<rparr>"

definition sample_secret :: "bool \<Rightarrow> secret" where [record_defs]:
  "sample_secret client =
     secret_literal (sample_cr client) sample_resp
       (if client then ''C'' else ''C'' @ newline @ ''CA'')"

definition owned_sample :: "bool \<Rightarrow> secret" where [record_defs]:
  "owned_sample client =
     set_owner ''InternalCertificate'' (IntCert_Meta (sample_cr client)) (sample_secret client)"

text \<open>A first reconciliation that issues a certificate and creates the secret.\<close>

definition sample_run :: "bool \<Rightarrow> event list" where
  "sample_run client =
     [EvGetIntCert (''sip'', ''cr'') (Inr (sample_cr client)),
      EvGetSecret ''sip'' ''sec'' (Inl (StatusError NotFound [])),
      EvIssue (if client then ''sip-client-ca/sp-ca'' else ''sip-interm-ca'')
        (if client then ''client-ca'' else ''interm-ca'') (issue_req ''sp'') (Inr sample_resp),
      EvDo (SetControllerReference (IntCert_Meta (sample_cr client)) (sample_secret client)) None,
      EvDo (CreateSecret ''sip'' (owned_sample client)) None]"

lemma accepts_sample_run: "accepts (Reconcile (''sip'', ''cr'')) (sample_run client) (Returned None)"
  by (cases client)
    (simp_all add: sample_run_def reconcile_defs record_defs secret_cert_def go_index_def)

subsection \<open>Correctness of Reconcile\<close>

text \<open>The mount and role a certificate is issued with, and what the secret should hold.\<close>

definition issuing_role :: "internal_certificate \<Rightarrow> string \<times> string" where
  "issuing_role c =
     (if is_client c
      then (''sip-client-ca/'' @ Reference (Issuer (Spec_Certificate (IntCert_Spec c))), ''client-ca'')
      else (''sip-interm-ca'', ''interm-ca''))"

definition wanted_entries ::
    "internal_certificate \<Rightarrow> issue_response \<Rightarrow> (string \<rightharpoonup> string)" where
  "wanted_entries c resp =
     [KeyName (Spec_Secret (IntCert_Spec c)) \<mapsto> Resp_PrivateKey resp,
      CertName (Spec_Secret (IntCert_Spec c)) \<mapsto>
        (if is_client c then Resp_Certificate resp
         else Resp_Certificate resp @ newline @ hd (Resp_CaChain resp))]"

abbreviation secret_of :: "internal_certificate \<Rightarrow> string" where
  "secret_of c \<equiv> Secret_Name (Spec_Secret (IntCert_Spec c))"

definition is_issue :: "event \<Rightarrow> bool" where
  "is_issue e = (case e of EvIssue m ro q r \<Rightarrow> True | _ \<Rightarrow> False)"

lemma is_issue_simps [simp]:
  "is_issue (EvIssue m ro q r)"
  "\<not> is_issue (EvDo a ar)"
  "\<not> is_issue (EvGetIntCert n ir)"
  "\<not> is_issue (EvGetSecret ns sn sr)"
  by (simp_all add: is_issue_def)

definition failed_call :: "event \<Rightarrow> bool" where
  "failed_call e =
     (case e of EvDo a r \<Rightarrow> r \<noteq> None | EvIssue m ro q r \<Rightarrow> isl r
      | EvGetIntCert n r \<Rightarrow> isl r | EvGetSecret ns n r \<Rightarrow> isl r | _ \<Rightarrow> False)"

text \<open>The facts a reading of the code's paths gives, each over every path at once.\<close>

lemma Reconcile_success:
  "all_paths (Reconcile req) (\<lambda>t out. \<forall>c st. EvGetIntCert req (Inr c) \<in> set t \<longrightarrow>
     fst req = Meta_Namespace (IntCert_Meta c) \<longrightarrow> is_client c \<or> is_server c \<longrightarrow>
     conforms st t \<longrightarrow> out = Returned None \<longrightarrow>
     replay st t (intcert_key c) \<noteq> None \<or>
     \<not> is_client c \<and> (\<exists>err. \<not> IsNotFound err \<and> EvGetSecret (fst req) (secret_of c) (Inl err) \<in> set t))"
  by (auto simp: reconcile_defs reply_ok_other split: sum.splits option.splits)

lemma Reconcile_contents:
  "all_paths (Reconcile req) (\<lambda>t out. \<forall>c m ro q resp st. EvGetIntCert req (Inr c) \<in> set t \<longrightarrow>
     EvIssue m ro q (Inr resp) \<in> set t \<longrightarrow> out = Returned None \<longrightarrow>
     replay st t = st(intcert_key c \<mapsto> wanted_entries c resp))"
  by (auto simp: reconcile_defs wanted_entries_def secret_literal_def secret_cert_def go_index_def
      empty_meta_def hd_conv_nth split: sum.splits option.splits if_splits)

lemma Reconcile_issue:
  "all_paths (Reconcile req) (\<lambda>t out. length (filter is_issue t) \<le> 1 \<and>
     (\<forall>m ro q r. EvIssue m ro q r \<in> set t \<longrightarrow>
       (\<exists>c err. EvGetIntCert req (Inr c) \<in> set t \<and>
          EvGetSecret (fst req) (secret_of c) (Inl err) \<in> set t \<and>
          (is_client c \<or> is_server c \<and> IsNotFound err) \<and> (m, ro) = issuing_role c \<and>
          q = issue_req (CN (Subject (Spec_Certificate (IntCert_Spec c)))))))"
  by (auto simp: reconcile_defs issuing_role_def split: sum.splits option.splits)

lemma Reconcile_server_keeps:
  "all_paths (Reconcile req) (\<lambda>t out. \<forall>c st. EvGetIntCert req (Inr c) \<in> set t \<longrightarrow>
     \<not> is_client c \<longrightarrow> conforms st t \<longrightarrow> st (intcert_key c) \<noteq> None \<longrightarrow> replay st t = st)"
  by (auto simp: reconcile_defs reply_ok_other split: sum.splits option.splits)

lemma Reconcile_errors:
  "all_paths (Reconcile req) (\<lambda>t out. \<forall>e \<in> set t. failed_call e \<longrightarrow> out = Returned None \<longrightarrow>
     (\<exists>err. e = EvGetIntCert req (Inl err) \<and> IsNotFound err) \<or>
     (\<exists>n err. e = EvGetSecret (fst req) n (Inl err)) \<or>
     (\<exists>ns s err. e = EvDo (CreateSecret ns s) (Some err) \<and> IsAlreadyExists err \<and>
        last t = EvDo (UpdateSecret ns s) None))"
  by (auto simp: reconcile_defs failed_call_def split: sum.splits option.splits)

lemma Reconcile_panic:
  "all_paths (Reconcile req) (\<lambda>t out. out = Panicked \<longrightarrow>
     written_keys t = {} \<and>
     (\<exists>c q resp. EvGetIntCert req (Inr c) \<in> set t \<and> \<not> is_client c \<and>
        last t = EvIssue ''sip-interm-ca'' ''interm-ca'' q (Inr resp) \<and> Resp_CaChain resp = []))"
  by (auto simp: reconcile_defs secret_cert_def split: sum.splits option.splits if_splits)

lemma Reconcile_settled:
  "all_paths (Reconcile req) (\<lambda>t out. \<forall>c st. EvGetIntCert req (Inr c) \<in> set t \<longrightarrow>
     fst req = Meta_Namespace (IntCert_Meta c) \<longrightarrow>
     conforms st t \<longrightarrow> st (intcert_key c) \<noteq> None \<longrightarrow>
     (\<forall>n err. EvGetSecret (fst req) n (Inl err) \<in> set t \<longrightarrow> IsNotFound err) \<longrightarrow>
     out = Returned None \<and> written_keys t = {} \<and> filter is_issue t = [])"
  by (auto simp: reconcile_defs reply_ok_other split: sum.splits option.splits)

text \<open>C2: After a successful reconciliation the secret the InternalCertificate names exists,
  whatever the replies of the API server and of Vault, unless the resource is not for a
  client and its secret could not be read for another reason than being absent: that error
  is not reported and nothing is created.\<close>

theorem intcert_secret_ready:
  assumes "accepts (Reconcile req) t (Returned None)"
    and "EvGetIntCert req (Inr c) \<in> set t"
    and "fst req = Meta_Namespace (IntCert_Meta c)"
    and "is_client c \<or> is_server c"
    and "conforms st t"
  shows "replay st t (intcert_key c) \<noteq> None \<or>
     \<not> is_client c \<and>
       (\<exists>err. \<not> IsNotFound err \<and> EvGetSecret (fst req) (secret_of c) (Inl err) \<in> set t)"
  using all_paths_accepts [OF Reconcile_success assms(1)] assms(2-5) by blast

theorem intcert_secret_ready_witness:
  "replay Map.empty (sample_run True) (''sip'', ''sec'') \<noteq> None"
proof -
  have "replay Map.empty (sample_run True) (intcert_key (sample_cr True)) \<noteq> None \<or>
     \<not> is_client (sample_cr True) \<and>
       (\<exists>err. \<not> IsNotFound err \<and>
          EvGetSecret (fst (''sip'', ''cr'')) (secret_of (sample_cr True)) (Inl err) \<in> set (sample_run True))"
    by (rule intcert_secret_ready [OF accepts_sample_run])
      (auto simp: sample_run_def record_defs reply_ok_other)
  then show ?thesis by (simp add: record_defs)
qed

text \<open>C1: A successful reconciliation that issued a certificate changes exactly the secret the
  resource names, to the issued private key under the key name and the issued certificate,
  followed for a server by the first certificate of the CA chain, under the certificate
  name.\<close>

theorem intcert_secret_contents:
  assumes "accepts (Reconcile req) t (Returned None)"
    and "EvGetIntCert req (Inr c) \<in> set t"
    and "EvIssue m ro q (Inr resp) \<in> set t"
  shows "replay st t = st(intcert_key c \<mapsto> wanted_entries c resp)"
  using all_paths_accepts [OF Reconcile_contents assms(1)] assms(2,3) by blast

theorem intcert_secret_contents_witness:
  "replay Map.empty (sample_run False) =
     [(''sip'', ''sec'') \<mapsto> [''tls.key'' \<mapsto> ''K'', ''tls.crt'' \<mapsto> ''C'' @ newline @ ''CA'']]"
  using intcert_secret_contents [OF accepts_sample_run [of False], of "sample_cr False"
      "''sip-interm-ca''" "''interm-ca''" "issue_req ''sp''" sample_resp Map.empty]
  by (simp add: sample_run_def wanted_entries_def record_defs)

text \<open>At most one certificate is requested from Vault per reconciliation, and only after
  the secret could not be read, with the mount and role of the requested usage and the common
  name of the resource; for a server certificate the secret must be missing.\<close>

theorem intcert_issue:
  assumes "accepts (Reconcile req) t out"
  shows "length (filter is_issue t) \<le> 1 \<and>
     (\<forall>m ro q r. EvIssue m ro q r \<in> set t \<longrightarrow>
       (\<exists>c err. EvGetIntCert req (Inr c) \<in> set t \<and>
          EvGetSecret (fst req) (secret_of c) (Inl err) \<in> set t \<and>
          (is_client c \<or> is_server c \<and> IsNotFound err) \<and> (m, ro) = issuing_role c \<and>
          q = issue_req (CN (Subject (Spec_Certificate (IntCert_Spec c))))))"
  using all_paths_accepts [OF Reconcile_issue assms] .

theorem intcert_issue_witness:
  "\<exists>c. EvGetIntCert (''sip'', ''cr'') (Inr c) \<in> set (sample_run True) \<and>
     (''sip-client-ca/sp-ca'', ''client-ca'') = issuing_role c"
proof -
  have "EvIssue ''sip-client-ca/sp-ca'' ''client-ca'' (issue_req ''sp'') (Inr sample_resp)
      \<in> set (sample_run True)"
    by (simp add: sample_run_def)
  then show ?thesis
    using intcert_issue [OF accepts_sample_run, of True] by blast
qed

text \<open>An existing secret of an InternalCertificate that is not for a client is never
  changed, whatever fails.\<close>

theorem intcert_server_keeps_secret:
  assumes "accepts (Reconcile req) t out"
    and "EvGetIntCert req (Inr c) \<in> set t" and "\<not> is_client c"
    and "conforms st t" and "st (intcert_key c) \<noteq> None"
  shows "replay st t = st"
  using all_paths_accepts [OF Reconcile_server_keeps assms(1)] assms(2-5) by blast

definition existing_sample :: secret where [record_defs]:
  "existing_sample =
     empty_secret\<lparr>Secret_Meta := empty_meta\<lparr>Meta_Name := ''sec'', Meta_Namespace := ''sip''\<rparr>,
       Data := Some [''tls.key'' \<mapsto> ''old'']\<rparr>"

theorem intcert_server_keeps_secret_witness:
  "replay [(''sip'', ''sec'') \<mapsto> [''tls.key'' \<mapsto> ''old'']]
     [EvGetIntCert (''sip'', ''cr'') (Inr (sample_cr False)),
      EvGetSecret ''sip'' ''sec'' (Inr existing_sample)] =
   [(''sip'', ''sec'') \<mapsto> [''tls.key'' \<mapsto> ''old'']]"
  by (rule intcert_server_keeps_secret [of "(''sip'', ''cr'')" _ "Returned None" "sample_cr False"])
    (simp_all add: reconcile_defs record_defs empty_secret_def empty_meta_def reply_ok_other)

definition for_client :: "internal_certificate \<Rightarrow> internal_certificate" where
  "for_client c =
     c\<lparr>IntCert_Spec := (IntCert_Spec c)\<lparr>Spec_Certificate :=
       (Spec_Certificate (IntCert_Spec c))\<lparr>ExtendedKeyUsage :=
         \<lparr>ClientAuth = True, ServerAuth = False\<rparr>\<rparr>\<rparr>\<rparr>"

text \<open>An existing secret of a client InternalCertificate is replaced by a new keypair when
  its read fails for any other reason than being absent: for every error there is such a run
  of a conforming API server, and it reports success.\<close>

theorem intcert_client_read_error_overwrites:
  "\<exists>t. accepts (Reconcile (Meta_Namespace (IntCert_Meta (for_client c)), n)) t (Returned None) \<and>
     EvGetSecret (Meta_Namespace (IntCert_Meta (for_client c))) (secret_of (for_client c)) (Inl (StatusError OtherReason m)) \<in> set t \<and>
     conforms [intcert_key (for_client c) \<mapsto> old] t \<and>
     replay [intcert_key (for_client c) \<mapsto> old] t = [intcert_key (for_client c) \<mapsto> wanted_entries (for_client c) resp]"
proof -
  let ?cl = "for_client c"
  let ?ns = "Meta_Namespace (IntCert_Meta ?cl)"
  let ?s = "secret_literal ?cl resp (Resp_Certificate resp)"
  let ?o = "set_owner ''InternalCertificate'' (IntCert_Meta ?cl) ?s"
  let ?t = "[EvGetIntCert (?ns, n) (Inr ?cl),
     EvGetSecret ?ns (secret_of ?cl) (Inl (StatusError OtherReason m)),
     EvIssue (''sip-client-ca/'' @ Reference (Issuer (Spec_Certificate (IntCert_Spec ?cl)))) ''client-ca''
       (issue_req (CN (Subject (Spec_Certificate (IntCert_Spec ?cl))))) (Inr resp),
     EvDo (SetControllerReference (IntCert_Meta ?cl) ?s) None,
     EvDo (CreateSecret ?ns ?o) (Some (StatusError AlreadyExists [])),
     EvDo (UpdateSecret ?ns ?o) None]"
  have client: "is_client ?cl" by (simp add: for_client_def)
  then have run: "accepts (Reconcile (?ns, n)) ?t (Returned None)"
    by (simp add: reconcile_defs secret_cert_def)
  moreover have "conforms [intcert_key ?cl \<mapsto> old] ?t"
    by (simp add: reply_ok_other)
  moreover have "replay [intcert_key ?cl \<mapsto> old] ?t =
      [intcert_key ?cl \<mapsto> old](intcert_key ?cl \<mapsto> wanted_entries ?cl resp)"
    using all_paths_accepts [OF Reconcile_contents run] by auto
  ultimately show ?thesis by (intro exI [of _ ?t]) simp
qed

text \<open>C36: A reconciliation that reports success has met no failed call but a missing resource,
  a failed read of the secret, or a create that found the secret present and was followed by
  an update.\<close>

theorem intcert_errors_reported:
  assumes "accepts (Reconcile req) t (Returned None)" and "e \<in> set t" and "failed_call e"
  shows "(\<exists>err. e = EvGetIntCert req (Inl err) \<and> IsNotFound err) \<or>
     (\<exists>n err. e = EvGetSecret (fst req) n (Inl err)) \<or>
     (\<exists>ns s err. e = EvDo (CreateSecret ns s) (Some err) \<and> IsAlreadyExists err \<and>
        last t = EvDo (UpdateSecret ns s) None)"
  using all_paths_accepts [OF Reconcile_errors assms(1)] assms(2,3) by blast

theorem intcert_errors_reported_witness:
  "\<exists>n err. EvGetSecret ''sip'' ''sec'' (Inl (StatusError NotFound [])) =
     EvGetSecret (fst (''sip'', ''cr'')) n (Inl err)"
proof -
  have "EvGetSecret ''sip'' ''sec'' (Inl (StatusError NotFound [])) \<in> set (sample_run True)"
    by (simp add: sample_run_def)
  from intcert_errors_reported [OF accepts_sample_run this]
  show ?thesis by (simp add: failed_call_def)
qed

text \<open>A reconciliation panics only when Vault issues a server certificate without a CA
  chain, and has then written nothing.\<close>

theorem intcert_panic:
  assumes "accepts (Reconcile req) t Panicked"
  shows "written_keys t = {} \<and>
     (\<exists>c q resp. EvGetIntCert req (Inr c) \<in> set t \<and> \<not> is_client c \<and>
        last t = EvIssue ''sip-interm-ca'' ''interm-ca'' q (Inr resp) \<and> Resp_CaChain resp = [])"
  using all_paths_accepts [OF Reconcile_panic assms] by simp

theorem intcert_panic_witness:
  "\<exists>t. accepts (Reconcile (''sip'', ''cr'')) t Panicked \<and> written_keys t = {}"
proof -
  let ?t = "[EvGetIntCert (''sip'', ''cr'') (Inr (sample_cr False)),
     EvGetSecret ''sip'' ''sec'' (Inl (StatusError NotFound [])),
     EvIssue ''sip-interm-ca'' ''interm-ca'' (issue_req ''sp'') (Inr (sample_resp\<lparr>Resp_CaChain := []\<rparr>))]"
  have "accepts (Reconcile (''sip'', ''cr'')) ?t Panicked"
    by (simp add: reconcile_defs record_defs secret_cert_def go_index_def)
  with intcert_panic [OF this] show ?thesis by blast
qed

text \<open>C33: Reconciling is idempotent: once the secret exists, a reconciliation whose read of the
  secret does not fail for another reason than absence succeeds without requesting a
  certificate and without writing anything.\<close>

theorem intcert_settled:
  assumes "accepts (Reconcile req) t out"
    and "EvGetIntCert req (Inr c) \<in> set t"
    and "fst req = Meta_Namespace (IntCert_Meta c)"
    and "conforms st t" and "st (intcert_key c) \<noteq> None"
    and "\<And>n err. EvGetSecret (fst req) n (Inl err) \<in> set t \<Longrightarrow> IsNotFound err"
  shows "out = Returned None \<and> written_keys t = {} \<and> filter is_issue t = []"
  using all_paths_accepts [OF Reconcile_settled assms(1)] assms(2-6) by blast

theorem intcert_settled_witness:
  "filter is_issue
     [EvGetIntCert (''sip'', ''cr'') (Inr (sample_cr True)),
      EvGetSecret ''sip'' ''sec'' (Inr existing_sample)] = []"
proof -
  let ?t = "[EvGetIntCert (''sip'', ''cr'') (Inr (sample_cr True)),
      EvGetSecret ''sip'' ''sec'' (Inr existing_sample)]"
  have "accepts (Reconcile (''sip'', ''cr'')) ?t (Returned None)"
    by (simp add: reconcile_defs record_defs)
  from intcert_settled [OF this, of "sample_cr True" "[(''sip'', ''sec'') \<mapsto> [''tls.key'' \<mapsto> ''old'']]"]
  show ?thesis by (simp add: record_defs empty_secret_def empty_meta_def reply_ok_other)
qed

text \<open>A resource that cannot be read makes no other call: the reconciliation reports
  success when it is gone and returns the error otherwise.\<close>

theorem intcert_unreadable_cr:
  "accepts (Reconcile req) (EvGetIntCert req (Inl err) # t) out \<longleftrightarrow>
     t = [] \<and> out = Returned (if IsNotFound err then None else Some err)"
  by (cases t) (auto simp: Reconcile_def)

text \<open>The private key reaches the secret exactly when the key name and the certificate name
  differ (or name equal strings): with equal names the certificate replaces it.\<close>

theorem intcert_private_key_kept:
  "wanted_entries c resp (KeyName (Spec_Secret (IntCert_Spec c))) = Some (Resp_PrivateKey resp) \<longleftrightarrow>
     KeyName (Spec_Secret (IntCert_Spec c)) \<noteq> CertName (Spec_Secret (IntCert_Spec c)) \<or>
     Resp_PrivateKey resp =
       (if is_client c then Resp_Certificate resp
        else Resp_Certificate resp @ newline @ hd (Resp_CaChain resp))"
  by (auto simp: wanted_entries_def)

theorem intcert_private_key_kept_witness:
  "wanted_entries (sample_cr True) sample_resp ''tls.key'' = Some ''K''"
  using intcert_private_key_kept [of "sample_cr True" sample_resp] by (simp add: record_defs)

text \<open>Any series of reconciliations, each of which may be cut short anywhere, leaves every
  secret that no InternalCertificate it read names as it was.\<close>

theorem intcert_frame:
  assumes "worked Reconcile reqs t" and "k \<notin> declared_intcert t"
  shows "replay st t k = st k"
  using assms by (rule intcert.worked_frame)

theorem intcert_frame_witness:
  "replay [(''sip'', ''other'') \<mapsto> [''a'' \<mapsto> ''b'']] (sample_run True) (''sip'', ''other'') =
     Some [''a'' \<mapsto> ''b'']"
proof -
  obtain p where "steps (Reconcile (''sip'', ''cr'')) (sample_run True) = Some p"
    using accepts_sample_run [of True] by (auto simp: accepts_iff_steps)
  then have "worked Reconcile [(''sip'', ''cr'')] (sample_run True @ [])"
    by (intro worked.intros)
  from intcert_frame [OF this, of "(''sip'', ''other'')"]
  show ?thesis by (simp add: sample_run_def record_defs)
qed

end
