(* ===== verification/IntCert_Webhook.thy ===== *)
theory IntCert_Webhook
  imports IntCert_Controller
begin

text \<open>
  The admission webhooks of operator/internal-cert,
  api/v1alpha1/internalcertificate_webhook.go: the defaulting webhook, which changes
  nothing, and the validating webhook, which checks the extended key usage.  A method on a
  pointer receiver is a function from the resource; the two results of the validating
  methods are the warnings (always nil, the empty list) and the error.
\<close>

type_synonym warnings = "string list"

text \<open>\<^verbatim>\<open>field.NewPath("spec").Child("certificate")\<close> as the list of its parts.\<close>

definition spec_certificate_path :: "string list" where
  "spec_certificate_path = [''spec''] @ [''certificate'']"

definition validateCertificate :: "certificate \<Rightarrow> string list \<Rightarrow> field_error option" where
  "validateCertificate certificate fldPath =
     (if ServerAuth (ExtendedKeyUsage certificate) = ClientAuth (ExtendedKeyUsage certificate)
      then Some (FieldInvalid fldPath certificate
        ''clientAuth and serverAuth cannot both be true or both be false'')
      else None)"

definition validateInternalCertificateSpec :: "internal_certificate \<Rightarrow> field_error option" where
  "validateInternalCertificateSpec r =
     validateCertificate (Spec_Certificate (IntCert_Spec r)) spec_certificate_path"

definition validateInternalCertificate :: "internal_certificate \<Rightarrow> go_error option" where
  "validateInternalCertificate r =
     (let allErrs = [];
          allErrs' = (case validateInternalCertificateSpec r of
             Some err \<Rightarrow> allErrs @ [err] | None \<Rightarrow> allErrs)
      in if length allErrs' = 0 then None
         else Some (NewInvalid ''sip.sec.com'' ''InternalCertificate''
                (Meta_Name (IntCert_Meta r)) allErrs'))"

definition ValidateCreate :: "internal_certificate \<Rightarrow> warnings \<times> go_error option" where
  "ValidateCreate r = ([], validateInternalCertificate r)"

definition ValidateUpdate ::
    "internal_certificate \<Rightarrow> internal_certificate \<Rightarrow> warnings \<times> go_error option" where
  "ValidateUpdate r old = ([], validateInternalCertificate r)"

definition ValidateDelete :: "internal_certificate \<Rightarrow> warnings \<times> go_error option" where
  "ValidateDelete r = ([], None)"

definition Default :: "internal_certificate \<Rightarrow> internal_certificate" where
  "Default r = r"

lemmas webhook_defs =
  validateCertificate_def validateInternalCertificateSpec_def validateInternalCertificate_def
  ValidateCreate_def ValidateUpdate_def ValidateDelete_def Default_def spec_certificate_path_def
  Let_def

text \<open>The validating webhook accepts an InternalCertificate, on creation and on update,
  exactly when one of client and server authentication is requested and not both; it rejects
  with one Invalid error that names the resource and the field, and never warns.\<close>

theorem webhook_validates_usage:
  "ValidateCreate r =
     ([], if is_client r = is_server r
        then Some (NewInvalid ''sip.sec.com'' ''InternalCertificate'' (Meta_Name (IntCert_Meta r))
          [FieldInvalid [''spec'', ''certificate''] (Spec_Certificate (IntCert_Spec r))
             ''clientAuth and serverAuth cannot both be true or both be false''])
        else None) \<and>
   ValidateUpdate r old = ValidateCreate r \<and> snd (ValidateDelete r) = None"
  by (auto simp: webhook_defs)

text \<open>C34: for a resource the validating webhook accepted, a reconciliation that returns has read
  the secret it names: no accepted resource falls through both branches.\<close>

theorem webhook_accepted_is_handled:
  assumes "snd (ValidateCreate c) = None"
    and "accepts (Reconcile req) (EvGetIntCert req (Inr c) # t) out"
  shows "\<exists>r u. t = EvGetSecret (fst req) (secret_of c) r # u"
proof -
  from assms(1) have "is_client c \<or> is_server c"
    by (auto simp: webhook_defs split: if_splits)
  with assms(2) show ?thesis
    by (cases t) (auto simp: reconcile_defs split: event.splits if_splits)
qed

theorem webhook_accepted_is_handled_witness:
  "\<exists>r u. tl (sample_run True) = EvGetSecret ''sip'' ''sec'' r # u"
proof -
  have "snd (ValidateCreate (sample_cr True)) = None" by (simp add: webhook_defs record_defs)
  moreover have "accepts (Reconcile (''sip'', ''cr''))
      (EvGetIntCert (''sip'', ''cr'') (Inr (sample_cr True)) # tl (sample_run True)) (Returned None)"
    using accepts_sample_run [of True] by (simp add: sample_run_def)
  ultimately show ?thesis
    using webhook_accepted_is_handled [of "sample_cr True" "(''sip'', ''cr'')"]
    by (simp add: record_defs)
qed

text \<open>The webhooks neither require an issuer for a client certificate nor fill in the key and
  certificate names: a resource without any of them is admitted unchanged, and the certificate
  then takes the place of its private key in the secret.\<close>

theorem webhook_no_defaults:
  "\<exists>r. snd (ValidateCreate (Default r)) = None \<and> is_client (Default r) \<and>
     Reference (Issuer (Spec_Certificate (IntCert_Spec (Default r)))) = [] \<and>
     KeyName (Spec_Secret (IntCert_Spec (Default r))) = [] \<and>
     (\<forall>resp. wanted_entries (Default r) resp = [[] \<mapsto> Resp_Certificate resp])"
proof -
  let ?r = "(sample_cr True)\<lparr>IntCert_Spec := (IntCert_Spec (sample_cr True))\<lparr>
      Spec_Certificate := (Spec_Certificate (IntCert_Spec (sample_cr True)))\<lparr>
        Issuer := \<lparr>Reference = []\<rparr>\<rparr>,
      Spec_Secret := \<lparr>Secret_Name = ''sec'', CertName = [], KeyName = []\<rparr>\<rparr>\<rparr>"
  show ?thesis
    by (rule exI [of _ ?r]) (simp add: webhook_defs record_defs wanted_entries_def)
qed

end
