(* ===== verification/IntCert_Refinement.thy ===== *)
theory IntCert_Refinement
  imports IntCert_Controller
begin

text \<open>
  The abstract machine the internal-cert controller implements.  Its state is the store of
  Secrets; its only step writes a key pair that was issued for a resource into the Secret the
  resource names, and for a server certificate only if there is none yet.  Every series of
  reconciliations, each possibly cut short, is a series of such steps.
\<close>

type_synonym issued_pair = "internal_certificate \<times> issue_response"

inductive spec_step :: "issued_pair set \<Rightarrow> secret_store \<Rightarrow> secret_store \<Rightarrow> bool" for I where
  issue: "(c, resp) \<in> I \<Longrightarrow> st (intcert_key c) = None \<or> is_client c \<Longrightarrow>
    spec_step I st (st(intcert_key c \<mapsto> wanted_entries c resp))"

inductive spec_reach :: "issued_pair set \<Rightarrow> secret_store \<Rightarrow> secret_store \<Rightarrow> bool" for I where
  same: "spec_reach I st st"
| step: "spec_step I st st' \<Longrightarrow> spec_reach I st' st'' \<Longrightarrow> spec_reach I st st''"

inductive_cases spec_stepE: "spec_step I st st'"

text \<open>The pairs of a resource that was read and a key pair Vault issued for its role and name.\<close>

definition issued_pairs :: "event list \<Rightarrow> issued_pair set" where
  "issued_pairs t = {(c, resp). \<exists>n m ro q. EvGetIntCert n (Inr c) \<in> set t \<and>
     EvIssue m ro q (Inr resp) \<in> set t \<and> (m, ro) = issuing_role c \<and>
     q = issue_req (CN (Subject (Spec_Certificate (IntCert_Spec c))))}"

text \<open>The API server returns the resource that was asked for.\<close>

definition named_as_asked :: "event list \<Rightarrow> bool" where
  "named_as_asked t \<longleftrightarrow> (\<forall>n c. EvGetIntCert n (Inr c) \<in> set t \<longrightarrow> fst n = Meta_Namespace (IntCert_Meta c))"

lemma spec_step_mono: "spec_step I st st' \<Longrightarrow> I \<subseteq> J \<Longrightarrow> spec_step J st st'"
  by (auto elim!: spec_stepE intro!: spec_step.intros)

lemma spec_reach_mono: "spec_reach I st st' \<Longrightarrow> I \<subseteq> J \<Longrightarrow> spec_reach J st st'"
  by (induction rule: spec_reach.induct) (auto intro: spec_reach.intros spec_step_mono)

lemma spec_reach_trans: "spec_reach I st st' \<Longrightarrow> spec_reach I st' st'' \<Longrightarrow> spec_reach I st st''"
  by (induction rule: spec_reach.induct) (auto intro: spec_reach.intros)

lemma issued_pairs_append: "issued_pairs s \<subseteq> issued_pairs (s @ t)" "issued_pairs t \<subseteq> issued_pairs (s @ t)"
  by (auto simp: issued_pairs_def)

text \<open>What one reconciliation reads and is issued, in order.\<close>

definition read_certs :: "event list \<Rightarrow> (namespaced_name \<times> internal_certificate) list" where
  "read_certs = List.map_filter (\<lambda>e. case e of EvGetIntCert n r \<Rightarrow>
     (case r of Inl err \<Rightarrow> None | Inr c \<Rightarrow> Some (n, c)) | _ \<Rightarrow> None)"

definition issued_certs :: "event list \<Rightarrow> ((string \<times> string) \<times> issue_request \<times> issue_response) list" where
  "issued_certs = List.map_filter (\<lambda>e. case e of EvIssue m ro q r \<Rightarrow>
     (case r of Inl err \<Rightarrow> None | Inr resp \<Rightarrow> Some ((m, ro), q, resp)) | _ \<Rightarrow> None)"

lemma read_certs_simps [simp]:
  "read_certs [] = []"
  "read_certs (EvGetIntCert n (Inl err) # t) = read_certs t"
  "read_certs (EvGetIntCert n (Inr c) # t) = (n, c) # read_certs t"
  "read_certs (EvDo a ar # t) = read_certs t"
  "read_certs (EvGetSecret ns sn sr # t) = read_certs t"
  "read_certs (EvIssue m ro q ir # t) = read_certs t"
  by (simp_all add: read_certs_def)

lemma issued_certs_simps [simp]:
  "issued_certs [] = []"
  "issued_certs (EvIssue m ro q (Inl err) # t) = issued_certs t"
  "issued_certs (EvIssue m ro q (Inr resp) # t) = ((m, ro), q, resp) # issued_certs t"
  "issued_certs (EvDo a ar # t) = issued_certs t"
  "issued_certs (EvGetSecret ns sn sr # t) = issued_certs t"
  "issued_certs (EvGetIntCert n cr # t) = issued_certs t"
  by (simp_all add: issued_certs_def)

lemma read_certs_set: "(n, c) \<in> set (read_certs t) \<Longrightarrow> EvGetIntCert n (Inr c) \<in> set t"
proof (induction t)
  case (Cons e t)
  then show ?case
    by (cases e) (auto simp: read_certs_def List.map_filter_simps split: sum.splits)
qed simp

lemma issued_certs_set:
  "((m, ro), q, resp) \<in> set (issued_certs t) \<Longrightarrow> EvIssue m ro q (Inr resp) \<in> set t"
proof (induction t)
  case (Cons e t)
  then show ?case
    by (cases e) (auto simp: issued_certs_def List.map_filter_simps split: sum.splits)
qed simp

text \<open>The one write a reconciliation of a resource may make.\<close>

definition may_write :: "internal_certificate \<Rightarrow> ((string \<times> string) \<times> issue_request \<times> issue_response) list \<Rightarrow>
    secret_store \<Rightarrow> secret_store \<Rightarrow> bool" where
  "may_write c iss st st' =
     (case iss of
        [] \<Rightarrow> st' = st
      | (mr, q, resp) # _ \<Rightarrow> st' = st \<or>
          mr = issuing_role c \<and> q = issue_req (CN (Subject (Spec_Certificate (IntCert_Spec c)))) \<and>
          (st (intcert_key c) = None \<or> is_client c) \<and>
          st' = st(intcert_key c \<mapsto> wanted_entries c resp))"

definition one_step :: "secret_store \<Rightarrow> event list \<Rightarrow> bool" where
  "one_step st t =
     (case read_certs t of
        [] \<Rightarrow> replay st t = st
      | (n, c) # _ \<Rightarrow> fst n = Meta_Namespace (IntCert_Meta c) \<longrightarrow> may_write c (issued_certs t) st (replay st t))"

lemma literal_entries:
  "secret_cert c resp = Some cert \<Longrightarrow> StringData (secret_literal c resp cert) = wanted_entries c resp"
  by (auto simp: secret_cert_def wanted_entries_def secret_literal_def go_index_def hd_conv_nth
      split: if_splits)

lemma client_one_step:
  "is_client c \<Longrightarrow>
   always (reconcile_client req c) (\<lambda>t. conforms st t \<longrightarrow> may_write c (issued_certs t) st (replay st t))"
  by (auto simp: reconcile_client_def buildSecretFrom_def Let_def may_write_def issuing_role_def literal_entries
      split: sum.splits option.splits)

lemma server_one_step:
  "\<not> is_client c \<Longrightarrow> fst req = Meta_Namespace (IntCert_Meta c) \<Longrightarrow>
   always (reconcile_server req c) (\<lambda>t. conforms st t \<longrightarrow> may_write c (issued_certs t) st (replay st t))"
  by (simp add: reconcile_server_def buildSecretFrom_def Let_def may_write_def issuing_role_def literal_entries
      reply_ok_other split: sum.splits option.splits)

lemma Reconcile_one_step: "always (Reconcile req) (\<lambda>t. conforms st t \<longrightarrow> one_step st t)"
proof -
  have "always (if is_client c then reconcile_client req c
      else if is_server c then reconcile_server req c else Ret None)
     (\<lambda>t. conforms st t \<longrightarrow> fst req = Meta_Namespace (IntCert_Meta c) \<longrightarrow>
        may_write c (issued_certs t) st (replay st t))" for c
  proof (cases "is_client c")
    case True
    then show ?thesis by (auto intro: always_mono [OF client_one_step [of c req st]])
  next
    case other: False
    show ?thesis
    proof (cases "is_server c \<and> fst req = Meta_Namespace (IntCert_Meta c)")
      case True
      then show ?thesis using other by (auto intro: always_mono [OF server_one_step [of c req st]])
    next
      case False
      then show ?thesis using other by (auto simp: may_write_def)
    qed
  qed
  then show ?thesis
    by (simp add: Reconcile_def one_step_def reply_ok_other split: sum.splits)
qed

subsection \<open>The simulation\<close>

lemma one_step_reach:
  assumes "one_step st t" and "named_as_asked t"
  shows "spec_reach (issued_pairs t) st (replay st t)"
proof (cases "read_certs t")
  case Nil
  with assms(1) show ?thesis by (simp add: one_step_def spec_reach.same)
next
  case (Cons nc rest)
  obtain n c where nc: "nc = (n, c)" by (cases nc)
  with Cons have read: "EvGetIntCert n (Inr c) \<in> set t" by (intro read_certs_set) simp
  with assms Cons nc have w: "may_write c (issued_certs t) st (replay st t)"
    by (cases n) (auto simp: one_step_def named_as_asked_def)
  show ?thesis
  proof (cases "replay st t = st")
    case True
    then show ?thesis by (simp add: spec_reach.same)
  next
    case False
    with w obtain m ro q resp iss where i: "issued_certs t = ((m, ro), q, resp) # iss"
      and m: "(m, ro) = issuing_role c" "q = issue_req (CN (Subject (Spec_Certificate (IntCert_Spec c))))"
        "st (intcert_key c) = None \<or> is_client c" "replay st t = st(intcert_key c \<mapsto> wanted_entries c resp)"
      by (auto simp: may_write_def split: list.splits)
    from i have "EvIssue m ro q (Inr resp) \<in> set t" by (intro issued_certs_set) simp
    with read m(1,2) have "(c, resp) \<in> issued_pairs t"
      by (cases n) (auto simp: issued_pairs_def)
    from spec_step.issue [of c resp _ st, OF this m(3)] m(4) show ?thesis
      by (auto intro: spec_reach.intros)
  qed
qed

text \<open>C14: Any series of reconciliations, each of which may be cut short anywhere, against
  conforming replies of the API server, implements the abstract machine: its effect on the
  Secrets is a sequence of steps each of which stores a key pair Vault issued for a resource
  that was read, with the role of its usage and its common name, in the Secret the resource
  names, and replaces an existing Secret only for a client certificate.\<close>

theorem intcert_refines:
  assumes "worked Reconcile reqs t" and "conforms st t" and "named_as_asked t"
  shows "spec_reach (issued_pairs t) st (replay st t)"
  using assms
proof (induction arbitrary: st rule: worked.induct)
  case idle
  then show ?case by (simp add: spec_reach.same)
next
  case (handled req s p reqs u)
  have "one_step st s"
    using always_steps [OF Reconcile_one_step handled(1)] handled(4) by simp
  then have "spec_reach (issued_pairs s) st (replay st s)"
    using handled(5) by (intro one_step_reach) (auto simp: named_as_asked_def)
  moreover have "spec_reach (issued_pairs u) (replay st s) (replay (replay st s) u)"
    using handled(4,5) by (intro handled(3)) (auto simp: named_as_asked_def)
  ultimately show ?case
    by (auto intro: spec_reach_trans spec_reach_mono [OF _ issued_pairs_append(1)]
        spec_reach_mono [OF _ issued_pairs_append(2)])
qed

theorem intcert_refines_witness:
  "spec_reach (issued_pairs (sample_run False)) Map.empty
     [(''sip'', ''sec'') \<mapsto> [''tls.key'' \<mapsto> ''K'', ''tls.crt'' \<mapsto> ''C'' @ newline @ ''CA'']]"
proof -
  obtain p where "steps (Reconcile (''sip'', ''cr'')) (sample_run False) = Some p"
    using accepts_sample_run [of False] by (auto simp: accepts_iff_steps)
  then have "worked Reconcile [(''sip'', ''cr'')] (sample_run False @ [])"
    by (intro worked.intros)
  from intcert_refines [OF this, of Map.empty] show ?thesis
    by (simp add: sample_run_def record_defs reply_ok_other named_as_asked_def empty_meta_def
        secret_literal_def)
qed

end
