(* ===== verification/Vault_Mounts.thy ===== *)
theory Vault_Mounts
  imports Go_Paths
begin

text \<open>
  What the programs that talk to Vault share: the service address, the mount request and
  the PATCH body that several files of the repository repeat, and the abstract
  specification of Vault's table of secrets engines.

  \<^item> \<open>replay_mounts m t\<close>: the mounted paths after the calls of \<open>t\<close>; only a successful
    \<^verbatim>\<open>MountsEnableSecretsEngine\<close> changes them, and Vault lists a path with a final slash.
  \<^item> \<open>mounts_conform m t\<close>: the replies in \<open>t\<close> are those of a Vault whose table is \<open>m\<close>: a list
    returns the table, and a path that is in use cannot be enabled again.
  \<^item> \<open>vault_change e\<close>: the call asks Vault to change its configuration.
\<close>

definition VAULT_INTERNAL_SERVICE_NAME :: string where [record_defs]:
  "VAULT_INTERNAL_SERVICE_NAME = ''vault-internal''"

definition v1_url :: "string \<Rightarrow> string" where
  "v1_url rest = ''https://'' @ VAULT_INTERNAL_SERVICE_NAME @ '':8200/v1/'' @ rest"

definition patchBody :: string where [record_defs]:
  "patchBody = ''{\"client_flag\":false,\"server_flag\":false}''"

definition pki_mount_request :: "string \<Rightarrow> mount_request" where [record_defs]:
  "pki_mount_request usage =
     \<lparr>Mount_Type = ''pki'',
      Mount_Description = ''CA certificate backend created by sip for '' @ usage\<rparr>"

subsection \<open>The table of secrets engines\<close>

definition enabled_path :: "event \<Rightarrow> string option" where
  "enabled_path e =
     (case e of EvDo a r \<Rightarrow>
        (case a of MountsEnableSecretsEngine path req \<Rightarrow> if r = None then Some path else None
         | _ \<Rightarrow> None)
      | _ \<Rightarrow> None)"

lemma enabled_path_eq_Some [simp]:
  "enabled_path e = Some path \<longleftrightarrow> (\<exists>req. e = EvDo (MountsEnableSecretsEngine path req) None)"
  by (auto simp: enabled_path_def split: event.splits act.splits)

definition apply_mount :: "string set \<Rightarrow> event \<Rightarrow> string set" where
  "apply_mount m e =
     (case enabled_path e of None \<Rightarrow> m | Some path \<Rightarrow> insert (path @ ''/'') m)"

fun replay_mounts :: "string set \<Rightarrow> event list \<Rightarrow> string set" where
  "replay_mounts m [] = m"
| "replay_mounts m (e # t) = replay_mounts (apply_mount m e) t"

definition mount_reply_ok :: "string set \<Rightarrow> event \<Rightarrow> bool" where
  "mount_reply_ok m e =
     (case e of
        EvListMounts r \<Rightarrow> (case r of Inl _ \<Rightarrow> True | Inr listed \<Rightarrow> listed = m)
      | _ \<Rightarrow> (case enabled_path e of None \<Rightarrow> True | Some path \<Rightarrow> path @ ''/'' \<notin> m))"

fun mounts_conform :: "string set \<Rightarrow> event list \<Rightarrow> bool" where
  "mounts_conform m [] = True"
| "mounts_conform m (e # t) \<longleftrightarrow> mount_reply_ok m e \<and> mounts_conform (apply_mount m e) t"

lemma replay_mounts_append [simp]: "replay_mounts m (s @ t) = replay_mounts (replay_mounts m s) t"
  by (induction s arbitrary: m) auto

lemma mounts_conform_append [simp]:
  "mounts_conform m (s @ t) \<longleftrightarrow> mounts_conform m s \<and> mounts_conform (replay_mounts m s) t"
  by (induction s arbitrary: m) auto

text \<open>Mounts are never removed.\<close>

lemma replay_mounts_mono: "m \<subseteq> replay_mounts m t"
proof (induction t arbitrary: m)
  case Nil
  show ?case by simp
next
  case (Cons e t)
  have "m \<subseteq> apply_mount m e" by (auto simp: apply_mount_def split: option.split)
  with Cons.IH show ?case by fastforce
qed

lemma enabled_is_mounted:
  "EvDo (MountsEnableSecretsEngine path req) None \<in> set t \<Longrightarrow> path @ ''/'' \<in> replay_mounts m t"
proof (induction t arbitrary: m)
  case Nil
  then show ?case by simp
next
  case (Cons e t)
  show ?case
  proof (cases "e = EvDo (MountsEnableSecretsEngine path req) None")
    case True
    then have "path @ ''/'' \<in> apply_mount m e" by (auto simp: apply_mount_def enabled_path_def)
    then show ?thesis using replay_mounts_mono [of "apply_mount m e" t] by auto
  next
    case False
    with Cons show ?thesis by auto
  qed
qed

text \<open>A conforming list of the secrets engines shows every path mounted before it.\<close>

lemma conform_listed:
  "mounts_conform m (s @ EvListMounts (Inr listed) # t) \<Longrightarrow> listed = replay_mounts m s"
  by (simp add: mount_reply_ok_def)

definition vault_change :: "event \<Rightarrow> bool" where
  "vault_change e =
     (case e of
        EvDo a r \<Rightarrow>
          (case a of
             MountsEnableSecretsEngine _ _ \<Rightarrow> True
           | MountsTuneConfigurationParameters _ _ \<Rightarrow> True
           | PkiConfigureUrls _ _ \<Rightarrow> True
           | PkiWriteRole _ _ _ \<Rightarrow> True
           | PkiSetSignedIntermediate _ _ \<Rightarrow> True
           | HttpDo _ \<Rightarrow> True
           | _ \<Rightarrow> False)
      | EvAsk q r \<Rightarrow>
          (case q of
             PkiGenerateRoot _ _ _ \<Rightarrow> True
           | PkiGenerateIntermediate _ _ _ \<Rightarrow> True
           | PkiRootSignIntermediate _ _ \<Rightarrow> True
           | _ \<Rightarrow> False)
      | _ \<Rightarrow> False)"

end
