(* ===== verification/ClientCA_Controller.thy ===== *)
theory ClientCA_Controller
  imports Reconciler Vault_Mounts
begin

text \<open>
  The controller of operator/internal-client-ca,
  internal/controller/internalclientca_controller.go: \<^verbatim>\<open>Reconcile\<close> turns one
  InternalClientCA into a Vault PKI mount of its own and a Secret with its CA certificate.
  Functions that the other controller also has carry the prefix \<open>ca_\<close>.
\<close>

subsection \<open>Constants and addresses\<close>

definition clientCATTL :: string where [record_defs]: "clientCATTL = ''876000h''"
definition clientCertTTL :: string where [record_defs]: "clientCertTTL = ''168h''"
definition clientCARole :: string where [record_defs]: "clientCARole = ''client-ca''"

definition clientCAPath :: "internal_client_ca \<Rightarrow> string" where
  "clientCAPath c =
     ''sip-client-ca/'' @ CA_CN (CA_Subject (CA_Spec_Certificate (ClientCA_Spec c))) @ ''-ca/''"

subsection \<open>The PATCH request that clears the role flags\<close>

text \<open>
  The flags are cleared by plain HTTP; every failure is printed and ignored, so the function
  always returns.
\<close>

definition ca_disableFlag :: "string \<Rightarrow> string \<Rightarrow> string \<Rightarrow> unit prog" where
  "ca_disableFlag pki role token =
     (let url = v1_url (pki @ ''/roles/'' @ role) in
      Do (HttpNewRequest ''PATCH'' url patchBody) (\<lambda>err.
        case err of
          Some _ \<Rightarrow> Ret ()
        | None \<Rightarrow>
            Do (HttpDo \<lparr>Method = ''PATCH'', URL = url, Body = patchBody,
                  Header = [(''Content-Type'', ''application/merge-patch+json''),
                            (''X-Vault-Token'', token)],
                  InsecureSkipVerify = True\<rparr>) (\<lambda>err.
              case err of Some _ \<Rightarrow> Ret () | None \<Rightarrow> Do BodyClose (\<lambda>_. Ret ()))))"

subsection \<open>Enabling the PKI mount\<close>

definition client_ca_role_request :: role_request where [record_defs]:
  "client_ca_role_request =
     \<lparr>AllowAnyName = True, Role_KeyType = ''ec'', Role_KeyBits = 256,
      Role_KeyUsage = [''CertSign,CRLSign''], Role_ExtKeyUsage = [], EnforceHostnames = False,
      BasicConstraintsValidForNonCa = True, Role_MaxTtl = clientCertTTL\<rparr>"

text \<open>The result is the certificate and the error, as in Go.\<close>

definition enablePKIClientCA ::
    "internal_client_ca \<Rightarrow> string \<Rightarrow> (string \<times> go_error option) prog" where
  "enablePKIClientCA intClientCA path =
     Do (MountsEnableSecretsEngine path (pki_mount_request ''client authn'')) (\<lambda>err.
      case err of Some e \<Rightarrow> Ret ([], Some e) | None \<Rightarrow>
     Do (MountsTuneConfigurationParameters path clientCATTL) (\<lambda>err.
      case err of Some e \<Rightarrow> Ret ([], Some e) | None \<Rightarrow>
     Ask (PkiGenerateRoot path ''internal''
           \<lparr>Gen_CommonName = CA_CN (CA_Subject (CA_Spec_Certificate (ClientCA_Spec intClientCA))),
            Gen_KeyType = ''ec'', Gen_KeyBits = 256, Gen_AddBasicConstraints = False,
            Gen_Ttl = clientCATTL\<rparr>) (\<lambda>keyPair.
      case keyPair of Inl e \<Rightarrow> Ret ([], Some e) | Inr certificate \<Rightarrow>
     Do (PkiConfigureUrls path
           \<lparr>IssuingCertificates = [v1_url (path @ ''/ca'')],
            CrlDistributionPoints = [v1_url (path @ ''/crl'')]\<rparr>) (\<lambda>err.
      case err of Some e \<Rightarrow> Ret ([], Some e) | None \<Rightarrow>
     Do (PkiWriteRole path clientCARole client_ca_role_request) (\<lambda>err.
      case err of Some e \<Rightarrow> Ret ([], Some e) | None \<Rightarrow>
     Do InClusterConfig (\<lambda>err.
      case err of Some e \<Rightarrow> Ret ([], Some e) | None \<Rightarrow>
     Do NewForConfig (\<lambda>err.
      case err of Some _ \<Rightarrow> Panic | None \<Rightarrow>
     Ask (ReadFile ''/var/run/secrets/kubernetes.io/serviceaccount/namespace'') (\<lambda>nsByte.
      let ns = (case nsByte of Inl _ \<Rightarrow> [] | Inr bs \<Rightarrow> bs) in
     GetSecret ns ''vault-root-token'' (\<lambda>existed.
      case existed of Inl _ \<Rightarrow> Ret ([], None) | Inr existedSecretForRootToken \<Rightarrow>
     bind (ca_disableFlag path clientCARole (data_get existedSecretForRootToken ''token'')) (\<lambda>_.
     Ret (certificate, None)))))))))))"

subsection \<open>The secret\<close>

definition ca_secret_literal :: "internal_client_ca \<Rightarrow> string \<Rightarrow> secret" where
  "ca_secret_literal intClientCA cert =
     \<lparr>Secret_Meta = empty_meta\<lparr>
        Meta_Name := CA_Secret_Name (CA_Spec_Secret (ClientCA_Spec intClientCA)),
        Meta_Namespace := Meta_Namespace (ClientCA_Meta intClientCA)\<rparr>,
      Data = None,
      StringData = [CA_CertName (CA_Spec_Secret (ClientCA_Spec intClientCA)) \<mapsto> cert],
      Type = SecretTypeOpaque\<rparr>"

definition ca_buildSecretFrom :: "internal_client_ca \<Rightarrow> string \<Rightarrow> (go_error + secret) prog" where
  "ca_buildSecretFrom intClientCA cert =
     (let secret = ca_secret_literal intClientCA cert
      in Do (SetControllerReference (ClientCA_Meta intClientCA) secret) (\<lambda>err.
           case err of
             Some e \<Rightarrow> Ret (Inl e)
           | None \<Rightarrow> Ret (Inr (set_owner ''InternalClientCA'' (ClientCA_Meta intClientCA) secret))))"

subsection \<open>Reconcile\<close>

text \<open>The branch of a mount that is not listed: enable it, then create the secret.\<close>

definition reconcile_enable :: "internal_client_ca \<Rightarrow> reconcile_result prog" where
  "reconcile_enable intClientCA =
     bind (enablePKIClientCA intClientCA (strings_TrimSuffix (clientCAPath intClientCA) ''/''))
       (\<lambda>(cert, err).
        case err of Some e \<Rightarrow> Ret (Some e) | None \<Rightarrow>
        bind (ca_buildSecretFrom intClientCA cert) (\<lambda>built.
        case built of Inl e \<Rightarrow> Ret (Some e) | Inr secret \<Rightarrow>
        Do (CreateSecret (Meta_Namespace (ClientCA_Meta intClientCA)) secret) (\<lambda>err.
        case err of
          Some e \<Rightarrow> if \<not> IsAlreadyExists e then Ret (Some e) else Ret (Some e)
        | None \<Rightarrow> Ret None)))"

text \<open>The branch of a listed mount: read its CA certificate, then update or create the secret.\<close>

definition reconcile_enabled :: "internal_client_ca \<Rightarrow> reconcile_result prog" where
  "reconcile_enabled intClientCA =
     (let ns = Meta_Namespace (ClientCA_Meta intClientCA) in
      Ask (PkiReadCertCaChain (strings_TrimSuffix (clientCAPath intClientCA) ''/'')) (\<lambda>caCert.
        case caCert of Inl e \<Rightarrow> Ret (Some e) | Inr certificate \<Rightarrow>
        bind (ca_buildSecretFrom intClientCA certificate) (\<lambda>built.
        case built of Inl e \<Rightarrow> Ret (Some e) | Inr secret \<Rightarrow>
        Do (UpdateSecret ns secret) (\<lambda>err.
        case err of
          None \<Rightarrow> Ret None
        | Some e \<Rightarrow>
            if IsNotFound e then
              Do (CreateSecret ns secret) (\<lambda>err.
                case err of Some e' \<Rightarrow> Ret (Some e') | None \<Rightarrow> Ret None)
            else Ret (Some e)))))"

definition ca_Reconcile :: "namespaced_name \<Rightarrow> reconcile_result prog" where
  "ca_Reconcile req =
     GetIntClientCA req (\<lambda>got.
       case got of
         Inl err \<Rightarrow> if IsNotFound err then Ret None else Ret (Some err)
       | Inr intClientCA \<Rightarrow>
           MountsListSecretsEngines (\<lambda>listResp.
             case listResp of
               Inl err \<Rightarrow> Ret (Some err)
             | Inr mounts \<Rightarrow>
                 if clientCAPath intClientCA \<notin> mounts then reconcile_enable intClientCA
                 else reconcile_enabled intClientCA))"

subsection \<open>The paths of Reconcile\<close>

lemmas enable_defs = enablePKIClientCA_def ca_disableFlag_def Let_def

lemmas ca_reconcile_defs =
  ca_Reconcile_def reconcile_enable_def reconcile_enabled_def ca_buildSecretFrom_def enable_defs

abbreviation clientca_key :: "internal_client_ca \<Rightarrow> namespaced_name" where
  "clientca_key c \<equiv>
     (Meta_Namespace (ClientCA_Meta c), CA_Secret_Name (CA_Spec_Secret (ClientCA_Spec c)))"

text \<open>The mount path, without the final slash Vault lists it with.\<close>

definition ca_mount :: "internal_client_ca \<Rightarrow> string" where
  "ca_mount c = ''sip-client-ca/'' @ CA_CN (CA_Subject (CA_Spec_Certificate (ClientCA_Spec c))) @ ''-ca''"

lemma clientCAPath_mount: "clientCAPath c = ca_mount c @ ''/''"
  by (simp add: clientCAPath_def ca_mount_def)

lemma TrimSuffix_clientCAPath [simp]: "strings_TrimSuffix (clientCAPath c) ''/'' = ca_mount c"
  by (simp add: clientCAPath_mount)

definition wanted_ca_entries :: "internal_client_ca \<Rightarrow> string \<Rightarrow> (string \<rightharpoonup> string)" where
  "wanted_ca_entries c cert = [CA_CertName (CA_Spec_Secret (ClientCA_Spec c)) \<mapsto> cert]"

lemma ca_secret_literal_simps [simp]:
  "secret_name (ca_secret_literal c cert) = CA_Secret_Name (CA_Spec_Secret (ClientCA_Spec c))"
  "Meta_Namespace (Secret_Meta (ca_secret_literal c cert)) = Meta_Namespace (ClientCA_Meta c)"
  "Data (ca_secret_literal c cert) = None"
  "StringData (ca_secret_literal c cert) = wanted_ca_entries c cert"
  "OwnerReferences (Secret_Meta (ca_secret_literal c cert)) = []"
  by (simp_all add: ca_secret_literal_def empty_meta_def wanted_ca_entries_def)

definition root_request :: "internal_client_ca \<Rightarrow> generate_request" where
  "root_request c =
     \<lparr>Gen_CommonName = CA_CN (CA_Subject (CA_Spec_Certificate (ClientCA_Spec c))),
      Gen_KeyType = ''ec'', Gen_KeyBits = 256, Gen_AddBasicConstraints = False,
      Gen_Ttl = clientCATTL\<rparr>"

text \<open>The five calls that set up the mount, all successful, in the order the code makes them.\<close>

definition setup_calls :: "internal_client_ca \<Rightarrow> string \<Rightarrow> string \<Rightarrow> event list" where
  "setup_calls c path root =
     [EvDo (MountsEnableSecretsEngine path (pki_mount_request ''client authn'')) None,
      EvDo (MountsTuneConfigurationParameters path clientCATTL) None,
      EvAsk (PkiGenerateRoot path ''internal'' (root_request c)) (Inr root),
      EvDo (PkiConfigureUrls path
        \<lparr>IssuingCertificates = [v1_url (path @ ''/ca'')],
         CrlDistributionPoints = [v1_url (path @ ''/crl'')]\<rparr>) None,
      EvDo (PkiWriteRole path clientCARole client_ca_role_request) None]"

definition call_failed_with :: "event \<Rightarrow> go_error \<Rightarrow> bool" where
  "call_failed_with e err =
     (case e of EvDo a r \<Rightarrow> r = Some err | EvAsk q r \<Rightarrow> r = Inl err
      | EvGetIntClientCA n r \<Rightarrow> r = Inl err | EvListMounts r \<Rightarrow> r = Inl err
      | EvGetSecret ns n r \<Rightarrow> r = Inl err | _ \<Rightarrow> False)"

lemma enable_success:
  "all_paths (enablePKIClientCA c path) (\<lambda>t out. \<forall>cert. out = Returned (cert, None) \<longrightarrow>
     (\<exists>root u. t = setup_calls c path root @ u \<and>
        (cert = root \<or> cert = [] \<and> (\<exists>ns e. last u = EvGetSecret ns ''vault-root-token'' (Inl e)))))"
  by (auto simp: enable_defs setup_calls_def root_request_def split: sum.splits option.splits)

lemma enable_failure:
  "all_paths (enablePKIClientCA c path) (\<lambda>t out. \<forall>cert e. out = Returned (cert, Some e) \<longrightarrow>
     cert = [] \<and> t \<noteq> [] \<and> call_failed_with (last t) e \<and>
     (\<forall>e' \<in> set (butlast t). \<forall>err. \<not> call_failed_with e' err))"
  by (auto simp: enable_defs call_failed_with_def split: sum.splits option.splits)

lemma ca_Reconcile_contents:
  "all_paths (ca_Reconcile req) (\<lambda>t out. \<forall>c st. EvGetIntClientCA req (Inr c) \<in> set t \<longrightarrow>
     out = Returned None \<longrightarrow>
     (\<exists>cert. replay st t = st(clientca_key c \<mapsto> wanted_ca_entries c cert) \<and>
        (EvAsk (PkiReadCertCaChain (ca_mount c)) (Inr cert) \<in> set t \<or>
         EvAsk (PkiGenerateRoot (ca_mount c) ''internal'' (root_request c)) (Inr cert) \<in> set t \<or>
         cert = [] \<and> (\<exists>ns e. EvGetSecret ns ''vault-root-token'' (Inl e) \<in> set t))))"
  by (auto simp: ca_reconcile_defs root_request_def split: sum.splits option.splits)

lemma ca_Reconcile_enabled:
  "all_paths (ca_Reconcile req) (\<lambda>t out. \<forall>c m. EvGetIntClientCA req (Inr c) \<in> set t \<longrightarrow>
     EvListMounts (Inr m) \<in> set t \<longrightarrow> clientCAPath c \<in> m \<longrightarrow>
     \<not> (\<exists>e \<in> set t. vault_change e) \<and>
     (out = Returned None \<longrightarrow>
        (\<exists>cert. EvAsk (PkiReadCertCaChain (ca_mount c)) (Inr cert) \<in> set t \<and>
           (\<forall>st. replay st t = st(clientca_key c \<mapsto> wanted_ca_entries c cert)))))"
  by (auto simp: ca_reconcile_defs vault_change_def split: sum.splits option.splits)

lemma ca_Reconcile_errors:
  "all_paths (ca_Reconcile req) (\<lambda>t out. \<forall>e \<in> set t. \<forall>err. call_failed_with e err \<longrightarrow>
     out = Returned None \<longrightarrow>
     e = EvGetIntClientCA req (Inl err) \<and> IsNotFound err \<or>
     (\<exists>ns. e = EvGetSecret ns ''vault-root-token'' (Inl err)) \<or>
     e = EvAsk (ReadFile ''/var/run/secrets/kubernetes.io/serviceaccount/namespace'') (Inl err) \<or>
     (\<exists>a. e = EvDo a (Some err) \<and> (a = BodyClose \<or> (\<exists>h. a = HttpDo h) \<or> (\<exists>x y z. a = HttpNewRequest x y z))) \<or>
     (\<exists>ns s. e = EvDo (UpdateSecret ns s) (Some err) \<and> IsNotFound err \<and>
        last t = EvDo (CreateSecret ns s) None))"
  by (auto simp: ca_reconcile_defs call_failed_with_def split: sum.splits option.splits)

lemma ca_Reconcile_token:
  "all_paths (ca_Reconcile req) (\<lambda>t out. \<forall>h r. EvDo (HttpDo h) r \<in> set t \<longrightarrow>
     (\<exists>c ns s. EvGetIntClientCA req (Inr c) \<in> set t \<and>
        EvGetSecret ns ''vault-root-token'' (Inr s) \<in> set t \<and>
        h = \<lparr>Method = ''PATCH'', URL = v1_url (ca_mount c @ ''/roles/client-ca''), Body = patchBody,
             Header = [(''Content-Type'', ''application/merge-patch+json''),
                       (''X-Vault-Token'', data_get s ''token'')],
             InsecureSkipVerify = True\<rparr>))"
  by (auto simp: ca_reconcile_defs clientCARole_def split: sum.splits option.splits)

lemma ca_Reconcile_ends:
  "all_paths (ca_Reconcile req) (\<lambda>t out. (\<forall>n. out \<noteq> Exited n) \<and>
     (out = Panicked \<longrightarrow> (\<exists>e. last t = EvDo NewForConfig (Some e)) \<and> written_keys t = {}))"
  by (auto simp: ca_reconcile_defs split: sum.splits option.splits)


lemma ca_Reconcile_lists:
  "all_paths (ca_Reconcile req) (\<lambda>t out. \<forall>mount x g r. EvAsk (PkiGenerateRoot mount x g) r \<in> set t \<longrightarrow>
     (\<exists>u c m. t = EvGetIntClientCA req (Inr c) # EvListMounts (Inr m) # u \<and>
        (\<forall>n c'. EvGetIntClientCA n (Inr c') \<notin> set u)))"
  by (auto simp: ca_reconcile_defs split: sum.splits option.splits)

subsection \<open>The contract with the controller manager\<close>

definition declared_clientca :: "event list \<Rightarrow> namespaced_name set" where
  "declared_clientca t =
     (\<Union>e \<in> set t. case e of
          EvGetIntClientCA n r \<Rightarrow> (case r of Inl _ \<Rightarrow> {} | Inr c \<Rightarrow> {clientca_key c})
        | _ \<Rightarrow> {})"

lemma declared_clientca_simps [simp]:
  "declared_clientca [] = {}"
  "declared_clientca (t @ u) = declared_clientca t \<union> declared_clientca u"
  "declared_clientca (EvGetIntClientCA n (Inr c) # t) = insert (clientca_key c) (declared_clientca t)"
  "declared_clientca (EvGetIntClientCA n (Inl e) # t) = declared_clientca t"
  "(\<And>n r. e' \<noteq> EvGetIntClientCA n r) \<Longrightarrow> declared_clientca (e' # t) = declared_clientca t"
  by (auto simp: declared_clientca_def split: event.splits)

lemma ca_Reconcile_writes:
  "always (ca_Reconcile req) (\<lambda>t. written_keys t \<subseteq> declared_clientca t)"
  by (auto simp: ca_reconcile_defs split: sum.splits option.splits)

lemma ca_Reconcile_owned:
  "always (ca_Reconcile req) (\<lambda>t. \<forall>e \<in> set t. \<forall>k s. secret_write e = Some (k, s) \<longrightarrow>
     (\<exists>name uid. OwnerReferences (Secret_Meta s) =
       [\<lparr>Owner_Kind = ''InternalClientCA'', Owner_Name = name, Owner_UID = uid\<rparr>]))"
  by (auto simp: ca_reconcile_defs split: sum.splits option.splits)

interpretation clientca: reconciler ca_Reconcile declared_clientca "''InternalClientCA''"
proof unfold_locales
  show "written_keys t \<subseteq> declared_clientca t" if "steps (ca_Reconcile req) t = Some p" for req t p
    using always_steps [OF ca_Reconcile_writes that] .
  show "\<exists>name uid. OwnerReferences (Secret_Meta s) =
      [\<lparr>Owner_Kind = ''InternalClientCA'', Owner_Name = name, Owner_UID = uid\<rparr>]"
    if "steps (ca_Reconcile req) t = Some p" "e \<in> set t" "secret_write e = Some (k, s)" for req t p e k s
    using always_steps [OF ca_Reconcile_owned that(1)] that(2,3) by blast
  show "out \<noteq> Exited n" if "accepts (ca_Reconcile req) t out" for req t out n
    using all_paths_accepts [OF ca_Reconcile_ends that] by simp
qed simp_all

subsection \<open>Sample objects\<close>

definition sample_ca :: internal_client_ca where [record_defs]:
  "sample_ca =
     \<lparr>ClientCA_Meta = \<lparr>Meta_Name = ''ca'', Meta_Namespace = ''sip'', Meta_UID = ''2'',
        OwnerReferences = []\<rparr>,
      ClientCA_Spec =
        \<lparr>CA_Spec_Certificate = \<lparr>CA_Subject = \<lparr>CA_CN = ''sp''\<rparr>\<rparr>,
         CA_Spec_Secret = \<lparr>CA_Secret_Name = ''casec'', CA_CertName = ''ca.pem''\<rparr>\<rparr>\<rparr>"

definition token_path :: string where [record_defs]:
  "token_path = ''/var/run/secrets/kubernetes.io/serviceaccount/namespace''"

text \<open>A run that sets up the mount but cannot read the root token, for any resource and error.\<close>

definition tokenless_enable :: "internal_client_ca \<Rightarrow> string \<Rightarrow> go_error \<Rightarrow> event list" where
  "tokenless_enable c root err =
     setup_calls c (ca_mount c) root @
     [EvDo InClusterConfig None, EvDo NewForConfig None, EvAsk (ReadFile token_path) (Inr ''sip''),
      EvGetSecret ''sip'' ''vault-root-token'' (Inl err)]"

definition tokenless_run ::
    "namespaced_name \<Rightarrow> internal_client_ca \<Rightarrow> string \<Rightarrow> go_error \<Rightarrow> event list" where
  "tokenless_run req c root err =
     [EvGetIntClientCA req (Inr c), EvListMounts (Inr {})] @ tokenless_enable c root err @
     [EvDo (SetControllerReference (ClientCA_Meta c) (ca_secret_literal c [])) None,
      EvDo (CreateSecret (Meta_Namespace (ClientCA_Meta c))
        (set_owner ''InternalClientCA'' (ClientCA_Meta c) (ca_secret_literal c []))) None]"

lemma accepts_tokenless_run:
  "accepts (ca_Reconcile req) (tokenless_run req c root err) (Returned None)"
  by (simp add: tokenless_run_def tokenless_enable_def setup_calls_def root_request_def
      ca_reconcile_defs token_path_def)

text \<open>A later run on the same resource.\<close>

definition enabled_run :: "internal_client_ca \<Rightarrow> string set \<Rightarrow> string \<Rightarrow> event list" where
  "enabled_run c m cert =
     [EvGetIntClientCA (''sip'', ''ca'') (Inr c), EvListMounts (Inr m),
      EvAsk (PkiReadCertCaChain (ca_mount c)) (Inr cert),
      EvDo (SetControllerReference (ClientCA_Meta c) (ca_secret_literal c cert)) None,
      EvDo (UpdateSecret (Meta_Namespace (ClientCA_Meta c))
        (set_owner ''InternalClientCA'' (ClientCA_Meta c) (ca_secret_literal c cert))) None]"

lemma accepts_enabled_run:
  "clientCAPath c \<in> m \<Longrightarrow> accepts (ca_Reconcile (''sip'', ''ca'')) (enabled_run c m cert) (Returned None)"
  by (simp add: enabled_run_def ca_reconcile_defs)

text \<open>A run whose mount is enabled but whose CA is not generated.\<close>

definition half_run :: "internal_client_ca \<Rightarrow> go_error \<Rightarrow> event list" where
  "half_run c err =
     [EvGetIntClientCA (''sip'', ''ca'') (Inr c), EvListMounts (Inr {}),
      EvDo (MountsEnableSecretsEngine (ca_mount c) (pki_mount_request ''client authn'')) None,
      EvDo (MountsTuneConfigurationParameters (ca_mount c) clientCATTL) None,
      EvAsk (PkiGenerateRoot (ca_mount c) ''internal'' (root_request c)) (Inl err)]"

lemma accepts_half_run:
  "accepts (ca_Reconcile (''sip'', ''ca'')) (half_run c err) (Returned (Some err))"
  by (simp add: half_run_def ca_reconcile_defs root_request_def clientCAPath_mount)

subsection \<open>Correctness of Reconcile\<close>

text \<open>C5: A reconciliation of an InternalClientCA that reports success has stored exactly one
  entry, under the certificate name, in exactly the secret the resource names: the CA
  certificate Vault returned for the resource's own mount, read from it or generated just now,
  or an empty certificate when Vault's root token could not be read.\<close>

theorem clientca_secret_contents:
  assumes "accepts (ca_Reconcile req) t (Returned None)"
    and "EvGetIntClientCA req (Inr c) \<in> set t"
  shows "\<exists>cert. replay st t = st(clientca_key c \<mapsto> wanted_ca_entries c cert) \<and>
     (EvAsk (PkiReadCertCaChain (ca_mount c)) (Inr cert) \<in> set t \<or>
      EvAsk (PkiGenerateRoot (ca_mount c) ''internal'' (root_request c)) (Inr cert) \<in> set t \<or>
      cert = [] \<and> (\<exists>ns e. EvGetSecret ns ''vault-root-token'' (Inl e) \<in> set t))"
  using all_paths_accepts [OF ca_Reconcile_contents assms(1)] assms(2) by blast

theorem clientca_secret_contents_witness:
  "\<exists>cert. replay Map.empty (enabled_run sample_ca {''sip-client-ca/sp-ca/''} ''PEM'') =
     [(''sip'', ''casec'') \<mapsto> [''ca.pem'' \<mapsto> cert]]"
proof -
  have "clientCAPath sample_ca \<in> {''sip-client-ca/sp-ca/''}"
    by (simp add: clientCAPath_def record_defs)
  from clientca_secret_contents [OF accepts_enabled_run [OF this, of "''PEM''"], of sample_ca Map.empty]
  obtain cert where "replay Map.empty (enabled_run sample_ca {''sip-client-ca/sp-ca/''} ''PEM'') =
      [clientca_key sample_ca \<mapsto> wanted_ca_entries sample_ca cert]"
    by (auto simp: enabled_run_def)
  then show ?thesis by (auto simp: record_defs wanted_ca_entries_def)
qed

text \<open>When Vault's root token cannot be read the CA is set up but an empty certificate is
  stored and success is reported: there is such a run for every resource, CA and error.\<close>

theorem clientca_token_error_empties_secret:
  "\<exists>t. accepts (ca_Reconcile req) t (Returned None) \<and>
     EvAsk (PkiGenerateRoot (ca_mount c) ''internal'' (root_request c)) (Inr root) \<in> set t \<and>
     EvGetSecret ''sip'' ''vault-root-token'' (Inl err) \<in> set t \<and>
     replay st t = st(clientca_key c \<mapsto> wanted_ca_entries c [])"
  by (rule exI [of _ "tokenless_run req c root err"])
    (simp add: accepts_tokenless_run, simp add: tokenless_run_def tokenless_enable_def setup_calls_def)

text \<open>A PKI mount that is set up without error has been enabled, tuned, given a root CA, URLs
  and the issuing role, in this order and each exactly as the code asks for it.\<close>

theorem clientca_mount_set_up_in_order:
  assumes "accepts (enablePKIClientCA c path) t (Returned (cert, None))"
  shows "\<exists>root u. t = setup_calls c path root @ u \<and>
     (cert = root \<or> cert = [] \<and> (\<exists>ns e. last u = EvGetSecret ns ''vault-root-token'' (Inl e)))"
  using all_paths_accepts [OF enable_success assms] by blast

theorem clientca_mount_set_up_in_order_witness:
  "\<exists>root u. tokenless_enable sample_ca ''PEM'' (VaultError []) =
     setup_calls sample_ca (ca_mount sample_ca) root @ u"
proof -
  have "accepts (enablePKIClientCA sample_ca (ca_mount sample_ca))
      (tokenless_enable sample_ca ''PEM'' (VaultError [])) (Returned ([], None))"
    by (simp add: tokenless_enable_def setup_calls_def root_request_def enable_defs token_path_def)
  from clientca_mount_set_up_in_order [OF this] show ?thesis by blast
qed

text \<open>Setting up a mount stops at the first call that fails, returns its error and no
  certificate.\<close>

theorem clientca_mount_stops_at_error:
  assumes "accepts (enablePKIClientCA c path) t (Returned (cert, Some e))"
  shows "cert = [] \<and> t \<noteq> [] \<and> call_failed_with (last t) e \<and>
     (\<forall>e' \<in> set (butlast t). \<forall>err. \<not> call_failed_with e' err)"
  using all_paths_accepts [OF enable_failure assms] by blast

theorem clientca_mount_stops_at_error_witness:
  "call_failed_with (EvDo (MountsEnableSecretsEngine ''p'' (pki_mount_request ''client authn''))
     (Some (VaultError ''in use''))) (VaultError ''in use'')"
  using clientca_mount_stops_at_error [of sample_ca "''p''"
      "[EvDo (MountsEnableSecretsEngine ''p'' (pki_mount_request ''client authn'')) (Some (VaultError ''in use''))]"
      "[]" "VaultError ''in use''"]
  by (simp add: enable_defs)

text \<open>For a mount that Vault already lists, a reconciliation never changes Vault: it only
  reads the CA certificate, and stores that very certificate when it succeeds.\<close>

theorem clientca_enabled_mount_untouched:
  assumes "accepts (ca_Reconcile req) t out"
    and "EvGetIntClientCA req (Inr c) \<in> set t"
    and "EvListMounts (Inr m) \<in> set t" and "clientCAPath c \<in> m"
  shows "\<not> (\<exists>e \<in> set t. vault_change e) \<and>
     (out = Returned None \<longrightarrow>
        (\<exists>cert. EvAsk (PkiReadCertCaChain (ca_mount c)) (Inr cert) \<in> set t \<and>
           (\<forall>st. replay st t = st(clientca_key c \<mapsto> wanted_ca_entries c cert))))"
  using all_paths_accepts [OF ca_Reconcile_enabled assms(1)] assms(2-4) by blast

theorem clientca_enabled_mount_untouched_witness:
  "\<not> (\<exists>e \<in> set (enabled_run sample_ca {clientCAPath sample_ca} ''PEM''). vault_change e)"
  using clientca_enabled_mount_untouched
    [OF accepts_enabled_run [of sample_ca "{clientCAPath sample_ca}" "''PEM''"],
      of sample_ca "{clientCAPath sample_ca}"]
  by (simp add: enabled_run_def)

text \<open>A mount that was enabled without its CA being generated is never completed: with a
  conforming Vault every later reconciliation of the resource finds the mount listed and does
  not generate a CA, so a failure between the two calls is permanent.\<close>

theorem clientca_half_set_up_mount_stays:
  assumes "accepts (ca_Reconcile req) t out"
    and "EvDo (MountsEnableSecretsEngine (ca_mount c) mr) None \<in> set t"
    and "accepts (ca_Reconcile req') t' out'"
    and "EvGetIntClientCA req' (Inr c) \<in> set t'"
    and "mounts_conform m (t @ t')"
  shows "EvAsk (PkiGenerateRoot mount x g) r \<notin> set t'"
proof
  assume gen: "EvAsk (PkiGenerateRoot mount x g) r \<in> set t'"
  then have change: "\<exists>e \<in> set t'. vault_change e"
    by (intro bexI [of _ "EvAsk (PkiGenerateRoot mount x g) r"]) (simp_all add: vault_change_def)
  from gen all_paths_accepts [OF ca_Reconcile_lists assms(3)]
  obtain u c' m' where t': "t' = EvGetIntClientCA req' (Inr c') # EvListMounts (Inr m') # u"
    and u: "\<And>n c''. EvGetIntClientCA n (Inr c'') \<notin> set u" by blast
  with assms(4) have c': "c' = c" by auto
  have "mounts_conform m ((t @ [EvGetIntClientCA req' (Inr c)]) @ EvListMounts (Inr m') # u)"
    using assms(5) by (simp add: t' c')
  then have "m' = replay_mounts m (t @ [EvGetIntClientCA req' (Inr c)])" by (rule conform_listed)
  then have "clientCAPath c \<in> m'"
    using enabled_is_mounted [of "ca_mount c" mr "t @ [EvGetIntClientCA req' (Inr c)]" m] assms(2)
    by (simp add: clientCAPath_mount)
  with all_paths_accepts [OF ca_Reconcile_enabled assms(3)] assms(4) change show False
    by (auto simp: t')
qed

theorem clientca_half_set_up_mount_stays_witness:
  "EvAsk (PkiGenerateRoot (ca_mount sample_ca) ''internal'' (root_request sample_ca)) (Inr ''PEM'') \<notin>
     set (enabled_run sample_ca {clientCAPath sample_ca} ''PEM'')"
proof -
  have "mounts_conform {} (half_run sample_ca (VaultError []) @
      enabled_run sample_ca {clientCAPath sample_ca} ''PEM'')"
    by (simp add: half_run_def enabled_run_def mount_reply_ok_def apply_mount_def
        enabled_path_def clientCAPath_mount)
  then show ?thesis
    using clientca_half_set_up_mount_stays [OF accepts_half_run [of sample_ca "VaultError []"] _
        accepts_enabled_run [of sample_ca "{clientCAPath sample_ca}" "''PEM''"],
        of sample_ca "pki_mount_request ''client authn''" "{}"]
    by (simp add: half_run_def enabled_run_def)
qed

text \<open>C37: A reconciliation that reports success has met no failed call but a missing resource,
  an unreadable root token or namespace file, a failed PATCH of the role's flags, or an update
  that found the secret missing and was followed by a create.\<close>

theorem clientca_errors_reported:
  assumes "accepts (ca_Reconcile req) t (Returned None)"
    and "e \<in> set t" and "call_failed_with e err"
  shows "e = EvGetIntClientCA req (Inl err) \<and> IsNotFound err \<or>
     (\<exists>ns. e = EvGetSecret ns ''vault-root-token'' (Inl err)) \<or>
     e = EvAsk (ReadFile ''/var/run/secrets/kubernetes.io/serviceaccount/namespace'') (Inl err) \<or>
     (\<exists>a. e = EvDo a (Some err) \<and>
        (a = BodyClose \<or> (\<exists>h. a = HttpDo h) \<or> (\<exists>x y z. a = HttpNewRequest x y z))) \<or>
     (\<exists>ns s. e = EvDo (UpdateSecret ns s) (Some err) \<and> IsNotFound err \<and>
        last t = EvDo (CreateSecret ns s) None)"
  using all_paths_accepts [OF ca_Reconcile_errors assms(1)] assms(2,3) by blast

theorem clientca_errors_reported_witness:
  "\<exists>ns. EvGetSecret ''sip'' ''vault-root-token'' (Inl (VaultError [])) =
     EvGetSecret ns ''vault-root-token'' (Inl (VaultError []))"
proof -
  have "EvGetSecret ''sip'' ''vault-root-token'' (Inl (VaultError []))
      \<in> set (tokenless_run (''sip'', ''ca'') sample_ca ''PEM'' (VaultError []))"
    by (simp add: tokenless_run_def tokenless_enable_def)
  from clientca_errors_reported [OF accepts_tokenless_run this]
  show ?thesis by (simp add: call_failed_with_def)
qed

text \<open>The root token leaves the process in one place only: the header of a PATCH to the URL of
  the resource's own role on the internal Vault service, sent without verifying the server's
  certificate.\<close>

theorem clientca_root_token_use:
  assumes "accepts (ca_Reconcile req) t out" and "EvDo (HttpDo h) r \<in> set t"
  shows "\<exists>c ns s. EvGetIntClientCA req (Inr c) \<in> set t \<and>
     EvGetSecret ns ''vault-root-token'' (Inr s) \<in> set t \<and>
     h = \<lparr>Method = ''PATCH'', URL = v1_url (ca_mount c @ ''/roles/client-ca''), Body = patchBody,
          Header = [(''Content-Type'', ''application/merge-patch+json''),
                    (''X-Vault-Token'', data_get s ''token'')],
          InsecureSkipVerify = True\<rparr>"
  using all_paths_accepts [OF ca_Reconcile_token assms(1)] assms(2) by blast

text \<open>A run that sets up the mount with the token and then cannot write the secret.\<close>

definition patch_of :: "internal_client_ca \<Rightarrow> http_request" where
  "patch_of c =
     \<lparr>Method = ''PATCH'', URL = v1_url (ca_mount c @ ''/roles/'' @ clientCARole), Body = patchBody,
      Header = [(''Content-Type'', ''application/merge-patch+json''), (''X-Vault-Token'', ''s.tok'')],
      InsecureSkipVerify = True\<rparr>"

definition token_secret :: secret where [record_defs]:
  "token_secret = empty_secret\<lparr>Data := Some [''token'' \<mapsto> ''s.tok'']\<rparr>"

definition patched_run :: "internal_client_ca \<Rightarrow> go_error \<Rightarrow> event list" where
  "patched_run c err =
     [EvGetIntClientCA (''sip'', ''ca'') (Inr c), EvListMounts (Inr {})] @
     setup_calls c (ca_mount c) ''PEM'' @
     [EvDo InClusterConfig None, EvDo NewForConfig None, EvAsk (ReadFile token_path) (Inr ''sip''),
      EvGetSecret ''sip'' ''vault-root-token'' (Inr token_secret),
      EvDo (HttpNewRequest ''PATCH'' (v1_url (ca_mount c @ ''/roles/'' @ clientCARole)) patchBody) None,
      EvDo (HttpDo (patch_of c)) None, EvDo BodyClose None,
      EvDo (SetControllerReference (ClientCA_Meta c) (ca_secret_literal c ''PEM'')) (Some err)]"

lemma accepts_patched_run:
  "accepts (ca_Reconcile (''sip'', ''ca'')) (patched_run c err) (Returned (Some err))"
  by (simp add: patched_run_def setup_calls_def root_request_def ca_reconcile_defs token_path_def
      patch_of_def data_get_def token_secret_def)

theorem clientca_root_token_use_witness:
  "\<exists>c ns s. EvGetIntClientCA (''sip'', ''ca'') (Inr c) \<in> set (patched_run sample_ca (PlainError [])) \<and>
     EvGetSecret ns ''vault-root-token'' (Inr s) \<in> set (patched_run sample_ca (PlainError [])) \<and>
     Header (patch_of sample_ca) =
       [(''Content-Type'', ''application/merge-patch+json''), (''X-Vault-Token'', data_get s ''token'')]"
proof -
  have "EvDo (HttpDo (patch_of sample_ca)) None \<in> set (patched_run sample_ca (PlainError []))"
    by (simp add: patched_run_def)
  from clientca_root_token_use [OF accepts_patched_run this]
  obtain c ns s where "EvGetIntClientCA (''sip'', ''ca'') (Inr c) \<in> set (patched_run sample_ca (PlainError []))"
    and "EvGetSecret ns ''vault-root-token'' (Inr s) \<in> set (patched_run sample_ca (PlainError []))"
    and "Header (patch_of sample_ca) =
       [(''Content-Type'', ''application/merge-patch+json''), (''X-Vault-Token'', data_get s ''token'')]"
    by auto
  then show ?thesis by blast
qed

text \<open>Any series of reconciliations, each of which may be cut short anywhere, leaves every
  secret that no InternalClientCA it read names as it was, and gives every secret it writes
  the resource's kind as its controlling owner.\<close>

theorem clientca_frame:
  assumes "worked ca_Reconcile reqs t"
  shows "(\<forall>k. k \<notin> declared_clientca t \<longrightarrow> replay st t k = st k) \<and>
     (\<forall>e \<in> set t. \<forall>k s. secret_write e = Some (k, s) \<longrightarrow>
        (\<exists>name uid. OwnerReferences (Secret_Meta s) =
          [\<lparr>Owner_Kind = ''InternalClientCA'', Owner_Name = name, Owner_UID = uid\<rparr>]))"
  using clientca.worked_frame [OF assms] clientca.worked_writes_owned [OF assms] by blast

theorem clientca_frame_witness:
  "replay [(''sip'', ''other'') \<mapsto> [''a'' \<mapsto> ''b'']]
     (tokenless_run (''sip'', ''ca'') sample_ca ''PEM'' (VaultError [])) (''sip'', ''other'') =
   Some [''a'' \<mapsto> ''b'']"
proof -
  let ?t = "tokenless_run (''sip'', ''ca'') sample_ca ''PEM'' (VaultError [])"
  obtain p where "steps (ca_Reconcile (''sip'', ''ca'')) ?t = Some p"
    using accepts_tokenless_run [of "(''sip'', ''ca'')" sample_ca "''PEM''" "VaultError []"]
    by (auto simp: accepts_iff_steps)
  then have "worked ca_Reconcile [(''sip'', ''ca'')] (?t @ [])"
    by (intro worked.intros)
  moreover have "(''sip'', ''other'') \<notin> declared_clientca ?t"
    by (simp add: tokenless_run_def tokenless_enable_def setup_calls_def record_defs)
  ultimately show ?thesis
    using clientca_frame [of "[(''sip'', ''ca'')]" ?t] by simp
qed

end
