(* ===== verification/Vault_Ca.thy ===== *)
theory Vault_Ca
  imports Vault_Mounts
begin

text \<open>
  The abstract specification of the CAs of Vault's PKI mounts: the CA certificate of every mount.
  Who signed what is crypto/x509 and Vault; it enters as a relation \<open>signs ca cert\<close> that is a
  parameter.

  \<^item> \<open>replay_cas v t\<close>: the CA certificates after the calls of \<open>t\<close>: generating a root makes its
    certificate the CA of the mount, and so does installing a signed intermediate.
  \<^item> \<open>ca_conform signs v t\<close>: the replies in \<open>t\<close> are those of a Vault whose CAs are \<open>v\<close>: a mount issues and signs
    with its CA certificate, puts it first in the chain of what it issued, and returns it when it
    is read.
\<close>

type_synonym ca_table = "string \<rightharpoonup> string"

text \<open>The mount whose CA a call replaces, and the new certificate.\<close>

definition new_ca :: "event \<Rightarrow> (string \<times> string) option" where
  "new_ca e =
     (case e of
        EvAsk q r \<Rightarrow>
          (case q of PkiGenerateRoot m x g \<Rightarrow> (case r of Inl err \<Rightarrow> None | Inr cert \<Rightarrow> Some (m, cert)) | _ \<Rightarrow> None)
      | EvDo a r \<Rightarrow>
          (case a of PkiSetSignedIntermediate m cert \<Rightarrow> if r = None then Some (m, cert) else None | _ \<Rightarrow> None)
      | _ \<Rightarrow> None)"

definition apply_ca :: "ca_table \<Rightarrow> event \<Rightarrow> ca_table" where
  "apply_ca v e = (case new_ca e of None \<Rightarrow> v | Some (m, cert) \<Rightarrow> v(m \<mapsto> cert))"

fun replay_cas :: "ca_table \<Rightarrow> event list \<Rightarrow> ca_table" where
  "replay_cas v [] = v"
| "replay_cas v (e # t) = replay_cas (apply_ca v e) t"

definition ca_reply_ok :: "(string \<Rightarrow> string \<Rightarrow> bool) \<Rightarrow> ca_table \<Rightarrow> event \<Rightarrow> bool" where
  "ca_reply_ok signs v e =
     (case e of
        EvAsk q r \<Rightarrow>
          (case r of Inl err \<Rightarrow> True | Inr cert \<Rightarrow>
            (case q of
               PkiReadCertCaChain m \<Rightarrow> v m = Some cert
             | PkiRootSignIntermediate m s \<Rightarrow> (case v m of None \<Rightarrow> False | Some ca \<Rightarrow> signs ca cert)
             | _ \<Rightarrow> True))
      | EvIssue m ro q r \<Rightarrow>
          (case r of Inl err \<Rightarrow> True | Inr resp \<Rightarrow>
            (case v m of None \<Rightarrow> False | Some ca \<Rightarrow>
               signs ca (Resp_Certificate resp) \<and> (Resp_CaChain resp = [] \<or> hd (Resp_CaChain resp) = ca)))
      | _ \<Rightarrow> True)"

fun ca_conform :: "(string \<Rightarrow> string \<Rightarrow> bool) \<Rightarrow> ca_table \<Rightarrow> event list \<Rightarrow> bool" where
  "ca_conform signs v [] = True"
| "ca_conform signs v (e # t) \<longleftrightarrow> ca_reply_ok signs v e \<and> ca_conform signs (apply_ca v e) t"

lemma replay_cas_append [simp]: "replay_cas v (s @ t) = replay_cas (replay_cas v s) t"
  by (induction s arbitrary: v) auto

lemma ca_conform_append [simp]:
  "ca_conform signs v (s @ t) \<longleftrightarrow> ca_conform signs v s \<and> ca_conform signs (replay_cas v s) t"
  by (induction s arbitrary: v) auto

subsection \<open>Calls that concern the CAs\<close>

definition on_cas :: "event \<Rightarrow> bool" where
  "on_cas e =
     (case e of
        EvAsk q r \<Rightarrow>
          (case q of PkiGenerateRoot _ _ _ \<Rightarrow> True | PkiReadCertCaChain _ \<Rightarrow> True | PkiRootSignIntermediate _ _ \<Rightarrow> True
           | _ \<Rightarrow> False)
      | EvDo a r \<Rightarrow> (case a of PkiSetSignedIntermediate _ _ \<Rightarrow> True | _ \<Rightarrow> False)
      | EvIssue _ _ _ _ \<Rightarrow> True
      | _ \<Rightarrow> False)"

lemma off_cas: "\<not> on_cas e \<Longrightarrow> apply_ca v e = v \<and> ca_reply_ok signs v e \<and> new_ca e = None"
  by (auto simp: on_cas_def apply_ca_def new_ca_def ca_reply_ok_def split: event.splits query.splits act.splits sum.splits)

lemma replay_cas_filter: "replay_cas v (filter on_cas t) = replay_cas v t"
  by (induction t arbitrary: v) (auto simp: off_cas)

lemma ca_conform_filter: "ca_conform signs v (filter on_cas t) \<longleftrightarrow> ca_conform signs v t"
  by (induction t arbitrary: v) (auto simp: off_cas)

lemma ca_calls [simp]:
  "apply_ca v (EvAsk (PkiGenerateRoot m x g) (Inr cert)) = v(m \<mapsto> cert)"
  "apply_ca v (EvDo (PkiSetSignedIntermediate m cert) None) = v(m \<mapsto> cert)"
  "apply_ca v (EvIssue m ro q ir) = v"
  "apply_ca v (EvAsk (PkiReadCertCaChain m) qr) = v"
  "apply_ca v (EvAsk (PkiRootSignIntermediate m s) qr) = v"
  "ca_reply_ok signs v (EvAsk (PkiGenerateRoot m x g) (Inr cert))"
  "ca_reply_ok signs v (EvDo (PkiSetSignedIntermediate m cert) None)"
  "ca_reply_ok signs v (EvAsk (PkiReadCertCaChain m) (Inr cert)) \<longleftrightarrow> v m = Some cert"
  "ca_reply_ok signs v (EvAsk (PkiRootSignIntermediate m s) (Inr cert)) \<longleftrightarrow> (\<exists>ca. v m = Some ca \<and> signs ca cert)"
  "ca_reply_ok signs v (EvIssue m ro q (Inr resp)) \<longleftrightarrow> (\<exists>ca. v m = Some ca \<and> signs ca (Resp_Certificate resp) \<and>
     (Resp_CaChain resp = [] \<or> hd (Resp_CaChain resp) = ca))"
  by (auto simp: apply_ca_def new_ca_def ca_reply_ok_def split: option.split)

text \<open>A mount keeps its CA over calls that do not replace it.\<close>

lemma ca_kept: "list_all (\<lambda>e. \<forall>cert. new_ca e \<noteq> Some (m, cert)) t \<Longrightarrow> replay_cas v t m = v m"
  by (induction t arbitrary: v) (auto simp: apply_ca_def split: option.split)

end
