(* ===== verification/ClientCA_Refinement.thy ===== *)
theory ClientCA_Refinement
  imports ClientCA_Controller Vault_Ca
begin

text \<open>
  The abstract machine the internal-client-ca controller implements.  Its state is the table of
  Vault's secrets engines, the CA certificate of every mount, and the store of Secrets.  Its steps
  enable the mount of a resource, give a mount without a CA its root certificate, and publish the CA
  certificate of the mount in the Secret the resource names; what goes wrong when the root token
  cannot be read is a step of its own.  Every series of reconciliations, each possibly cut short,
  is a series of such steps.
\<close>

type_synonym ca_state = "string set \<times> ca_table \<times> secret_store"

inductive ca_step :: "internal_client_ca set \<Rightarrow> ca_state \<Rightarrow> ca_state \<Rightarrow> bool" for R where
  enable: "c \<in> R \<Longrightarrow> clientCAPath c \<notin> m \<Longrightarrow> ca_step R (m, v, st) (insert (clientCAPath c) m, v, st)"
| root: "c \<in> R \<Longrightarrow> clientCAPath c \<in> m \<Longrightarrow> v (ca_mount c) = None \<Longrightarrow>
    ca_step R (m, v, st) (m, v(ca_mount c \<mapsto> cert), st)"
| publish: "c \<in> R \<Longrightarrow> v (ca_mount c) = Some cert \<Longrightarrow>
    ca_step R (m, v, st) (m, v, st(clientca_key c \<mapsto> wanted_ca_entries c cert))"
| publish_empty: "c \<in> R \<Longrightarrow> v (ca_mount c) \<noteq> None \<Longrightarrow> st (clientca_key c) = None \<Longrightarrow>
    ca_step R (m, v, st) (m, v, st(clientca_key c \<mapsto> wanted_ca_entries c []))"

inductive ca_reach :: "internal_client_ca set \<Rightarrow> ca_state \<Rightarrow> ca_state \<Rightarrow> bool" for R where
  same: "ca_reach R s s"
| step: "ca_step R s s' \<Longrightarrow> ca_reach R s' s'' \<Longrightarrow> ca_reach R s s''"

inductive_cases ca_stepE: "ca_step R s s'"

lemma ca_step_mono: "ca_step R s s' \<Longrightarrow> R \<subseteq> Q \<Longrightarrow> ca_step Q s s'"
  by (auto elim!: ca_stepE intro: ca_step.intros)

lemma ca_reach_mono: "ca_reach R s s' \<Longrightarrow> R \<subseteq> Q \<Longrightarrow> ca_reach Q s s'"
  by (induction rule: ca_reach.induct) (auto intro: ca_reach.intros ca_step_mono)

lemma ca_reach_trans: "ca_reach R s s' \<Longrightarrow> ca_reach R s' s'' \<Longrightarrow> ca_reach R s s''"
  by (induction rule: ca_reach.induct) (auto intro: ca_reach.intros)

lemma ca_reach_one: "ca_step R s s' \<Longrightarrow> ca_reach R s s'"
  by (auto intro: ca_reach.intros)

text \<open>A CA, once there, is never replaced, and a mount that has one is listed.\<close>

definition cas_mounted :: "ca_state \<Rightarrow> bool" where
  "cas_mounted s = (case s of (m, v, st) \<Rightarrow> \<forall>x. v x \<noteq> None \<longrightarrow> x @ ''/'' \<in> m)"

lemma ca_step_keeps: "ca_step R (m, v, st) (m', v', st') \<Longrightarrow> v \<subseteq>\<^sub>m v' \<and> m \<subseteq> m'"
  by (auto elim!: ca_stepE simp: map_le_def)

lemma ca_reach_keeps: "ca_reach R s s' \<Longrightarrow> fst (snd s) \<subseteq>\<^sub>m fst (snd s') \<and> fst s \<subseteq> fst s'"
proof (induction rule: ca_reach.induct)
  case (step s s' s'')
  then show ?case using ca_step_keeps [of R "fst s" "fst (snd s)" "snd (snd s)" "fst s'" "fst (snd s')" "snd (snd s')"]
    by (auto intro: map_le_trans)
qed simp

lemma ca_step_mounted: "ca_step R s s' \<Longrightarrow> cas_mounted s \<Longrightarrow> cas_mounted s'"
  by (auto elim!: ca_stepE simp: cas_mounted_def clientCAPath_mount split: if_splits)

lemma ca_reach_mounted: "ca_reach R s s' \<Longrightarrow> cas_mounted s \<Longrightarrow> cas_mounted s'"
  by (induction rule: ca_reach.induct) (auto dest: ca_step_mounted)

subsection \<open>One reconciliation\<close>

definition read_cas :: "event list \<Rightarrow> internal_client_ca list" where
  "read_cas = List.map_filter (\<lambda>e. case e of EvGetIntClientCA n r \<Rightarrow>
     (case r of Inl err \<Rightarrow> None | Inr c \<Rightarrow> Some c) | _ \<Rightarrow> None)"

abbreviation "replay_all s t \<equiv>
  (case s of (m, v, st) \<Rightarrow> (replay_mounts m t, replay_cas v t, replay st t))"

definition vault_conforms :: "(string \<Rightarrow> string \<Rightarrow> bool) \<Rightarrow> ca_state \<Rightarrow> event list \<Rightarrow> bool" where
  "vault_conforms signs s t =
     (case s of (m, v, st) \<Rightarrow> conforms st t \<and> mounts_conform m t \<and> ca_conform signs v t)"

lemma vault_conforms_append:
  "vault_conforms signs s (t @ u) \<longleftrightarrow> vault_conforms signs s t \<and> vault_conforms signs (replay_all s t) u"
  by (auto simp: vault_conforms_def split: prod.split)

text \<open>What the reconciliation of a resource whose mount is not listed may do, given the CAs made.\<close>

definition may_enable :: "internal_client_ca \<Rightarrow> (string \<times> string) list \<Rightarrow> ca_state \<Rightarrow> ca_state \<Rightarrow> bool" where
  "may_enable c made s s' =
     (case s of (m, v, st) \<Rightarrow> case made of
        [] \<Rightarrow> s' = s \<or> s' = (insert (clientCAPath c) m, v, st)
      | (x, cert) # _ \<Rightarrow> x = ca_mount c \<and>
          (s' = (insert (clientCAPath c) m, v(ca_mount c \<mapsto> cert), st) \<or>
           st (clientca_key c) = None \<and>
             (s' = (insert (clientCAPath c) m, v(ca_mount c \<mapsto> cert), st(clientca_key c \<mapsto> wanted_ca_entries c cert)) \<or>
              s' = (insert (clientCAPath c) m, v(ca_mount c \<mapsto> cert), st(clientca_key c \<mapsto> wanted_ca_entries c [])))))"

definition may_publish :: "internal_client_ca \<Rightarrow> ca_state \<Rightarrow> ca_state \<Rightarrow> bool" where
  "may_publish c s s' =
     (case s of (m, v, st) \<Rightarrow> s' = s \<or>
        (case v (ca_mount c) of None \<Rightarrow> False | Some cert \<Rightarrow>
           s' = (m, v, st(clientca_key c \<mapsto> wanted_ca_entries c cert))))"

lemmas vault_replay_defs = apply_mount_def enabled_path_def mount_reply_ok_def apply_ca_def new_ca_def ca_reply_ok_def

lemma enable_may:
  "always (reconcile_enable c) (\<lambda>t. vault_conforms signs (m, v, st) t \<longrightarrow>
     may_enable c (List.map_filter new_ca t) (m, v, st) (replay_all (m, v, st) t))"
  by (auto simp: reconcile_enable_def ca_buildSecretFrom_def enable_defs vault_conforms_def may_enable_def
      vault_replay_defs clientCAPath_mount List.map_filter_simps reply_ok_other
      split: sum.splits option.splits)

lemma enabled_may:
  "always (reconcile_enabled c) (\<lambda>t. vault_conforms signs (m, v, st) t \<longrightarrow>
     may_publish c (m, v, st) (replay_all (m, v, st) t))"
  by (auto simp: reconcile_enabled_def ca_buildSecretFrom_def Let_def vault_conforms_def may_publish_def
      vault_replay_defs reply_ok_other split: sum.splits option.splits)

definition ca_one_step :: "ca_state \<Rightarrow> event list \<Rightarrow> bool" where
  "ca_one_step s t =
     (case read_cas t of
        [] \<Rightarrow> replay_all s t = s
      | c # _ \<Rightarrow> if clientCAPath c \<in> fst s then may_publish c s (replay_all s t)
          else may_enable c (List.map_filter new_ca t) s (replay_all s t))"

text \<open>Reading the resource and listing the mounts changes nothing.\<close>

lemma prefix_quiet:
  "vault_conforms signs (m, v, st) (EvGetIntClientCA n r # t) \<longleftrightarrow> vault_conforms signs (m, v, st) t"
  "vault_conforms signs (m, v, st) (EvListMounts (Inr mounts) # t) \<longleftrightarrow> mounts = m \<and> vault_conforms signs (m, v, st) t"
  "apply_mount m (EvGetIntClientCA n r) = m" "apply_mount m (EvListMounts lr) = m"
  "apply_ca v (EvGetIntClientCA n r) = v" "apply_ca v (EvListMounts lr) = v"
  "new_ca (EvGetIntClientCA n r) = None" "new_ca (EvListMounts lr) = None"
  "read_cas (EvGetIntClientCA n (Inr c) # t) = c # read_cas t"
  "read_cas [] = []" "read_cas [EvGetIntClientCA n (Inl err)] = []"
  by (auto simp: vault_conforms_def vault_replay_defs reply_ok_other List.map_filter_simps read_cas_def)

lemma ca_Reconcile_always:
  assumes "I []" and "\<And>r. I [EvGetIntClientCA req r]" and "\<And>c r. I [EvGetIntClientCA req (Inr c), EvListMounts r]"
    and "\<And>c mounts. always (if clientCAPath c \<notin> mounts then reconcile_enable c else reconcile_enabled c)
      (\<lambda>t. I (EvGetIntClientCA req (Inr c) # EvListMounts (Inr mounts) # t))"
  shows "always (ca_Reconcile req) I"
proof -
  have "always (if b then Ret x else Ret y) J \<longleftrightarrow> J []" for b J and x y :: reconcile_result by simp
  with assms show ?thesis by (auto simp: ca_Reconcile_def split: sum.split split del: if_split)
qed

lemma ca_Reconcile_one_step: "always (ca_Reconcile req) (\<lambda>t. vault_conforms signs s t \<longrightarrow> ca_one_step s t)"
proof -
  obtain m v st where s: "s = (m, v, st)" by (cases s)
  have "always (if clientCAPath c \<notin> mounts then reconcile_enable c else reconcile_enabled c)
      (\<lambda>t. vault_conforms signs s (EvGetIntClientCA req (Inr c) # EvListMounts (Inr mounts) # t) \<longrightarrow>
         ca_one_step s (EvGetIntClientCA req (Inr c) # EvListMounts (Inr mounts) # t))" for c mounts
  proof (cases "clientCAPath c \<in> m")
    case True
    then show ?thesis using enabled_may [of c signs m v st]
      by (cases "mounts = m") (simp_all add: s ca_one_step_def prefix_quiet List.map_filter_simps)
  next
    case False
    then show ?thesis using enable_may [of c signs m v st]
      by (cases "mounts = m") (simp_all add: s ca_one_step_def prefix_quiet List.map_filter_simps)
  qed
  moreover have "ca_one_step s []" "ca_one_step s [EvGetIntClientCA req (Inr c), EvListMounts lr]" for c lr
    by (simp_all add: s ca_one_step_def may_enable_def may_publish_def prefix_quiet List.map_filter_simps)
  moreover have "ca_one_step s [EvGetIntClientCA req r]" for r
    by (cases r) (simp_all add: s ca_one_step_def may_enable_def may_publish_def prefix_quiet List.map_filter_simps)
  ultimately show ?thesis by (intro ca_Reconcile_always) simp_all
qed

subsection \<open>The simulation\<close>

definition read_resources :: "event list \<Rightarrow> internal_client_ca set" where
  "read_resources t = {c. \<exists>n. EvGetIntClientCA n (Inr c) \<in> set t}"

lemma read_resources_append: "read_resources (s @ t) = read_resources s \<union> read_resources t"
  by (auto simp: read_resources_def)

lemma read_cas_set: "c \<in> set (read_cas t) \<Longrightarrow> c \<in> read_resources t"
proof (induction t)
  case (Cons e t)
  then show ?case
    by (cases e) (auto simp: read_cas_def read_resources_def List.map_filter_simps split: sum.splits)
qed (simp add: prefix_quiet)

lemma may_enable_reach:
  assumes "may_enable c made (m, v, st) s'" and "c \<in> R" and "clientCAPath c \<notin> m" and "cas_mounted (m, v, st)"
  shows "ca_reach R (m, v, st) s'"
proof (cases made)
  case Nil
  with assms(1) show ?thesis
    by (auto simp: may_enable_def intro: ca_reach.same ca_reach_one ca_step.enable [OF assms(2,3)])
next
  case (Cons y ys)
  then obtain x cert where y: "made = (x, cert) # ys" by (cases y) simp
  let ?m = "insert (clientCAPath c) m" and ?v = "v(ca_mount c \<mapsto> cert)"
  have "v (ca_mount c) = None" using assms(3,4) by (auto simp: cas_mounted_def clientCAPath_mount)
  then have made: "ca_reach R (m, v, st) (?m, ?v, st)"
    using assms(2,3) by (intro ca_reach.step [OF ca_step.enable ca_reach_one [OF ca_step.root]]) auto
  have "ca_reach R (?m, ?v, st) (?m, ?v, st(clientca_key c \<mapsto> wanted_ca_entries c cert))"
    by (rule ca_reach_one, rule ca_step.publish [OF assms(2)]) simp
  moreover have "ca_reach R (?m, ?v, st) (?m, ?v, st(clientca_key c \<mapsto> wanted_ca_entries c []))"
    if "st (clientca_key c) = None"
    using that by (intro ca_reach_one ca_step.publish_empty [OF assms(2)]) simp_all
  ultimately show ?thesis
    using assms(1) made unfolding y may_enable_def by (auto intro: ca_reach_trans [OF made])
qed

lemma ca_one_step_reach:
  assumes "ca_one_step s t" and "cas_mounted s"
  shows "ca_reach (read_resources t) s (replay_all s t)"
proof (cases "read_cas t")
  case Nil
  with assms(1) show ?thesis by (simp add: ca_one_step_def ca_reach.same)
next
  case (Cons c rest)
  obtain m v st where s: "s = (m, v, st)" by (cases s)
  have c: "c \<in> read_resources t" using Cons by (intro read_cas_set) simp
  show ?thesis
  proof (cases "clientCAPath c \<in> m")
    case True
    with assms(1) Cons have "may_publish c (m, v, st) (replay_all s t)" by (simp add: s ca_one_step_def)
    then consider "replay_all s t = (m, v, st)" | cert where "v (ca_mount c) = Some cert"
        "replay_all s t = (m, v, st(clientca_key c \<mapsto> wanted_ca_entries c cert))"
      by (auto simp: may_publish_def split: option.splits)
    then show ?thesis
    proof cases
      case 1
      then show ?thesis by (simp only: s ca_reach.same)
    next
      case 2
      then show ?thesis by (simp only: s) (rule ca_reach_one, rule ca_step.publish [OF c])
    qed
  next
    case False
    with assms(1) Cons have "may_enable c (List.map_filter new_ca t) (m, v, st) (replay_all s t)"
      by (simp add: s ca_one_step_def)
    from may_enable_reach [OF this c False] assms(2) show ?thesis by (simp add: s)
  qed
qed

text \<open>C15: any series of reconciliations of client CAs, each of which may be cut short anywhere, against
  conforming replies of Vault and the API server, implements the abstract machine: it only enables the
  mounts of resources that were read, gives each a root certificate at most once, and publishes the
  certificate of the mount, or an empty one into a new Secret, under the Secret the resource names; in
  particular no CA certificate is ever replaced.\<close>

theorem clientca_refines:
  assumes "worked ca_Reconcile reqs t" and "vault_conforms signs (m, v, st) t" and "cas_mounted (m, v, st)"
  shows "ca_reach (read_resources t) (m, v, st) (replay_mounts m t, replay_cas v t, replay st t) \<and>
    v \<subseteq>\<^sub>m replay_cas v t"
proof -
  have "ca_reach (read_resources t) s (replay_all s t)" if "vault_conforms signs s t" "cas_mounted s" for s
    using assms(1) that
  proof (induction arbitrary: s rule: worked.induct)
    case idle
    show ?case by (cases s) (simp add: ca_reach.same)
  next
    case (handled req u p reqs w)
    have conf: "vault_conforms signs s u" "vault_conforms signs (replay_all s u) w"
      using handled(4) by (simp_all add: vault_conforms_append)
    have one: "ca_one_step s u" using always_steps [OF ca_Reconcile_one_step handled(1)] conf(1) by blast
    note here = ca_one_step_reach [OF one handled(5)]
    have "ca_reach (read_resources w) (replay_all s u) (replay_all (replay_all s u) w)"
      by (rule handled(3) [OF conf(2)]) (rule ca_reach_mounted [OF here handled(5)])
    then show ?case using here
      by (cases s) (auto simp: read_resources_append intro: ca_reach_trans ca_reach_mono)
  qed
  from this [OF assms(2,3)] ca_reach_keeps [OF this [OF assms(2,3)]] show ?thesis by simp
qed

theorem clientca_refines_witness:
  "ca_reach (read_resources (tokenless_run (''sip'', ''ca'') sample_ca ''PEM'' (VaultError []))) ({}, Map.empty, Map.empty)
     ({clientCAPath sample_ca}, [ca_mount sample_ca \<mapsto> ''PEM''], [clientca_key sample_ca \<mapsto> wanted_ca_entries sample_ca []])"
proof -
  let ?t = "tokenless_run (''sip'', ''ca'') sample_ca ''PEM'' (VaultError [])"
  obtain p where "steps (ca_Reconcile (''sip'', ''ca'')) ?t = Some p"
    using accepts_tokenless_run [of "(''sip'', ''ca'')" sample_ca "''PEM''" "VaultError []"]
    by (auto simp: accepts_iff_steps)
  then have w: "worked ca_Reconcile [(''sip'', ''ca'')] (?t @ [])"
    by (intro worked.intros)
  have "vault_conforms (\<lambda>_ _. True) ({}, Map.empty, Map.empty) ?t"
    by (simp add: tokenless_run_def tokenless_enable_def setup_calls_def vault_conforms_def vault_replay_defs reply_ok_other)
  with clientca_refines [OF w, of "\<lambda>_ _. True" "{}" Map.empty Map.empty] show ?thesis
    by (simp add: cas_mounted_def tokenless_run_def tokenless_enable_def setup_calls_def vault_replay_defs clientCAPath_mount)
qed

end
