(* ===== verification/Go_Proc.thy ===== *)
theory Go_Proc
  imports Kube_Store
begin

text \<open>
  Processes with goroutines.  A configuration holds the remaining program of every
  goroutine (number 0 is the one that runs \<^verbatim>\<open>main\<close>), the variable they share (the
  \<^verbatim>\<open>err\<close> a goroutine captures) and the \<^verbatim>\<open>sync.WaitGroup\<close> counter.  A schedule is the
  list of moves the runtime makes: \<open>Act i e\<close> lets goroutine \<open>i\<close> make the call \<open>e\<close>, with
  any reply of the environment, and \<open>Stop i\<close> lets a goroutine that has nothing left to do
  end, which ends the process when it exits, panics, or is \<^verbatim>\<open>main\<close>.  \<open>exec\<close> runs a schedule
  and fails on a move that is not possible, so a property of all schedules is a property of
  all interleavings; reads and writes of shared variables are atomic.

  The lemmas reduce a property of a process to its goroutines: \<open>exec_thread\<close> says that
  each has made a run of its own program, whatever the others did, so \<open>always\<close> and
  \<open>all_paths\<close> facts carry over to every interleaving.
\<close>

datatype move = Act nat event | Stop nat

record process =
  threads :: "unit prog list"
  started :: "unit prog list"
  err_var :: "go_error option"
  wait_count :: int
  exit_code :: "nat option"

definition start :: "unit prog \<Rightarrow> process" where
  "start main = \<lparr>threads = [main], started = [main], err_var = None, wait_count = 0, exit_code = None\<rparr>"

text \<open>The effect of a call on what the goroutines share; \<^term>\<open>None\<close> when it has to wait, or
  when a read does not return the variable's value.  A negative counter is a panic.\<close>

definition shared_effect :: "(goroutine \<Rightarrow> unit prog) \<Rightarrow> process \<Rightarrow> event \<Rightarrow> process option" where
  "shared_effect body c e =
     (case e of
        EvGo g \<Rightarrow> Some (c\<lparr>threads := threads c @ [body g], started := started c @ [body g]\<rparr>)
      | EvLoadErr r \<Rightarrow> if r = err_var c then Some c else None
      | EvStoreErr v \<Rightarrow> Some (c\<lparr>err_var := v\<rparr>)
      | EvWgAdd n \<Rightarrow> Some (c\<lparr>wait_count := wait_count c + int n\<rparr>)
      | EvWgDone \<Rightarrow>
          if wait_count c \<le> 0 then Some (c\<lparr>exit_code := Some 2\<rparr>)
          else Some (c\<lparr>wait_count := wait_count c - 1\<rparr>)
      | EvWgWait \<Rightarrow> if wait_count c = 0 then Some c else None
      | _ \<Rightarrow> Some c)"

text \<open>Exit codes: \<^verbatim>\<open>os.Exit(n)\<close> gives \<open>n\<close>, a panic 2, and returning from \<^verbatim>\<open>main\<close> 0.\<close>

definition stop_code :: "nat \<Rightarrow> unit prog \<Rightarrow> nat option" where
  "stop_code i p =
     (case ended p of
        Some (Exited n) \<Rightarrow> Some n
      | Some Panicked \<Rightarrow> Some 2
      | Some (Returned _) \<Rightarrow> if i = 0 then Some 0 else None
      | None \<Rightarrow> None)"

fun move_step :: "(goroutine \<Rightarrow> unit prog) \<Rightarrow> process \<Rightarrow> move \<Rightarrow> process option" where
  "move_step body c (Act i e) =
     (if exit_code c = None \<and> i < length (threads c)
      then (case after (threads c ! i) e of
              None \<Rightarrow> None
            | Some p \<Rightarrow> shared_effect body (c\<lparr>threads := (threads c)[i := p]\<rparr>) e)
      else None)"
| "move_step body c (Stop i) =
     (if exit_code c = None \<and> i < length (threads c)
      then (case stop_code i (threads c ! i) of
              None \<Rightarrow> None | Some n \<Rightarrow> Some (c\<lparr>exit_code := Some n\<rparr>))
      else None)"

fun exec :: "(goroutine \<Rightarrow> unit prog) \<Rightarrow> process \<Rightarrow> move list \<Rightarrow> process option" where
  "exec body c [] = Some c"
| "exec body c (m # ms) = (case move_step body c m of None \<Rightarrow> None | Some c' \<Rightarrow> exec body c' ms)"

text \<open>The calls of one goroutine, and all calls in the order they were made.\<close>

fun calls_of :: "nat \<Rightarrow> move list \<Rightarrow> event list" where
  "calls_of i [] = []"
| "calls_of i (Act j e # ms) = (if j = i then e # calls_of i ms else calls_of i ms)"
| "calls_of i (Stop j # ms) = calls_of i ms"

fun all_calls :: "move list \<Rightarrow> event list" where
  "all_calls [] = []"
| "all_calls (Act j e # ms) = e # all_calls ms"
| "all_calls (Stop j # ms) = all_calls ms"

lemma calls_of_append [simp]: "calls_of i (ms @ ns) = calls_of i ms @ calls_of i ns"
  by (induction ms rule: calls_of.induct) auto

lemma all_calls_append [simp]: "all_calls (ms @ ns) = all_calls ms @ all_calls ns"
  by (induction ms rule: all_calls.induct) auto

lemma calls_of_subset: "e \<in> set (calls_of i ms) \<Longrightarrow> e \<in> set (all_calls ms)"
  by (induction ms rule: all_calls.induct) (auto split: if_splits)

lemma in_calls_of_iff: "e \<in> set (calls_of i ms) \<longleftrightarrow> Act i e \<in> set ms"
  by (induction ms rule: all_calls.induct) auto

lemma all_calls_iff: "e \<in> set (all_calls ms) \<longleftrightarrow> (\<exists>i. Act i e \<in> set ms)"
  by (induction ms rule: all_calls.induct) auto

lemma exec_append:
  "exec body c (ms @ ns) = (case exec body c ms of None \<Rightarrow> None | Some c' \<Rightarrow> exec body c' ns)"
  by (induction ms arbitrary: c) (auto split: option.splits)

subsection \<open>Single moves\<close>

lemma shared_effect_threads:
  "shared_effect body c e = Some c' \<Longrightarrow>
     (\<exists>g. e = EvGo g \<and> threads c' = threads c @ [body g] \<and> started c' = started c @ [body g]) \<or>
     (\<forall>g. e \<noteq> EvGo g) \<and> threads c' = threads c \<and> started c' = started c"
  by (auto simp: shared_effect_def split: event.splits if_splits)

lemma move_step_running: "move_step body c m = Some c' \<Longrightarrow> exit_code c = None"
  by (cases m) (auto split: if_splits)

lemma move_step_thread:
  assumes "move_step body c m = Some c'" and "i < length (threads c)"
  shows "steps (threads c ! i) (calls_of i [m]) = Some (threads c' ! i) \<and>
    length (threads c) \<le> length (threads c')"
proof (cases m)
  case (Act j e)
  with assms(1) obtain p where p: "after (threads c ! j) e = Some p" and j: "j < length (threads c)"
    and "shared_effect body (c\<lparr>threads := (threads c)[j := p]\<rparr>) e = Some c'"
    by (auto split: if_splits option.splits)
  from shared_effect_threads [OF this(3)] p j assms(2) show ?thesis
    by (auto simp: Act nth_append nth_list_update)
next
  case (Stop j)
  with assms show ?thesis by (auto split: if_splits option.splits)
qed

lemma exec_length: "exec body c ms = Some c' \<Longrightarrow> length (threads c) \<le> length (threads c')"
proof (induction ms arbitrary: c)
  case Nil
  then show ?case by simp
next
  case (Cons m ms)
  then obtain c1 where "move_step body c m = Some c1" and "exec body c1 ms = Some c'"
    by (auto split: option.splits)
  moreover from this(1) have "length (threads c) \<le> length (threads c1)"
    by (cases m) (auto dest: shared_effect_threads split: if_splits option.splits)
  ultimately show ?case using Cons.IH by fastforce
qed

text \<open>Every goroutine makes a run of its own program.\<close>

lemma exec_thread:
  assumes "exec body c ms = Some c'" and "i < length (threads c)"
  shows "steps (threads c ! i) (calls_of i ms) = Some (threads c' ! i)"
  using assms
proof (induction ms arbitrary: c)
  case Nil
  then show ?case by simp
next
  case (Cons m ms)
  then obtain c1 where m: "move_step body c m = Some c1" and ms: "exec body c1 ms = Some c'"
    by (auto split: option.splits)
  from move_step_thread [OF m Cons.prems(2)] Cons.prems(2)
  have s: "steps (threads c ! i) (calls_of i [m]) = Some (threads c1 ! i)"
    and "i < length (threads c1)" by auto
  with Cons.IH [OF ms] have "steps (threads c1 ! i) (calls_of i ms) = Some (threads c' ! i)" by simp
  moreover have "calls_of i (m # ms) = calls_of i [m] @ calls_of i ms"
    using calls_of_append [of i "[m]" ms] by simp
  ultimately show ?case by (simp add: steps_append s del: calls_of_append)
qed

text \<open>A goroutine that has not been started makes no calls.\<close>

lemma calls_of_new:
  "exec body c ms = Some c' \<Longrightarrow> length (threads c') \<le> i \<Longrightarrow> calls_of i ms = []"
proof (induction ms arbitrary: c' rule: rev_induct)
  case Nil
  then show ?case by simp
next
  case (snoc m ms)
  then obtain c0 where c0: "exec body c ms = Some c0" and m: "move_step body c0 m = Some c'"
    by (auto simp: exec_append split: option.splits)
  have "exec body c0 [m] = Some c'" using m by simp
  then have "length (threads c0) \<le> i" using exec_length snoc.prems(2) by fastforce
  with snoc.IH [OF c0] m show ?case by (cases m) (auto split: if_splits)
qed

text \<open>The goroutines of a process: \<^verbatim>\<open>main\<close>, then those started, in order.\<close>

fun spawned :: "event list \<Rightarrow> goroutine list" where
  "spawned [] = []"
| "spawned (e # t) = (case e of EvGo g \<Rightarrow> g # spawned t | _ \<Rightarrow> spawned t)"

lemma spawned_append [simp]: "spawned (s @ t) = spawned s @ spawned t"
  by (induction s) (auto split: event.splits)

lemma exec_started:
  "exec body (start main) ms = Some c \<Longrightarrow>
     started c = main # map body (spawned (all_calls ms)) \<and> length (threads c) = length (started c)"
proof (induction ms arbitrary: c rule: rev_induct)
  case Nil
  then show ?case by (auto simp: start_def)
next
  case (snoc m ms)
  then obtain c0 where c0: "exec body (start main) ms = Some c0" and m: "move_step body c0 m = Some c"
    by (auto simp: exec_append split: option.splits)
  from m have "length (threads c) = length (threads c0) + length (spawned (all_calls [m])) \<and>
      started c = started c0 @ map body (spawned (all_calls [m]))"
    by (cases m) (auto dest!: shared_effect_threads split: if_splits option.splits event.splits)
  with snoc.IH [OF c0] show ?case by simp
qed

lemma exec_started_thread:
  assumes "exec body (start main) ms = Some c" and "i < length (threads c)"
  shows "steps (started c ! i) (calls_of i ms) = Some (threads c ! i)"
  using assms
proof (induction ms arbitrary: c rule: rev_induct)
  case Nil
  then show ?case by (auto simp: start_def)
next
  case (snoc m ms)
  then obtain c0 where c0: "exec body (start main) ms = Some c0" and m: "move_step body c0 m = Some c"
    by (auto simp: exec_append split: option.splits)
  note st = exec_started [OF c0] exec_started [OF snoc.prems(1)]
  show ?case
  proof (cases "i < length (threads c0)")
    case True
    have eq: "started c = started c0 @ map body (spawned (all_calls [m]))" using st by simp
    have "i < length (started c0)" using True st(1) by simp
    then have "started c ! i = started c0 ! i" by (simp only: eq nth_append if_True)
    with snoc.IH [OF c0 True] move_step_thread [OF m True] show ?thesis
      by (simp add: steps_append)
  next
    case False
    then have new: "calls_of i (ms @ [m]) = []"
      using calls_of_new [OF c0] m by (cases m) (auto split: if_splits)
    have "threads c ! i = started c ! i"
      using m False snoc.prems(2) st
      by (cases m)
        (auto dest!: shared_effect_threads simp: nth_append split: if_splits option.splits)
    with new show ?thesis by simp
  qed
qed

text \<open>A process ends when one of its goroutines does, or when the counter goes negative.\<close>

lemma exec_exit:
  assumes "exec body c ms = Some c'" and "exit_code c = None" and "exit_code c' = Some n"
  shows "(\<exists>i < length (threads c'). stop_code i (threads c' ! i) = Some n) \<or> n = 2"
  using assms
proof (induction ms arbitrary: c)
  case Nil
  then show ?case by simp
next
  case (Cons m ms)
  then obtain c1 where m: "move_step body c m = Some c1" and ms: "exec body c1 ms = Some c'"
    by (auto split: option.splits)
  show ?case
  proof (cases "exit_code c1")
    case None
    with Cons.IH [OF ms] Cons.prems show ?thesis by simp
  next
    case (Some k)
    then have "c' = c1"
      using ms by (cases ms) (auto dest: move_step_running split: option.splits)
    with m Some Cons.prems show ?thesis
      by (cases m) (auto simp: shared_effect_def split: if_splits option.splits event.splits)
  qed
qed

lemma exec_last_move:
  assumes "exec body (start main) ms = Some c" and "exit_code c = Some n"
  obtains ms0 m c0 where "ms = ms0 @ [m]" "exec body (start main) ms0 = Some c0" "exit_code c0 = None"
    "move_step body c0 m = Some c"
proof (cases ms rule: rev_cases)
  case Nil
  with assms show thesis by (auto simp: start_def)
next
  case (snoc ms0 m)
  with assms(1) obtain c0 where "exec body (start main) ms0 = Some c0" "move_step body c0 m = Some c"
    by (auto simp: exec_append split: option.splits)
  with snoc show thesis using that move_step_running by blast
qed

lemma exec_exit_stop:
  assumes "exec body (start main) ms = Some c" and "exit_code c = Some n" and "EvWgDone \<notin> set (all_calls ms)"
  shows "\<exists>i < length (threads c). stop_code i (threads c ! i) = Some n"
proof -
  obtain ms0 m c0 where ms: "ms = ms0 @ [m]" "exit_code c0 = None" and m: "move_step body c0 m = Some c"
    by (rule exec_last_move [OF assms(1,2)])
  with assms(2,3) show ?thesis
    by (cases m) (auto simp: shared_effect_def split: if_splits option.splits event.splits)
qed

text \<open>An error read from the shared variable was stored there by one of the goroutines.\<close>

lemma loaded_err:
  "exec body c ms = Some c' \<Longrightarrow> EvLoadErr (Some x) \<in> set (all_calls ms) \<Longrightarrow>
     err_var c = Some x \<or> EvStoreErr (Some x) \<in> set (all_calls ms)"
proof (induction ms arbitrary: c)
  case Nil
  then show ?case by simp
next
  case (Cons m ms)
  then obtain c1 where m: "move_step body c m = Some c1" and ms: "exec body c1 ms = Some c'"
    by (auto split: option.splits)
  show ?case
  proof (cases "EvLoadErr (Some x) \<in> set (all_calls ms)")
    case True
    from Cons.IH [OF ms this] m show ?thesis
      by (cases m) (auto simp: shared_effect_def split: if_splits option.splits event.splits)
  next
    case False
    with Cons.prems(2) m show ?thesis
      by (cases m) (auto simp: shared_effect_def split: if_splits option.splits)
  qed
qed

subsection \<open>The wait group\<close>

fun done_count :: "event list \<Rightarrow> int" where
  "done_count [] = 0"
| "done_count (e # t) = (if e = EvWgDone then 1 else 0) + done_count t"

fun add_count :: "event list \<Rightarrow> int" where
  "add_count [] = 0"
| "add_count (e # t) = (case e of EvWgAdd n \<Rightarrow> int n | _ \<Rightarrow> 0) + add_count t"

lemma move_step_wait_count:
  "move_step body c m = Some c' \<Longrightarrow> exit_code c' = None \<Longrightarrow>
   wait_count c' = wait_count c + add_count (all_calls [m]) - done_count (all_calls [m])"
  by (cases m) (auto simp: shared_effect_def split: if_splits option.splits event.splits)

lemma add_count_append [simp]: "add_count (s @ t) = add_count s + add_count t"
  by (induction s) auto

lemma done_count_append [simp]: "done_count (s @ t) = done_count s + done_count t"
  by (induction s) auto

lemma exec_wait_count:
  "exec body c ms = Some c' \<Longrightarrow> exit_code c' = None \<Longrightarrow>
   wait_count c' = wait_count c + add_count (all_calls ms) - done_count (all_calls ms)"
proof (induction ms arbitrary: c)
  case Nil
  then show ?case by simp
next
  case (Cons m ms)
  then obtain c1 where m: "move_step body c m = Some c1" and ms: "exec body c1 ms = Some c'"
    by (auto split: option.splits)
  have "exit_code c1 = None"
    using ms Cons.prems(2) by (cases ms) (auto dest: move_step_running split: option.splits)
  from move_step_wait_count [OF m this] Cons.IH [OF ms Cons.prems(2)]
  show ?case by (cases m) auto
qed

subsection \<open>Facts about a process from facts about its goroutines\<close>

lemma exec_goroutine:
  assumes "exec body (start main) ms = Some c" and "i < length (threads c)"
  shows "i = 0 \<and> steps main (calls_of 0 ms) = Some (threads c ! 0) \<or>
    (\<exists>g \<in> set (spawned (all_calls ms)). steps (body g) (calls_of i ms) = Some (threads c ! i))"
proof -
  note st = exec_started [OF assms(1)] exec_started_thread [OF assms]
  show ?thesis
  proof (cases i)
    case 0
    with st show ?thesis by simp
  next
    case (Suc j)
    with st assms(2) have "j < length (spawned (all_calls ms))" by simp
    with st Suc show ?thesis by (intro disjI2 bexI [of _ "spawned (all_calls ms) ! j"]) simp_all
  qed
qed

lemma exec_main:
  "exec body (start main) ms = Some c \<Longrightarrow> steps main (calls_of 0 ms) = Some (threads c ! 0)"
  using exec_started exec_started_thread [of body main ms c 0] by fastforce

lemma Act_in_range:
  "exec body c ms = Some c' \<Longrightarrow> Act i e \<in> set ms \<Longrightarrow> i < length (threads c')"
  by (rule ccontr) (use calls_of_new [of body c ms c' i] in \<open>auto simp flip: in_calls_of_iff\<close>)

lemma spawned_EvGo: "g \<in> set (spawned t) \<longleftrightarrow> EvGo g \<in> set t"
  by (induction t) (auto split: event.splits)

text \<open>A property of every call of the main goroutine and of every goroutine it can start.\<close>

lemma exec_each_call:
  assumes "exec body (start main) ms = Some c" and "each_call P main"
    and "\<And>g. P (EvGo g) \<Longrightarrow> each_call P (body g)"
  shows "list_all P (all_calls ms)"
  using assms(1)
proof (induction ms arbitrary: c rule: rev_induct)
  case Nil
  then show ?case by simp
next
  case (snoc m ms)
  then obtain c0 where c0: "exec body (start main) ms = Some c0" and m: "move_step body c0 m = Some c"
    by (auto simp: exec_append split: option.splits)
  note IH = snoc.IH [OF c0]
  show ?case
  proof (cases m)
    case (Stop i)
    with IH show ?thesis by simp
  next
    case (Act i e)
    with m have i: "i < length (threads c0)" by (simp split: if_splits)
    have more: "steps (threads c0 ! i) [e] = Some (threads c ! i)"
      using move_step_thread [OF m i] by (simp add: Act)
    have "\<exists>p. each_call P p \<and> steps p (calls_of i ms) = Some (threads c0 ! i)"
      using exec_goroutine [OF c0 i]
    proof (elim disjE conjE bexE)
      assume "i = 0" and "steps main (calls_of 0 ms) = Some (threads c0 ! 0)"
      with assms(2) show ?thesis by blast
    next
      fix g
      assume g: "g \<in> set (spawned (all_calls ms))"
        and s: "steps (body g) (calls_of i ms) = Some (threads c0 ! i)"
      from g IH have "P (EvGo g)" by (simp add: spawned_EvGo list_all_iff)
      from assms(3) [OF this] s show ?thesis by blast
    qed
    then obtain p where p: "each_call P p" and q: "steps p (calls_of i ms) = Some (threads c0 ! i)"
      by blast
    from q more have "steps p (calls_of i ms @ [e]) = Some (threads c ! i)"
      by (simp add: steps_append)
    from always_steps [OF p this] have "P e" by simp
    with IH show ?thesis by (simp add: Act)
  qed
qed

text \<open>Calls that only the main goroutine makes are in the order in which it made them.\<close>

lemma filter_main_calls:
  "(\<And>i e. Act i e \<in> set ms \<Longrightarrow> i \<noteq> 0 \<Longrightarrow> \<not> P e) \<Longrightarrow> filter P (all_calls ms) = filter P (calls_of 0 ms)"
  by (induction ms rule: all_calls.induct) auto

lemma spawned_filter: "spawned (filter (\<lambda>e. \<exists>g. e = EvGo g) t) = spawned t"
  by (induction t) (auto split: event.splits)

text \<open>If one goroutine makes all secret writes, the store after the process is the store after
  its calls, and its replies are those of a conforming server.\<close>

lemma one_writer:
  "(\<And>j e. Act j e \<in> set ms \<Longrightarrow> j \<noteq> i \<Longrightarrow> secret_write e = None) \<Longrightarrow>
     replay st (all_calls ms) = replay st (calls_of i ms) \<and>
     (conforms st (all_calls ms) \<longrightarrow> conforms st (calls_of i ms))"
proof (induction ms arbitrary: st rule: all_calls.induct)
  case (2 j e ms)
  have IH: "replay st (all_calls ms) = replay st (calls_of i ms) \<and>
      (conforms st (all_calls ms) \<longrightarrow> conforms st (calls_of i ms))" for st
    using 2(2) by (intro 2(1)) auto
  have "apply_event st e = st" if "j \<noteq> i"
    using that 2(2) [of j e] by simp
  with IH show ?case by (cases "j = i") auto
qed simp_all

subsection \<open>Waiting for every goroutine\<close>

lemma done_count_threads:
  "(\<And>i e. Act i e \<in> set ms \<Longrightarrow> i < n) \<Longrightarrow>
     done_count (all_calls ms) = (\<Sum>i<n. done_count (calls_of i ms))"
proof (induction ms rule: all_calls.induct)
  case (2 j e ms)
  have "done_count (calls_of i (Act j e # ms)) =
      done_count (calls_of i ms) + (if i = j then if e = EvWgDone then 1 else 0 else 0)" for i
    by simp
  moreover have "j < n" using 2(2) [of j e] by simp
  moreover have "done_count (all_calls ms) = (\<Sum>i<n. done_count (calls_of i ms))"
    using 2(2) by (intro 2(1)) auto
  ultimately show ?case by (simp add: sum.distrib)
qed simp_all

lemma done_count_pos: "0 < done_count t \<Longrightarrow> EvWgDone \<in> set t"
  by (induction t) (auto split: if_splits)

text \<open>When \<^verbatim>\<open>Wait\<close> returns, the calls of \<^verbatim>\<open>Done\<close> have matched those of \<^verbatim>\<open>Add\<close>.\<close>

lemma wait_barrier:
  assumes "exec body (start main) ms = Some c" and "EvWgWait \<in> set (calls_of 0 ms)"
  obtains ms1 ms2 c1 where "ms = ms1 @ Act 0 EvWgWait # ms2" "exec body (start main) ms1 = Some c1"
    "add_count (all_calls ms1) = done_count (all_calls ms1)"
proof -
  from assms(2) have "Act 0 EvWgWait \<in> set ms" by (simp add: in_calls_of_iff)
  then obtain ms1 ms2 where ms: "ms = ms1 @ Act 0 EvWgWait # ms2" by (auto dest: split_list)
  with assms(1) obtain c1 c2 where c1: "exec body (start main) ms1 = Some c1"
    and m: "move_step body c1 (Act 0 EvWgWait) = Some c2"
    by (auto simp: exec_append split: option.splits)
  from m have "exit_code c1 = None" and "wait_count c1 = 0"
    by (auto simp: shared_effect_def split: if_splits option.splits)
  with exec_wait_count [OF c1] have "add_count (all_calls ms1) = done_count (all_calls ms1)"
    by (simp add: start_def)
  with ms c1 that show thesis by blast
qed

text \<open>If each goroutine calls \<^verbatim>\<open>Done\<close> at most once and as many were added as started, then all
  of them have called it.\<close>

lemma all_done:
  assumes "exec body (start main) ms = Some c"
    and "done_count (all_calls ms) = int (length (threads c)) - 1"
    and "\<And>i. 0 < i \<Longrightarrow> i < length (threads c) \<Longrightarrow> done_count (calls_of i ms) \<le> 1"
    and "done_count (calls_of 0 ms) = 0" and "0 < i" and "i < length (threads c)"
  shows "EvWgDone \<in> set (calls_of i ms)"
proof (rule ccontr)
  assume "EvWgDone \<notin> set (calls_of i ms)"
  then have zero: "done_count (calls_of i ms) \<le> 0" using done_count_pos by force
  let ?n = "length (threads c)" and ?d = "\<lambda>i. done_count (calls_of i ms)"
  have "done_count (all_calls ms) = (\<Sum>i<?n. ?d i)"
    by (rule done_count_threads) (rule Act_in_range [OF assms(1)])
  also have "\<dots> \<le> (\<Sum>j<?n. if j = 0 \<or> j = i then 0 else 1)"
    using assms(3,4) zero by (intro sum_mono) auto
  also have "\<dots> = (\<Sum>j\<in>{..<?n} - {0, i}. 1)"
    by (rule sum.mono_neutral_cong_right) auto
  also have "\<dots> = int (?n - 2)"
  proof -
    have "card ({..<?n} - {0, i}) = ?n - card {0, i}"
      using assms(5,6) by (subst card_Diff_subset) auto
    then show ?thesis using assms(5) by simp
  qed
  finally show False using assms(2,5,6) by linarith
qed

end
