(* ===== verification/In_Cluster.thy ===== *)
theory In_Cluster
  imports Kube_Store
begin

text \<open>
  What the jobs under vault/client-go share: the service account files of the pod they run
  in, the secrets they build, and the object a typed client returns beside an error the code
  ignores.
\<close>

definition ca_file :: string where [record_defs]:
  "ca_file = ''/var/run/secrets/kubernetes.io/serviceaccount/ca.crt''"

definition namespace_file :: string where [record_defs]:
  "namespace_file = ''/var/run/secrets/kubernetes.io/serviceaccount/namespace''"

text \<open>The bytes of a file whose read error is ignored.\<close>

definition file_contents :: "go_error + string \<Rightarrow> string" where
  "file_contents nsByte = (case nsByte of Inl _ \<Rightarrow> [] | Inr bs \<Rightarrow> bs)"

definition read_namespace :: "(string \<Rightarrow> 'a prog) \<Rightarrow> 'a prog" where
  "read_namespace k =
     Ask (ReadFile namespace_file) (\<lambda>nsByte. k (file_contents nsByte))"

definition credential_secret :: "string \<Rightarrow> string \<Rightarrow> string \<Rightarrow> string \<Rightarrow> secret" where
  "credential_secret name namespace k v =
     \<lparr>Secret_Meta = empty_meta\<lparr>Meta_Name := name, Meta_Namespace := namespace\<rparr>,
      Data = None, StringData = [k \<mapsto> v], Type = SecretTypeOpaque\<rparr>"

text \<open>What the typed client returns beside an ignored error is the empty object.\<close>

definition got_or_empty :: "go_error + secret \<Rightarrow> secret" where
  "got_or_empty got = (case got of Inl _ \<Rightarrow> empty_secret | Inr s \<Rightarrow> s)"

lemma credential_secret_simps [simp]:
  "secret_name (credential_secret n m k v) = n"
  "Data (credential_secret n m k v) = None"
  "StringData (credential_secret n m k v) = [k \<mapsto> v]"
  by (simp_all add: credential_secret_def)

lemma data_set_entries:
  "data_set s k v = Some s' \<Longrightarrow> StringData s = Map.empty \<Longrightarrow>
   entries s' = entries s ++ [k \<mapsto> v] \<and> secret_name s' = secret_name s"
  by (auto simp: data_set_def)

lemma got_or_empty_simps [simp]:
  "got_or_empty (Inr s) = s"
  "Data (got_or_empty (Inl e)) = None"
  by (simp_all add: got_or_empty_def empty_secret_def)

lemma Data_got_or_empty [simp]: "Data (got_or_empty got) = Some m \<longleftrightarrow> (\<exists>s. got = Inr s \<and> Data s = Some m)"
  by (cases got) auto

end
