(* ===== verification/Secret_Upsert.thy ===== *)
theory Secret_Upsert
  imports In_Cluster
begin

text \<open>
  The interface of the code that persists credentials in a Secret: try to create it, and if
  it exists already, read it, set the entries and update it.  The repository has this
  sequence four times; the locale states what a copy must guarantee its caller, and its
  lemmas what a caller may conclude about the store.  \<open>undisturbed\<close> is what a copy needs of
  its own run (nothing, unless it shares a variable with another goroutine).
\<close>

locale secret_upsert =
  fixes persist :: "'x \<Rightarrow> unit prog"
    and key :: "'x \<Rightarrow> namespaced_name"
    and wanted :: "'x \<Rightarrow> (string \<rightharpoonup> string)"
    and undisturbed :: "event list \<Rightarrow> bool"
  assumes stores: "accepts (persist x) t (Returned ()) \<Longrightarrow> undisturbed t \<Longrightarrow> conforms st t \<Longrightarrow>
      \<exists>old. replay st t = st(key x \<mapsto> old ++ wanted x) \<and> (old = Map.empty \<or> st (key x) = Some old)"
    and writes_key: "steps (persist x) t = Some p \<Longrightarrow> conforms st t \<Longrightarrow> written_keys t \<subseteq> {key x}"
    and fails_fatally: "accepts (persist x) t (Exited n) \<Longrightarrow> n = 1"
begin

text \<open>A copy that returns has stored every wanted entry and kept the other secrets.\<close>

lemma stored:
  assumes "accepts (persist x) t (Returned ())" and "undisturbed t" and "conforms st t"
  shows "\<exists>m. replay st t (key x) = Some m \<and> wanted x \<subseteq>\<^sub>m m"
  using stores [OF assms] by (auto intro: map_le_map_add)

text \<open>Entries the caller does not set survive an update.\<close>

lemma keeps_entries:
  assumes "accepts (persist x) t (Returned ())" and "undisturbed t" and "conforms st t"
    and "st (key x) = Some old" and "replay st t \<noteq> st(key x \<mapsto> wanted x)"
  shows "replay st t = st(key x \<mapsto> old ++ wanted x)"
  using stores [OF assms(1-3)] assms(4,5) by auto

lemma frame:
  assumes "accepts (persist x) t out" and "conforms st t" and "k \<noteq> key x"
  shows "replay st t k = st k"
proof -
  obtain p where "steps (persist x) t = Some p" using assms(1) by (auto simp: accepts_iff_steps)
  from writes_key [OF this assms(2)] assms(3) show ?thesis by (intro replay_frame) blast
qed

text \<open>Later calls that leave the key alone keep what was stored.\<close>

lemma stored_stays:
  assumes "accepts (persist x) t (Returned ())" and "undisturbed t" and "conforms st t"
    and "key x \<notin> written_keys u"
  shows "\<exists>m. replay st (t @ u) (key x) = Some m \<and> wanted x \<subseteq>\<^sub>m m"
  using stored [OF assms(1-3)] replay_frame [OF assms(4)] by simp

end

end
