(* ===== verification/Vault_Init.thy ===== *)
theory Vault_Init
  imports Go_Proc Secret_Upsert Vault_Mounts
begin

text \<open>
  The job vault/client-go/init/main.go: it initialises a fresh Vault cluster, keeps the
  unseal key and the root token in Secrets, and unseals the three nodes in goroutines; on
  a cluster that is already initialised it unseals with the kept key.
\<close>

text \<open>A client is known by its address; \<^verbatim>\<open>vault.New\<close> returns no client beside an error.\<close>

definition getClientV :: "string \<Rightarrow> (go_error + string) prog" where
  "getClientV fqdn =
     (let addr = ''https://'' @ fqdn @ '':8200''
      in Do (VaultNew addr ca_file) (\<lambda>err.
           case err of Some e \<Rightarrow> Ret (Inl e) | None \<Rightarrow> Ret (Inr addr)))"

definition vault_fqdn :: "string \<Rightarrow> string \<Rightarrow> string \<Rightarrow> string" where
  "vault_fqdn ns domain v =
     v @ ''.'' @ VAULT_INTERNAL_SERVICE_NAME @ ''.'' @ ns @ ''.'' @ ''svc.'' @ domain"

subsection \<open>The function init\<close>

text \<open>
  The package variables after \<^verbatim>\<open>init()\<close>: the namespace, the addresses of the nodes, and the
  client to the first node, which stays nil when it cannot be built.
\<close>

record init_vars =
  ns :: string
  vaultFQDNs :: "string list"
  clientV :: "string option"

definition init_init :: "init_vars prog" where
  "init_init =
     read_namespace (\<lambda>ns'.
     Do InClusterConfig (\<lambda>err.
     case err of Some _ \<Rightarrow> Exit 1 | None \<Rightarrow>
     Do NewForConfig (\<lambda>err.
     case err of Some _ \<Rightarrow> Panic | None \<Rightarrow>
     Getenv ''VAULT_CLUSTER'' (\<lambda>vaultCluster.
     Getenv ''KUBERNETES_CLUSTER_DOMAIN'' (\<lambda>domain.
     let fqdns = map (vault_fqdn ns' domain) (strings_Split vaultCluster (CHR '','')) in
     case go_index fqdns 0 of None \<Rightarrow> Panic | Some fqdn \<Rightarrow>
     bind (getClientV fqdn) (\<lambda>client.
     Ret \<lparr>ns = ns', vaultFQDNs = fqdns,
          clientV = (case client of Inl _ \<Rightarrow> None | Inr addr \<Rightarrow> Some addr)\<rparr>))))))"

subsection \<open>Unsealing\<close>

definition unSealWorker :: "string \<Rightarrow> string \<Rightarrow> bool \<Rightarrow> unit prog" where
  "unSealWorker fqdn unsealKey needSleep =
     deferred WgDone
      (bind (getClientV fqdn) (\<lambda>tmpClient.
       case tmpClient of Inl _ \<Rightarrow> Ret () | Inr addr \<Rightarrow>
       (let unseal = Do (Unseal addr unsealKey) (\<lambda>err.
              case err of Some _ \<Rightarrow> Exit 1 | None \<Rightarrow> Ret ())
        in if needSleep then Sleep 8 unseal else unseal)))"

text \<open>\<^verbatim>\<open>go unSealWorker(vaultFQDNs[i], key, &wg, needSleep)\<close>: the arguments are evaluated, and
  may panic, before the goroutine is started.\<close>

definition go_unseal :: "string list \<Rightarrow> nat \<Rightarrow> string option \<Rightarrow> bool \<Rightarrow> unit prog \<Rightarrow> unit prog" where
  "go_unseal fqdns i key needSleep k =
     (case go_index fqdns i of None \<Rightarrow> Panic | Some fqdn \<Rightarrow>
      case key of None \<Rightarrow> Panic | Some unsealKey \<Rightarrow> Go (UnSealWorker fqdn unsealKey needSleep) k)"

definition unSeal :: "init_vars \<Rightarrow> unit prog" where
  "unSeal v =
     WgAdd 3
      (deferred WgWait
        (GetSecret (ns v) ''vault-unseal-key'' (\<lambda>got.
         case got of Inl _ \<Rightarrow> Exit 1 | Inr secretOfUnsealKey \<Rightarrow>
         let unsealKey = data_get secretOfUnsealKey ''key'' in
         go_unseal (vaultFQDNs v) 0 (Some unsealKey) False
         (go_unseal (vaultFQDNs v) 1 (Some unsealKey) False
         (go_unseal (vaultFQDNs v) 2 (Some unsealKey) False
         (Ret ()))))))"

subsection \<open>Keeping the credentials\<close>

text \<open>The argument is the namespace and the key.\<close>

definition persist_unseal_key :: "string \<times> string \<Rightarrow> unit prog" where
  "persist_unseal_key x =
     (case x of (ns', unsealKey) \<Rightarrow>
      Do (CreateSecret ns' (credential_secret ''vault-unseal-key'' [] ''key'' unsealKey)) (\<lambda>err.
      case err of None \<Rightarrow> Ret () | Some e \<Rightarrow>
        if IsNotFound e then Exit 1
        else if IsAlreadyExists e then
          GetSecret ns' ''vault-unseal-key'' (\<lambda>got.
          case data_set (got_or_empty got) ''key'' unsealKey of None \<Rightarrow> Panic | Some s \<Rightarrow>
          Do (UpdateSecret ns' s) (\<lambda>err.
          case err of Some _ \<Rightarrow> Exit 1 | None \<Rightarrow> Ret ()))
        else if IsInvalid e then Exit 1
        else Exit 1))"

definition persist_root_token :: "string \<times> string \<Rightarrow> unit prog" where
  "persist_root_token x =
     (case x of (ns', rootToken) \<Rightarrow>
      Do (CreateSecret ns' (credential_secret ''vault-root-token'' ns' ''token'' rootToken)) (\<lambda>err.
      case err of None \<Rightarrow> Ret () | Some e \<Rightarrow>
        if IsNotFound e then Exit 1
        else if IsAlreadyExists e then
          GetSecret ns' ''vault-root-token'' (\<lambda>got.
          case data_set (got_or_empty got) ''token'' rootToken of None \<Rightarrow> Panic | Some s \<Rightarrow>
          Do (UpdateSecret ns' s) (\<lambda>err.
          case err of Some _ \<Rightarrow> Exit 1 | None \<Rightarrow> Ret ()))
        else if IsInvalid e then Exit 1
        else Exit 1))"

subsection \<open>Initialising\<close>

text \<open>The type assertion and index of \<^verbatim>\<open>initResp.Data["keys_base64"].([]interface{})[0]\<close>.\<close>

definition first_key :: "(string \<rightharpoonup> json) \<Rightarrow> json option" where
  "first_key data = Option.bind (as_array (data ''keys_base64'')) (\<lambda>keys. go_index keys 0)"

definition initVault :: "init_vars \<Rightarrow> string \<Rightarrow> unit prog" where
  "initVault v addr =
     WgAdd 3
      (deferred WgWait
        (AskJson (Initialize addr 1 1) (\<lambda>initResp.
         case initResp of Inl _ \<Rightarrow> Exit 1 | Inr data \<Rightarrow>
         case first_key data of None \<Rightarrow> Panic | Some unsealKey \<Rightarrow>
         let rootToken = data ''root_token''; key = as_string (Some unsealKey) in
         go_unseal (vaultFQDNs v) 0 key False
         (go_unseal (vaultFQDNs v) 1 key True
         (go_unseal (vaultFQDNs v) 2 key True
         (read_namespace (\<lambda>ns'.
          case key of None \<Rightarrow> Panic | Some k \<Rightarrow>
          bind (persist_unseal_key (ns', k)) (\<lambda>_.
          case as_string rootToken of None \<Rightarrow> Panic | Some token \<Rightarrow>
          persist_root_token (ns', token)))))))))"

subsection \<open>The function main\<close>

text \<open>A nil client panics at its first use.\<close>

definition init_main :: "init_vars \<Rightarrow> unit prog" where
  "init_main v =
     (case clientV v of None \<Rightarrow> Panic | Some addr \<Rightarrow>
      AskJson (ReadHealthStatus addr) (\<lambda>status.
      case status of Inl _ \<Rightarrow> Exit 1 | Inr data \<Rightarrow>
      case as_bool (data ''initialized'') of None \<Rightarrow> Panic | Some initialized \<Rightarrow>
      if initialized then
        (case as_bool (data ''sealed'') of None \<Rightarrow> Panic | Some sealed \<Rightarrow>
         if sealed then bind (unSeal v) (\<lambda>_. Exit 0) else Exit 0)
      else bind (initVault v addr) (\<lambda>_. Exit 0)))"

definition vault_init_job :: "unit prog" where
  "vault_init_job = bind init_init init_main"

fun init_body :: "goroutine \<Rightarrow> unit prog" where
  "init_body (UnSealWorker fqdn key needSleep) = unSealWorker fqdn key needSleep"
| "init_body _ = Ret ()"

subsection \<open>The contract of the two copies\<close>

abbreviation unseal_secret :: "string \<times> string \<Rightarrow> namespaced_name" where
  "unseal_secret x \<equiv> (fst x, ''vault-unseal-key'')"

abbreviation token_secret_of :: "string \<times> string \<Rightarrow> namespaced_name" where
  "token_secret_of x \<equiv> (fst x, ''vault-root-token'')"

lemma persist_unseal_key_stores:
  "all_paths (persist_unseal_key x) (\<lambda>t out. \<forall>st. out = Returned () \<longrightarrow> conforms st t \<longrightarrow>
     (\<exists>old. replay st t = st(unseal_secret x \<mapsto> old ++ [''key'' \<mapsto> snd x]) \<and>
       (old = Map.empty \<or> st (unseal_secret x) = Some old)))"
  by (auto simp: persist_unseal_key_def data_set_def split: prod.split option.split sum.split)

lemma persist_root_token_stores:
  "all_paths (persist_root_token x) (\<lambda>t out. \<forall>st. out = Returned () \<longrightarrow> conforms st t \<longrightarrow>
     (\<exists>old. replay st t = st(token_secret_of x \<mapsto> old ++ [''token'' \<mapsto> snd x]) \<and>
       (old = Map.empty \<or> st (token_secret_of x) = Some old)))"
  by (auto simp: persist_root_token_def data_set_def split: prod.split option.split sum.split)

lemma persist_unseal_key_writes:
  "always (persist_unseal_key x) (\<lambda>t. \<forall>st. conforms st t \<longrightarrow> written_keys t \<subseteq> {unseal_secret x})"
  by (auto simp: persist_unseal_key_def data_set_def split: prod.split option.split sum.split)

lemma persist_root_token_writes:
  "always (persist_root_token x) (\<lambda>t. \<forall>st. conforms st t \<longrightarrow> written_keys t \<subseteq> {token_secret_of x})"
  by (auto simp: persist_root_token_def data_set_def split: prod.split option.split sum.split)

lemma persist_unseal_key_exits: "all_paths (persist_unseal_key x) (\<lambda>t out. \<forall>n. out = Exited n \<longrightarrow> n = 1)"
  by (auto simp: persist_unseal_key_def split: prod.split option.split sum.split)

lemma persist_root_token_exits: "all_paths (persist_root_token x) (\<lambda>t out. \<forall>n. out = Exited n \<longrightarrow> n = 1)"
  by (auto simp: persist_root_token_def split: prod.split option.split sum.split)

interpretation unseal_key: secret_upsert persist_unseal_key unseal_secret
  "\<lambda>x. [''key'' \<mapsto> snd x]" "\<lambda>_. True"
proof unfold_locales
  fix x t st
  assume "accepts (persist_unseal_key x) t (Returned ())" and "conforms st t"
  then show "\<exists>old. replay st t = st(unseal_secret x \<mapsto> old ++ [''key'' \<mapsto> snd x]) \<and>
      (old = Map.empty \<or> st (unseal_secret x) = Some old)"
    using all_paths_accepts [OF persist_unseal_key_stores] by blast
next
  show "written_keys t \<subseteq> {unseal_secret x}"
    if "steps (persist_unseal_key x) t = Some p" "conforms st t" for x t p st
    using always_steps [OF persist_unseal_key_writes that(1)] that(2) by blast
  show "n = 1" if "accepts (persist_unseal_key x) t (Exited n)" for x t n
    using all_paths_accepts [OF persist_unseal_key_exits that] by simp
qed

interpretation root_token: secret_upsert persist_root_token token_secret_of
  "\<lambda>x. [''token'' \<mapsto> snd x]" "\<lambda>_. True"
proof unfold_locales
  fix x t st
  assume "accepts (persist_root_token x) t (Returned ())" and "conforms st t"
  then show "\<exists>old. replay st t = st(token_secret_of x \<mapsto> old ++ [''token'' \<mapsto> snd x]) \<and>
      (old = Map.empty \<or> st (token_secret_of x) = Some old)"
    using all_paths_accepts [OF persist_root_token_stores] by blast
next
  show "written_keys t \<subseteq> {token_secret_of x}"
    if "steps (persist_root_token x) t = Some p" "conforms st t" for x t p st
    using always_steps [OF persist_root_token_writes that(1)] that(2) by blast
  show "n = 1" if "accepts (persist_root_token x) t (Exited n)" for x t n
    using all_paths_accepts [OF persist_root_token_exits that] by simp
qed

subsection \<open>The job, goroutine by goroutine\<close>

lemmas init_defs =
  vault_init_job_def init_init_def init_main_def read_namespace_def getClientV_def Let_def
lemmas init_vault_defs = initVault_def go_unseal_def

text \<open>What the main goroutine has done when it leaves the process with code 0 after
  initialising the cluster.\<close>

definition credentials :: "(string \<rightharpoonup> json) \<Rightarrow> string \<Rightarrow> string \<Rightarrow> bool" where
  "credentials data k token \<longleftrightarrow>
     first_key data = Some (JString k) \<and> data ''root_token'' = Some (JString token)"

definition workers :: "string list \<Rightarrow> string \<Rightarrow> bool \<Rightarrow> goroutine list" where
  "workers fqdns key needSleep =
     [UnSealWorker (fqdns ! 0) key False, UnSealWorker (fqdns ! 1) key needSleep,
      UnSealWorker (fqdns ! 2) key needSleep]"

definition persist_both :: "string \<Rightarrow> string \<Rightarrow> json option \<Rightarrow> unit prog" where
  "persist_both ns' k rootToken =
     bind (persist_unseal_key (ns', k)) (\<lambda>_.
       case as_string rootToken of None \<Rightarrow> Panic | Some token \<Rightarrow> persist_root_token (ns', token))"

lemma persist_both_runs:
  "all_paths (persist_both ns' k rootToken) (\<lambda>t out. out \<noteq> Exited 0 \<and>
     (out = Returned () \<longrightarrow> (\<exists>token t1 t2. rootToken = Some (JString token) \<and> t = t1 @ t2 \<and>
        accepts (persist_unseal_key (ns', k)) t1 (Returned ()) \<and>
        accepts (persist_root_token (ns', token)) t2 (Returned ()))))"
proof (rule accepts_all_pathsI)
  fix t out
  assume "accepts (persist_both ns' k rootToken) t out"
  from accepts_bindD [OF this [unfolded persist_both_def]]
  consider t1 t2 x where "t = t1 @ t2" "accepts (persist_unseal_key (ns', k)) t1 (Returned x)"
      "accepts (case as_string rootToken of None \<Rightarrow> Panic
         | Some token \<Rightarrow> persist_root_token (ns', token)) t2 out"
    | n where "out = Exited n" "accepts (persist_unseal_key (ns', k)) t (Exited n)"
    | "out = Panicked"
    by blast
  then show "out \<noteq> Exited 0 \<and>
     (out = Returned () \<longrightarrow> (\<exists>token t1 t2. rootToken = Some (JString token) \<and> t = t1 @ t2 \<and>
        accepts (persist_unseal_key (ns', k)) t1 (Returned ()) \<and>
        accepts (persist_root_token (ns', token)) t2 (Returned ())))"
  proof cases
    case 1
    show ?thesis
    proof (cases "as_string rootToken")
      case None
      with 1(3) show ?thesis by (cases t2) auto
    next
      case (Some token)
      then have token: "rootToken = Some (JString token)" by (auto elim: as_string_SomeE)
      from Some 1(3) have t2: "accepts (persist_root_token (ns', token)) t2 out" by simp
      then have "out \<noteq> Exited 0" using root_token.fails_fatally [of "(ns', token)" t2 0] by auto
      with 1(1,2) t2 token show ?thesis by (cases x) blast
    qed
  next
    case 2
    with unseal_key.fails_fatally [OF 2(2)] show ?thesis by simp
  next
    case 3
    then show ?thesis by simp
  qed
qed

text \<open>The calls of the main goroutine up to the first secret.\<close>

definition init_head ::
    "string \<Rightarrow> (string \<rightharpoonup> json) \<Rightarrow> string list \<Rightarrow> string \<Rightarrow> go_error + string \<Rightarrow> event list" where
  "init_head addr data fqdns k r =
     [EvWgAdd 3, EvAskJson (Initialize addr 1 1) (Inr data)] @ map EvGo (workers fqdns k True) @
     [EvAsk (ReadFile namespace_file) r]"

definition initialised_run ::
    "init_vars \<Rightarrow> string \<Rightarrow> (string \<rightharpoonup> json) \<Rightarrow> string \<Rightarrow> string \<Rightarrow> string \<Rightarrow> event list \<Rightarrow> bool" where
  "initialised_run v addr data ns' k token t \<longleftrightarrow>
     3 \<le> length (vaultFQDNs v) \<and> credentials data k token \<and>
     (\<exists>r t1 t2. ns' = file_contents r \<and> t = init_head addr data (vaultFQDNs v) k r @ t1 @ t2 @ [EvWgWait] \<and>
        accepts (persist_unseal_key (ns', k)) t1 (Returned ()) \<and>
        accepts (persist_root_token (ns', token)) t2 (Returned ()))"

lemma initVault_runs:
  "all_paths (initVault v addr) (\<lambda>t out. out \<noteq> Exited 0 \<and>
     (out = Returned () \<longrightarrow> (\<exists>data ns' k token. initialised_run v addr data ns' k token t)))"
proof -
  have both: "all_paths (persist_both ns' k rootToken) (\<lambda>t out. case out of
        Returned x \<Rightarrow> \<exists>data ns' k token. initialised_run v addr data ns' k token (init_head addr data0 (vaultFQDNs v) k0 r @ t @ [EvWgWait])
      | Exited n \<Rightarrow> n \<noteq> 0 | Panicked \<Rightarrow> True)"
    if "k = k0" "first_key data0 = Some (JString k0)" "rootToken = data0 ''root_token''"
      "2 < length (vaultFQDNs v)" "ns' = file_contents r" for ns' k k0 rootToken data0 r
    using that by (intro all_paths_mono [OF persist_both_runs])
      (fastforce simp: initialised_run_def credentials_def split: outcome.splits)
  show ?thesis
    unfolding initVault_def read_namespace_def persist_both_def [symmetric] go_unseal_def Let_def
    using both
    by (simp split: sum.split option.split add: all_paths_deferred)
      (auto simp: init_head_def workers_def go_index_def elim!: as_string_SomeE split: if_splits)
qed

definition unsealed_run :: "init_vars \<Rightarrow> string \<Rightarrow> event list \<Rightarrow> bool" where
  "unsealed_run v k t \<longleftrightarrow>
     3 \<le> length (vaultFQDNs v) \<and>
     (\<exists>s. k = data_get s ''key'' \<and>
        t = [EvWgAdd 3, EvGetSecret (ns v) ''vault-unseal-key'' (Inr s)] @
          map EvGo (workers (vaultFQDNs v) k False) @ [EvWgWait])"

lemma unSeal_runs:
  "all_paths (unSeal v) (\<lambda>t out. out \<noteq> Exited 0 \<and> (out = Returned () \<longrightarrow> (\<exists>k. unsealed_run v k t)))"
  by (auto simp: unSeal_def go_unseal_def unsealed_run_def workers_def go_index_def Let_def
      split: sum.split option.split if_splits)

text \<open>Where the package variables come from: the calls of \<open>init_init\<close> in a run.\<close>

definition env_vars :: "init_vars \<Rightarrow> event list \<Rightarrow> bool" where
  "env_vars v t \<longleftrightarrow> (\<exists>r cluster domain.
     t = [EvAsk (ReadFile namespace_file) r, EvDo InClusterConfig None, EvDo NewForConfig None,
          EvGetenv ''VAULT_CLUSTER'' cluster, EvGetenv ''KUBERNETES_CLUSTER_DOMAIN'' domain] @
       (case clientV v of None \<Rightarrow> [] | Some addr \<Rightarrow> [EvDo (VaultNew addr ca_file) None]) \<and>
     ns v = file_contents r \<and>
     vaultFQDNs v = map (vault_fqdn (ns v) domain) (strings_Split cluster (CHR '','')) \<and>
     (\<forall>addr. clientV v = Some addr \<longrightarrow> addr = ''https://'' @ vaultFQDNs v ! 0 @ '':8200''))"

lemma init_init_runs:
  "all_paths init_init (\<lambda>t out. out \<noteq> Exited 0 \<and>
     (\<forall>v addr. out = Returned v \<longrightarrow> clientV v = Some addr \<longrightarrow> env_vars v t))"
  by (auto simp: init_defs env_vars_def go_index_def split: sum.split option.split if_splits)

definition health_of :: "(string \<rightharpoonup> json) \<Rightarrow> bool \<Rightarrow> bool \<Rightarrow> bool" where
  "health_of data initialized sealed \<longleftrightarrow> data ''initialized'' = Some (JBool initialized) \<and>
     (initialized \<longrightarrow> data ''sealed'' = Some (JBool sealed))"

text \<open>The rest of a main goroutine that ends the process with code 0, after the health status.\<close>

definition good_end :: "init_vars \<Rightarrow> string \<Rightarrow> (string \<rightharpoonup> json) \<Rightarrow> event list \<Rightarrow> bool" where
  "good_end v addr data u \<longleftrightarrow>
     health_of data True False \<and> u = [] \<or>
     health_of data True True \<and> (\<exists>k. unsealed_run v k u) \<or>
     health_of data False False \<and> (\<exists>resp ns' k token. initialised_run v addr resp ns' k token u)"

lemma init_main_runs:
  "all_paths (init_main v) (\<lambda>t out. (\<forall>x. out \<noteq> Returned x) \<and> (out = Exited 0 \<longrightarrow>
     (\<exists>addr data u. t = EvAskJson (ReadHealthStatus addr) (Inr data) # u \<and>
       clientV v = Some addr \<and> good_end v addr data u)))"
  unfolding init_main_def
  by (auto simp: all_paths_bind health_of_def good_end_def elim!: as_bool_SomeE
      intro!: all_paths_mono [OF unSeal_runs] all_paths_mono [OF initVault_runs]
      split: sum.split option.split outcome.split) blast+

lemma vault_init_job_runs:
  "all_paths vault_init_job (\<lambda>t out. (\<forall>x. out \<noteq> Returned x) \<and> (out = Exited 0 \<longrightarrow>
     (\<exists>v addr data t0 u. t = t0 @ EvAskJson (ReadHealthStatus addr) (Inr data) # u \<and>
       env_vars v t0 \<and> clientV v = Some addr \<and> good_end v addr data u)))"
  unfolding vault_init_job_def
  by (rule all_paths_bindI [OF init_init_runs]; (rule all_paths_mono [OF init_main_runs])?) blast+


end
