(* ===== verification/Vault_Init_Schedules.thy ===== *)
theory Vault_Init_Schedules
  imports Vault_Init
begin

text \<open>
  The process of vault/client-go/init/main.go: the job of \<^verbatim>\<open>Vault_Init\<close> with its three
  unsealing goroutines, under every schedule.  \<open>init_execs ms c\<close> says that the moves \<open>ms\<close> are
  possible and lead to \<open>c\<close>.  The first part shows that only \<^verbatim>\<open>main\<close> writes secrets, starts
  goroutines and ends the process with code 0, the second what must have happened by then.
\<close>

subsection \<open>Every interleaving\<close>

text \<open>What an unsealing goroutine does, whatever the others do.\<close>

lemma unSealWorker_always:
  "always (unSealWorker fqdn key needSleep) (\<lambda>t. filter on_secrets t = [] \<and> add_count t = 0 \<and>
     spawned t = [] \<and> done_count t \<le> 1 \<and> (\<forall>q r. EvAskJson q r \<notin> set t) \<and> EvWgWait \<notin> set t)"
  by (auto simp: unSealWorker_def getClientV_def on_secrets_def Let_def split: option.split sum.split)

lemma unSealWorker_no_add:
  "each_call (\<lambda>e. \<nexists>n. e = EvWgAdd n) (unSealWorker fqdn key needSleep)"
  by (auto simp: unSealWorker_def getClientV_def Let_def split: option.split sum.split)

definition worker_done :: "string \<Rightarrow> string \<Rightarrow> event list \<Rightarrow> bool" where
  "worker_done fqdn key t \<longleftrightarrow>
     EvDo (Unseal (''https://'' @ fqdn @ '':8200'') key) None \<in> set t \<or>
     (\<exists>e. EvDo (VaultNew (''https://'' @ fqdn @ '':8200'') ca_file) (Some e) \<in> set t)"

lemma unSealWorker_done:
  "always (unSealWorker fqdn key needSleep) (\<lambda>t. EvWgDone \<in> set t \<longrightarrow> worker_done fqdn key t)"
  by (auto simp: unSealWorker_def getClientV_def worker_done_def Let_def split: option.split sum.split)

lemma unSealWorker_ends:
  "all_paths (unSealWorker fqdn key needSleep) (\<lambda>t out. out = Exited 1 \<or> out = Returned ())"
  by (auto simp: unSealWorker_def getClientV_def Let_def split: option.split sum.split)


text \<open>The job starts no other goroutines.\<close>

definition init_call :: "event \<Rightarrow> bool" where
  "init_call e \<longleftrightarrow> (case e of EvGo g \<Rightarrow> (\<exists>f k s. g = UnSealWorker f k s) | _ \<Rightarrow> True)"

lemma persist_call: "each_call init_call (persist_unseal_key x)" "each_call init_call (persist_root_token x)"
  by (auto simp: persist_unseal_key_def persist_root_token_def init_call_def
      split: prod.split option.split sum.split)

lemma persist_both_call: "each_call init_call (persist_both ns' k r)"
  unfolding persist_both_def
  by (rule each_call_bind) (auto simp: persist_call split: option.split)

lemma go_unseal_call:
  "each_call init_call k \<Longrightarrow> each_call init_call (go_unseal fqdns i key b k)"
  by (auto simp: go_unseal_def always_conj init_call_def split: option.split)

lemma initVault_call: "each_call init_call (initVault v addr)"
  unfolding initVault_def read_namespace_def persist_both_def [symmetric] Let_def
  by (auto simp: always_conj init_call_def persist_both_call
      intro!: each_call_deferred go_unseal_call split: option.split sum.split)

lemma unSeal_call: "each_call init_call (unSeal v)"
  unfolding unSeal_def Let_def
  by (auto simp: always_conj init_call_def
      intro!: each_call_deferred go_unseal_call split: option.split sum.split)

lemma job_call: "each_call init_call vault_init_job"
  unfolding vault_init_job_def
proof (rule each_call_bind)
  show "each_call init_call init_init"
    by (auto simp: init_defs init_call_def split: option.split sum.split)
  show "each_call init_call (init_main v)" for v
    unfolding init_main_def
    by (auto simp: always_conj init_call_def
      intro!: each_call_bind unSeal_call initVault_call
      split: option.split sum.split)
qed

abbreviation init_execs :: "move list \<Rightarrow> process \<Rightarrow> bool" where
  "init_execs ms c \<equiv> exec init_body (start vault_init_job) ms = Some c"

lemma init_execs_calls: "init_execs ms c \<Longrightarrow> list_all init_call (all_calls ms)"
proof (rule exec_each_call [OF _ job_call])
  fix g
  assume "init_call (EvGo g)"
  then obtain f k s where "g = UnSealWorker f k s" by (auto simp: init_call_def)
  then show "each_call init_call (init_body g)"
    by (auto simp: unSealWorker_def getClientV_def init_call_def Let_def split: option.split sum.split)
qed

lemma init_worker:
  assumes "init_execs ms c" and "0 < i" and "i < length (threads c)"
  obtains f k s where "UnSealWorker f k s \<in> set (spawned (all_calls ms))"
    "steps (unSealWorker f k s) (calls_of i ms) = Some (threads c ! i)"
proof -
  from exec_goroutine [OF assms(1,3)] assms(2) obtain g where
    g: "g \<in> set (spawned (all_calls ms))" "steps (init_body g) (calls_of i ms) = Some (threads c ! i)"
    by blast
  with init_execs_calls [OF assms(1)] have "init_call (EvGo g)"
    by (auto simp: spawned_EvGo list_all_iff)
  then obtain f k s where "g = UnSealWorker f k s" by (auto simp: init_call_def)
  with g that show thesis by simp
qed

lemma init_worker_calls:
  assumes "init_execs ms c" and "Act i e \<in> set ms" and "i \<noteq> 0"
  shows "\<not> on_secrets e" and "e \<noteq> EvWgWait" and "e \<noteq> EvGo g" and "e \<noteq> EvAskJson q r"
proof -
  from Act_in_range [OF assms(1,2)] assms(3) init_worker [OF assms(1)] obtain f k s where
    "steps (unSealWorker f k s) (calls_of i ms) = Some (threads c ! i)" by blast
  from always_steps [OF unSealWorker_always this]
  have *: "filter on_secrets (calls_of i ms) = []" "spawned (calls_of i ms) = []"
    "\<forall>q r. EvAskJson q r \<notin> set (calls_of i ms)" "EvWgWait \<notin> set (calls_of i ms)" by auto
  from assms(2) have e: "e \<in> set (calls_of i ms)" by (simp add: in_calls_of_iff)
  from * e show "\<not> on_secrets e" "e \<noteq> EvWgWait" "e \<noteq> EvAskJson q r"
    by (auto simp: filter_empty_conv)
  from *(2) e show "e \<noteq> EvGo g" using spawned_EvGo [of g "calls_of i ms"] by auto
qed

text \<open>Only \<^verbatim>\<open>main\<close> ends the process with code 0.\<close>

lemma init_exit_0:
  assumes "init_execs ms c" and "exit_code c = Some 0"
  shows "accepts vault_init_job (calls_of 0 ms) (Exited 0)"
proof -
  have "exit_code (start vault_init_job) = None" by (simp add: start_def)
  from exec_exit [OF assms(1) this assms(2)] obtain i where
    i: "i < length (threads c)" "stop_code i (threads c ! i) = Some 0" by auto
  have "i = 0"
  proof (rule ccontr)
    assume "i \<noteq> 0"
    with i(1) init_worker [OF assms(1)] obtain f k s where
      st: "steps (unSealWorker f k s) (calls_of i ms) = Some (threads c ! i)" by blast
    from i(2) obtain out where out: "ended (threads c ! i) = Some out"
      by (auto simp: stop_code_def split: option.splits)
    with st have "accepts (unSealWorker f k s) (calls_of i ms) out" by (simp add: accepts_iff_steps)
    from all_paths_accepts [OF unSealWorker_ends this] out i(2) \<open>i \<noteq> 0\<close> show False
      by (auto simp: stop_code_def)
  qed
  with i obtain out where "ended (threads c ! 0) = Some out" and out: "out = Exited 0 \<or> out = Returned ()"
    by (auto simp: stop_code_def split: option.splits outcome.splits)
  with exec_main [OF assms(1)] have acc: "accepts vault_init_job (calls_of 0 ms) out"
    by (simp add: accepts_iff_steps)
  with all_paths_accepts [OF vault_init_job_runs this] out show ?thesis by auto
qed

text \<open>The secrets are written by \<^verbatim>\<open>main\<close> alone.\<close>

lemma init_main_secrets:
  assumes "init_execs ms c"
  shows "filter on_secrets (all_calls ms) = filter on_secrets (calls_of 0 ms)"
  using init_worker_calls(1) [OF assms] by (rule filter_main_calls)

lemma init_main_starts:
  assumes "init_execs ms c"
  shows "spawned (all_calls ms) = spawned (calls_of 0 ms)"
proof -
  have sf: "spawned (filter (\<lambda>e. \<exists>g. e = EvGo g) t) = spawned t" for t
    by (induction t) (auto split: event.splits)
  have "filter (\<lambda>e. \<exists>g. e = EvGo g) (all_calls ms) = filter (\<lambda>e. \<exists>g. e = EvGo g) (calls_of 0 ms)"
    using init_worker_calls(3) [OF assms] by (intro filter_main_calls) blast
  then show ?thesis using sf by metis
qed

text \<open>The calls of \<^verbatim>\<open>main\<close> in a process that ends with code 0.\<close>

lemma init_runs_0:
  assumes "init_execs ms c" and "exit_code c = Some 0"
  obtains v addr data t0 u where
    "calls_of 0 ms = t0 @ EvAskJson (ReadHealthStatus addr) (Inr data) # u"
    "env_vars v t0" "clientV v = Some addr" "good_end v addr data u"
  using all_paths_accepts [OF vault_init_job_runs init_exit_0 [OF assms]] that by blast

text \<open>Calls that are made only once, in a known place.\<close>

definition rare :: "event \<Rightarrow> bool" where
  "rare e \<longleftrightarrow> (\<exists>q r. e = EvAskJson q r) \<or> (\<exists>n r. e = EvGetenv n r) \<or> (\<exists>g. e = EvGo g)"

lemma rare_simps [simp]:
  "\<not> rare (EvDo a er)" "\<not> rare (EvAsk q qr)" "\<not> rare (EvGetSecret n m sr)" "\<not> rare (EvWgAdd k)"
  "\<not> rare EvWgWait" "rare (EvAskJson jq jr)" "rare (EvGetenv n v)" "rare (EvGo g)"
  by (auto simp: rare_def)

lemma persist_rare:
  "each_call (\<lambda>e. \<not> rare e) (persist_unseal_key x)" "each_call (\<lambda>e. \<not> rare e) (persist_root_token x)"
  by (auto simp: persist_unseal_key_def persist_root_token_def
      split: prod.split option.split sum.split)

lemma initialised_run_rare:
  assumes "initialised_run v addr data ns' k token u"
  shows "filter rare u = EvAskJson (Initialize addr 1 1) (Inr data) #
    map EvGo (workers (vaultFQDNs v) k True)"
proof -
  from assms obtain r t1 t2 where u: "u = init_head addr data (vaultFQDNs v) k r @ t1 @ t2 @ [EvWgWait]"
    and acc: "accepts (persist_unseal_key (ns', k)) t1 (Returned ())"
      "accepts (persist_root_token (ns', token)) t2 (Returned ())"
    unfolding initialised_run_def by blast
  have "filter rare t1 = []" "filter rare t2 = []"
    using always_accepts [OF persist_rare(1) acc(1)] always_accepts [OF persist_rare(2) acc(2)]
    by (auto simp: filter_empty_conv list_all_iff)
  then show ?thesis by (simp add: u init_head_def workers_def)
qed

lemma unsealed_run_rare:
  "unsealed_run v k u \<Longrightarrow> filter rare u = map EvGo (workers (vaultFQDNs v) k False)"
  by (auto simp: unsealed_run_def workers_def)

lemma env_vars_rare:
  "env_vars v t \<Longrightarrow> \<exists>cluster domain. filter rare t =
     [EvGetenv ''VAULT_CLUSTER'' cluster, EvGetenv ''KUBERNETES_CLUSTER_DOMAIN'' domain] \<and>
     vaultFQDNs v = map (vault_fqdn (ns v) domain) (strings_Split cluster (CHR '',''))"
  unfolding env_vars_def by (elim exE conjE) (simp split: option.split)

lemma filter_rare_main:
  assumes "init_execs ms c" and "rare e" and "e \<in> set (all_calls ms)" and "\<And>n r. e \<noteq> EvGetenv n r"
  shows "e \<in> set (filter rare (calls_of 0 ms))"
proof -
  from assms(3) obtain i where i: "Act i e \<in> set ms" by (auto simp: all_calls_iff)
  have "i = 0"
    using init_worker_calls(3,4) [OF assms(1) i] assms(2,4) by (auto simp: rare_def)
  with i assms(2) show ?thesis by (simp add: in_calls_of_iff)
qed

text \<open>A process that has initialised the cluster and ended with code 0.\<close>

lemma init_initialised:
  assumes "init_execs ms c" and "exit_code c = Some 0"
    and "EvAskJson (Initialize addr a b) (Inr data) \<in> set (all_calls ms)"
  obtains v ns' k token t0 u where "calls_of 0 ms = t0 @ u" "initialised_run v addr data ns' k token u"
    "\<exists>t data'. t0 = t @ [EvAskJson (ReadHealthStatus addr) data'] \<and> env_vars v t"
proof -
  from init_runs_0 [OF assms(1,2)] obtain v ad dat t0 u where
    t: "calls_of 0 ms = t0 @ EvAskJson (ReadHealthStatus ad) (Inr dat) # u" and env: "env_vars v t0"
    and good: "good_end v ad dat u" .
  have "EvAskJson (Initialize addr a b) (Inr data) \<in> set (filter rare (calls_of 0 ms))"
    by (rule filter_rare_main [OF assms(1) _ assms(3)]) simp_all
  with env_vars_rare [OF env] have in_u: "EvAskJson (Initialize addr a b) (Inr data) \<in> set (filter rare u)"
    by (auto simp: t simp del: set_filter)
  from good consider "u = []" | k where "unsealed_run v k u"
    | resp ns' k token where "initialised_run v ad resp ns' k token u"
    unfolding good_end_def by blast
  then show thesis
  proof cases
    case 1
    with in_u show thesis by simp
  next
    case 2
    with in_u show thesis by (auto simp: unsealed_run_rare workers_def simp del: set_filter)
  next
    case 3
    with in_u have "addr = ad \<and> data = resp"
      by (auto simp: initialised_run_rare workers_def simp del: set_filter)
    with 3 t env that [of "t0 @ [EvAskJson (ReadHealthStatus ad) (Inr dat)]" u v] show thesis by simp
  qed
qed

subsection \<open>The credentials are kept\<close>

lemma credentials_stored:
  assumes "init_execs ms c" and "exit_code c = Some 0"
    and "EvAskJson (Initialize addr a b) (Inr data) \<in> set (all_calls ms)"
    and "conforms st (all_calls ms)"
  shows "\<exists>r key token mk mt. EvAsk (ReadFile namespace_file) r \<in> set (all_calls ms) \<and>
    first_key data = Some (JString key) \<and> data ''root_token'' = Some (JString token) \<and>
    replay st (all_calls ms) (file_contents r, ''vault-unseal-key'') = Some mk \<and> mk ''key'' = Some key \<and>
    replay st (all_calls ms) (file_contents r, ''vault-root-token'') = Some mt \<and> mt ''token'' = Some token"
proof -
  obtain v ns' k token t0 u where
    t: "calls_of 0 ms = t0 @ u" and run: "initialised_run v addr data ns' k token u"
    by (rule init_initialised [OF assms(1-3)])
  from run obtain r t1 t2 where
    u: "u = init_head addr data (vaultFQDNs v) k r @ t1 @ t2 @ [EvWgWait]" and ns': "ns' = file_contents r"
    and cred: "credentials data k token"
    and t1: "accepts (persist_unseal_key (ns', k)) t1 (Returned ())"
    and t2: "accepts (persist_root_token (ns', token)) t2 (Returned ())"
    unfolding initialised_run_def by blast
  define s where "s = replay st (t0 @ init_head addr data (vaultFQDNs v) k r)"
  have "replay st (all_calls ms) = replay st (calls_of 0 ms)" and "conforms st (calls_of 0 ms)"
    using replay_cong_filter [OF init_main_secrets [OF assms(1)]] assms(4)
      conforms_filter [of st "all_calls ms"] conforms_filter [of st "calls_of 0 ms"]
      init_main_secrets [OF assms(1)] by simp_all
  then have end_eq: "replay st (all_calls ms) = replay s (t1 @ t2)"
    and c1: "conforms s t1" and c2: "conforms (replay s t1) t2"
    by (simp_all add: t u s_def)
  from t2 obtain p where "steps (persist_root_token (ns', token)) t2 = Some p"
    by (auto simp: accepts_iff_steps)
  from root_token.writes_key [OF this c2]
  have "unseal_secret (ns', k) \<notin> written_keys t2" by auto
  from unseal_key.stored_stays [OF t1 TrueI c1 this] root_token.stored [OF t2 TrueI c2]
  obtain mk mt where "replay s (t1 @ t2) (ns', ''vault-unseal-key'') = Some mk" "mk ''key'' = Some k"
    "replay s (t1 @ t2) (ns', ''vault-root-token'') = Some mt" "mt ''token'' = Some token"
    by (auto simp: map_le_def)
  moreover have "EvAsk (ReadFile namespace_file) r \<in> set (all_calls ms)"
    using calls_of_subset [of _ 0 ms] by (simp add: t u init_head_def)
  ultimately show ?thesis using cred by (auto simp: end_eq ns' credentials_def)
qed

text \<open>C3: whenever the job ends with exit code 0 after it has initialised the cluster, in
  whatever order the goroutines ran, the unseal key and the root token of Vault's reply are
  stored in the two Secrets of the job's namespace.\<close>

theorem init_credentials_kept:
  assumes "init_execs ms c" and "exit_code c = Some 0"
    and "EvAskJson (Initialize addr a b) (Inr data) \<in> set (all_calls ms)"
    and "conforms st (all_calls ms)"
  shows "\<exists>r key token mk mt. EvAsk (ReadFile namespace_file) r \<in> set (all_calls ms) \<and>
    first_key data = Some (JString key) \<and> data ''root_token'' = Some (JString token) \<and>
    replay st (all_calls ms) (file_contents r, ''vault-unseal-key'') = Some mk \<and> mk ''key'' = Some key \<and>
    replay st (all_calls ms) (file_contents r, ''vault-root-token'') = Some mt \<and> mt ''token'' = Some token"
  using assms by (rule credentials_stored)

lemma done_worker:
  assumes "init_execs ms c" and "spawned (all_calls ms) = map (\<lambda>i. UnSealWorker (f i) k (b i)) [0..<3]"
    and "add_count (all_calls ms) = 3" and "add_count (all_calls ms) = done_count (all_calls ms)"
    and "done_count (calls_of 0 ms) = 0" and "j < 3"
  shows "EvWgDone \<in> set (calls_of (Suc j) ms) \<and> worker_done (f j) k (all_calls ms)"
proof -
  from exec_started [OF assms(1)] assms(2) have len: "length (threads c) = 4"
    and st: "started c = vault_init_job # map (\<lambda>i. unSealWorker (f i) k (b i)) [0..<3]" by simp_all
  have w: "steps (unSealWorker (f i) k (b i)) (calls_of (Suc i) ms) = Some (threads c ! Suc i)" if "i < 3" for i
    using exec_started_thread [OF assms(1), of "Suc i"] that len st by (simp del: upt_Suc)
  have le: "done_count (calls_of i ms) \<le> 1" if "0 < i" "i < length (threads c)" for i
    using always_steps [OF unSealWorker_always w [of "i - 1"]] that len by simp
  have finished: "EvWgDone \<in> set (calls_of (Suc j) ms)"
    using assms(3-6) len by (intro all_done [OF assms(1) _ le]) simp_all
  with always_steps [OF unSealWorker_done w [OF assms(6)]]
  have "worker_done (f j) k (calls_of (Suc j) ms)" by simp
  with finished show ?thesis by (auto simp: worker_done_def dest: calls_of_subset)
qed

subsection \<open>Every node is unsealed\<close>

definition wg_call :: "event \<Rightarrow> bool" where
  "wg_call e \<longleftrightarrow> e = EvWgWait \<or> e = EvWgDone \<or> (\<exists>n. e = EvWgAdd n)"

lemma persist_wg:
  "each_call (\<lambda>e. \<not> wg_call e) (persist_unseal_key x)" "each_call (\<lambda>e. \<not> wg_call e) (persist_root_token x)"
  by (auto simp: persist_unseal_key_def persist_root_token_def wg_call_def
      split: prod.split option.split sum.split)

lemma no_wg_calls:
  "list_all (\<lambda>e. \<not> wg_call e) t \<Longrightarrow> EvWgWait \<notin> set t \<and> add_count t = 0 \<and> done_count t = 0"
  by (induction t) (auto simp: wg_call_def split: event.splits)

lemma no_go_calls: "list_all (\<lambda>e. \<not> rare e) t \<Longrightarrow> spawned t = []"
  by (induction t) (auto split: event.splits)

text \<open>Both ways of unsealing start three goroutines and wait for them.\<close>

definition barrier_run :: "string list \<Rightarrow> string \<Rightarrow> event list \<Rightarrow> bool" where
  "barrier_run fqdns k u \<longleftrightarrow> (\<exists>pre b. u = pre @ [EvWgWait] \<and> EvWgWait \<notin> set pre \<and>
     spawned pre = workers fqdns k b \<and> add_count pre = 3 \<and> done_count pre = 0)"

lemma unsealed_run_barrier: "unsealed_run v k u \<Longrightarrow> barrier_run (vaultFQDNs v) k u"
  unfolding unsealed_run_def barrier_run_def
  by (elim conjE exE, intro exI conjI) (auto simp: workers_def)

lemma initialised_run_barrier:
  assumes "initialised_run v addr data ns' k token u"
  shows "barrier_run (vaultFQDNs v) k u"
proof -
  from assms obtain r t1 t2 where u: "u = init_head addr data (vaultFQDNs v) k r @ t1 @ t2 @ [EvWgWait]"
    and acc: "accepts (persist_unseal_key (ns', k)) t1 (Returned ())"
      "accepts (persist_root_token (ns', token)) t2 (Returned ())"
    unfolding initialised_run_def by blast
  note wg = no_wg_calls [OF always_accepts [OF persist_wg(1) acc(1)]]
    no_wg_calls [OF always_accepts [OF persist_wg(2) acc(2)]]
    no_go_calls [OF always_accepts [OF persist_rare(1) acc(1)]]
    no_go_calls [OF always_accepts [OF persist_rare(2) acc(2)]]
  show ?thesis
    unfolding barrier_run_def using wg
    by (intro exI [of _ "init_head addr data (vaultFQDNs v) k r @ t1 @ t2"] exI [of _ True])
      (simp add: u init_head_def workers_def)
qed

lemma env_vars_wg:
  "env_vars v t \<Longrightarrow> EvWgWait \<notin> set t \<and> add_count t = 0 \<and> done_count t = 0 \<and> spawned t = []"
  unfolding env_vars_def by (elim exE conjE) (simp split: option.split)

lemma add_count_main:
  assumes "init_execs ms c"
  shows "add_count (all_calls ms) = add_count (calls_of 0 ms)"
proof -
  have fl: "add_count (filter (\<lambda>e. \<exists>n. e = EvWgAdd n) t) = add_count t" for t
    by (induction t) (auto split: event.splits)
  have "e \<noteq> EvWgAdd n" if "Act i e \<in> set ms" "i \<noteq> 0" for i e n
  proof -
    from Act_in_range [OF assms that(1)] that(2) init_worker [OF assms] obtain f k s where
      "steps (unSealWorker f k s) (calls_of i ms) = Some (threads c ! i)" by blast
    from always_steps [OF unSealWorker_no_add this] that(1) show ?thesis
      by (auto simp: list_all_iff in_calls_of_iff)
  qed
  then have "filter (\<lambda>e. \<exists>n. e = EvWgAdd n) (all_calls ms) = filter (\<lambda>e. \<exists>n. e = EvWgAdd n) (calls_of 0 ms)"
    by (intro filter_main_calls) blast
  then show ?thesis using fl by metis
qed

text \<open>When \<^verbatim>\<open>main\<close> has come through the barrier, every goroutine is done.\<close>

lemma init_barrier:
  assumes "init_execs ms c" and "calls_of 0 ms = t0 @ u" and "barrier_run fqdns k u"
    and "EvWgWait \<notin> set t0" "add_count t0 = 0" "done_count t0 = 0" "spawned t0 = []"
  shows "\<forall>i < 3. EvWgDone \<in> set (calls_of (Suc i) ms) \<and> worker_done (fqdns ! i) k (all_calls ms)"
proof -
  from assms(3) obtain pre b where u: "u = pre @ [EvWgWait]" and pre: "EvWgWait \<notin> set pre"
    "spawned pre = workers fqdns k b" "add_count pre = 3" "done_count pre = 0"
    unfolding barrier_run_def by blast
  have "EvWgWait \<in> set (calls_of 0 ms)" by (simp add: assms(2) u)
  from wait_barrier [OF assms(1) this] obtain ms1 ms2 c1 where
    ms: "ms = ms1 @ Act 0 EvWgWait # ms2" and c1: "init_execs ms1 c1"
    and bal: "add_count (all_calls ms1) = done_count (all_calls ms1)" .
  from ms have "calls_of 0 ms1 @ EvWgWait # calls_of 0 ms2 = (t0 @ pre) @ EvWgWait # []"
    using assms(2) by (simp add: u)
  moreover have "EvWgWait \<notin> set (t0 @ pre)" using assms(4) pre(1) by simp
  ultimately have c0: "calls_of 0 ms1 = t0 @ pre"
    by (auto simp: append_eq_Cons_conv append_eq_append_conv2 Cons_eq_append_conv)
  have w: "workers fqdns k b = map (\<lambda>i. UnSealWorker (fqdns ! i) k (i \<noteq> 0 \<and> b)) [0..<3]"
    by (simp add: workers_def upt_rec numeral_2_eq_2)
  have "EvWgDone \<in> set (calls_of (Suc i) ms1) \<and> worker_done (fqdns ! i) k (all_calls ms1)" if "i < 3" for i
    using that bal pre assms(5-7) add_count_main [OF c1]
    by (intro done_worker [OF c1, where f = "\<lambda>i. fqdns ! i" and b = "\<lambda>i. i \<noteq> 0 \<and> b"])
      (simp_all add: init_main_starts [OF c1] c0 w)
  then show ?thesis by (auto simp: worker_done_def ms)
qed

lemma run_nodes:
  "unsealed_run v k u \<Longrightarrow> 3 \<le> length (vaultFQDNs v)"
  "initialised_run v addr resp ns' k token u \<Longrightarrow> 3 \<le> length (vaultFQDNs v)"
  by (simp_all add: unsealed_run_def initialised_run_def)

text \<open>C4: when the job ends with exit code 0 and the cluster was not already up, then, in
  every interleaving, each of the three nodes named by VAULT_CLUSTER has accepted the unseal
  key, or the client to it could not be built (which the worker does not report).\<close>

theorem init_all_unsealed:
  assumes "init_execs ms c" and "exit_code c = Some 0"
    and "EvAskJson (ReadHealthStatus addr) (Inr data) \<in> set (all_calls ms)"
    and "\<not> health_of data True False"
  shows "\<exists>ns' cluster domain key. EvGetenv ''VAULT_CLUSTER'' cluster \<in> set (all_calls ms) \<and>
    3 \<le> length (strings_Split cluster (CHR '','')) \<and>
    (\<forall>i < 3. worker_done (vault_fqdn ns' domain (strings_Split cluster (CHR '','') ! i)) key
       (all_calls ms))"
proof -
  from init_runs_0 [OF assms(1,2)] obtain v ad dat t0 u where
    t: "calls_of 0 ms = t0 @ EvAskJson (ReadHealthStatus ad) (Inr dat) # u" and env: "env_vars v t0"
    and good: "good_end v ad dat u" .
  from env_vars_rare [OF env] obtain cluster domain where
    rare_t0: "filter rare t0 =
      [EvGetenv ''VAULT_CLUSTER'' cluster, EvGetenv ''KUBERNETES_CLUSTER_DOMAIN'' domain]"
    and fqdns: "vaultFQDNs v = map (vault_fqdn (ns v) domain) (strings_Split cluster (CHR '',''))"
    by blast
  have in_main: "EvAskJson (ReadHealthStatus addr) (Inr data) \<in> set (filter rare (calls_of 0 ms))"
    by (rule filter_rare_main [OF assms(1) _ assms(3)]) simp_all
  from good have "barrier_run (vaultFQDNs v) k u \<and> 3 \<le> length (vaultFQDNs v)"
    if "unsealed_run v k u \<or> (\<exists>resp ns' token. initialised_run v ad resp ns' k token u)" for k
    using that unsealed_run_barrier initialised_run_barrier run_nodes by blast
  moreover have "\<exists>k. unsealed_run v k u \<or> (\<exists>resp ns' token. initialised_run v ad resp ns' k token u)"
    using good in_main rare_t0 assms(4) by (auto simp: t good_end_def simp del: set_filter)
  ultimately obtain k where bar: "barrier_run (vaultFQDNs v) k u" and len: "3 \<le> length (vaultFQDNs v)"
    by blast
  from env_vars_wg [OF env]
  have done_all: "\<forall>i < 3. worker_done (vaultFQDNs v ! i) k (all_calls ms)"
    using init_barrier [OF assms(1) _ bar,
          of "t0 @ [EvAskJson (ReadHealthStatus ad) (Inr dat)]"] by (simp add: t)
  have "EvGetenv ''VAULT_CLUSTER'' cluster \<in> set (filter rare t0)" by (simp only: rare_t0) simp
  then have "EvGetenv ''VAULT_CLUSTER'' cluster \<in> set (all_calls ms)"
    by (auto simp: t intro: calls_of_subset [of _ 0])
  moreover have "3 \<le> length (strings_Split cluster (CHR '',''))" using len by (simp add: fqdns)
  ultimately show ?thesis using done_all
    by (intro exI [of _ "ns v"] exI [of _ cluster] exI [of _ domain] exI [of _ k]) (simp add: fqdns)
qed

subsection \<open>What the job does not do\<close>

lemma initVault_few:
  "length (vaultFQDNs v) < 3 \<Longrightarrow> each_call (\<lambda>e. \<not> on_secrets e) (initVault v addr)"
  by (auto simp: initVault_def go_unseal_def go_index_def on_secrets_def Let_def
      split: sum.split option.split)

definition few_nodes :: "event list \<Rightarrow> bool" where
  "few_nodes t \<longleftrightarrow> (\<exists>cluster. EvGetenv ''VAULT_CLUSTER'' cluster \<in> set t \<and>
     length (strings_Split cluster (CHR '','')) < 3)"

definition init_only :: "string \<Rightarrow> event \<Rightarrow> bool" where
  "init_only addr e \<longleftrightarrow>
     (\<forall>a b c r. e = EvAskJson (Initialize a b c) r \<longrightarrow> a = addr \<and> b = 1 \<and> c = 1)"

lemma initVault_only: "each_call (init_only addr) (initVault v addr)"
proof -
  have p: "each_call (init_only addr) (persist_unseal_key x)"
    "each_call (init_only addr) (persist_root_token x)" for x
    by (auto simp: persist_unseal_key_def persist_root_token_def init_only_def
        split: prod.split option.split sum.split)
  have "each_call (init_only addr) (persist_both ns' k r)" for ns' k r
    unfolding persist_both_def by (rule each_call_bind) (auto simp: p split: option.split)
  then show ?thesis
    unfolding initVault_def read_namespace_def persist_both_def [symmetric] go_unseal_def Let_def
    by (auto simp: always_conj init_only_def intro!: each_call_deferred split: option.split sum.split)
qed

lemma unSeal_only: "each_call (\<lambda>e. \<forall>q r. e \<noteq> EvAskJson q r) (unSeal v)"
  by (auto simp: unSeal_def go_unseal_def always_conj Let_def intro!: each_call_deferred
      split: option.split sum.split)

definition asked_health :: "event list \<Rightarrow> string \<Rightarrow> (string \<rightharpoonup> json) \<Rightarrow> bool" where
  "asked_health t addr data \<longleftrightarrow> EvAskJson (ReadHealthStatus addr) (Inr data) \<in> set t"

definition only_if_needed :: "event list \<Rightarrow> bool" where
  "only_if_needed t \<longleftrightarrow>
     ((\<exists>g. EvGo g \<in> set t) \<or> (\<exists>e \<in> set t. secret_write e \<noteq> None) \<longrightarrow>
        (\<exists>addr data. asked_health t addr data \<and> \<not> health_of data True False)) \<and>
     (\<forall>addr a b r. EvAskJson (Initialize addr a b) r \<in> set t \<longrightarrow> a = 1 \<and> b = 1 \<and>
        (\<exists>data. asked_health t addr data \<and> data ''initialized'' = Some (JBool False)))"

definition init_harmless :: "event \<Rightarrow> bool" where
  "init_harmless e \<longleftrightarrow> (\<forall>g. e \<noteq> EvGo g) \<and> secret_write e = None \<and> (\<forall>q r. e \<noteq> EvAskJson q r)"

lemma init_init_harmless: "each_call init_harmless init_init"
  by (auto simp: init_defs init_harmless_def split: sum.split option.split)

lemma only_if_needed_append:
  "list_all init_harmless t \<Longrightarrow> only_if_needed t' \<Longrightarrow> only_if_needed (t @ t')"
proof -
  assume "list_all init_harmless t"
  then have "EvGo g \<notin> set t" "\<And>e. e \<in> set t \<Longrightarrow> secret_write e = None" "EvAskJson q r \<notin> set t"
    for g q r by (auto simp: init_harmless_def list_all_iff)
  then show "only_if_needed t' \<Longrightarrow> only_if_needed (t @ t')"
    by (auto simp: only_if_needed_def asked_health_def)
qed

lemma only_if_needed_initialise:
  "list_all (init_only addr) t \<Longrightarrow> data ''initialized'' = Some (JBool False) \<Longrightarrow>
   only_if_needed (EvAskJson (ReadHealthStatus addr) (Inr data) # t)"
  by (fastforce simp: only_if_needed_def asked_health_def init_only_def health_of_def list_all_iff)

lemma only_if_needed_unseal:
  "list_all (\<lambda>e. \<forall>q r. e \<noteq> EvAskJson q r) t \<Longrightarrow> data ''sealed'' = Some (JBool True) \<Longrightarrow>
   only_if_needed (EvAskJson (ReadHealthStatus addr) (Inr data) # t)"
  by (fastforce simp: only_if_needed_def asked_health_def health_of_def list_all_iff)

lemma only_if_needed_nothing:
  "only_if_needed []" "only_if_needed [EvAskJson (ReadHealthStatus addr) r]"
  by (auto simp: only_if_needed_def)

lemma init_main_only_if_needed: "always (init_main v) only_if_needed"
proof -
  have "always (bind (initVault v addr) (\<lambda>_. Exit 0))
      (\<lambda>t. only_if_needed (EvAskJson (ReadHealthStatus addr) (Inr data) # t))"
    if "data ''initialized'' = Some (JBool False)" for addr data
    by (rule always_mono [OF each_call_bind [OF initVault_only]])
      (simp_all add: only_if_needed_initialise that)
  moreover have "always (bind (unSeal v) (\<lambda>_. Exit 0))
      (\<lambda>t. only_if_needed (EvAskJson (ReadHealthStatus addr) (Inr data) # t))"
    if "data ''sealed'' = Some (JBool True)" for addr data
    by (rule always_mono [OF each_call_bind [OF unSeal_only]])
      (simp_all add: only_if_needed_unseal that)
  ultimately show ?thesis
    unfolding init_main_def
    by (auto simp: only_if_needed_nothing elim!: as_bool_SomeE split: option.split sum.split)
qed

lemma job_only_if_needed: "always vault_init_job only_if_needed"
  unfolding vault_init_job_def
proof (rule always_bindI [OF init_init_harmless])
  show "only_if_needed t" if "list_all init_harmless t" for t
    using only_if_needed_append [OF that only_if_needed_nothing(1)] by simp
  show "always (init_main v) (\<lambda>t'. only_if_needed (t @ t'))" if "list_all init_harmless t" for t v
    by (rule always_mono [OF init_main_only_if_needed]) (rule only_if_needed_append [OF that])
qed

text \<open>C22: the job touches the cluster only when it has to, at every moment of every
  interleaving: it starts an unsealing goroutine or writes a secret only after a health
  status that did not say "initialized and unsealed", and it initialises (always with one key
  share and threshold one) only the node whose status said "not initialized".\<close>

theorem init_only_if_needed:
  assumes "init_execs ms c"
  shows "((\<exists>g. EvGo g \<in> set (all_calls ms)) \<or> written_keys (all_calls ms) \<noteq> {} \<longrightarrow>
      (\<exists>addr data. EvAskJson (ReadHealthStatus addr) (Inr data) \<in> set (all_calls ms) \<and>
        \<not> health_of data True False)) \<and>
    (\<forall>addr a b r. EvAskJson (Initialize addr a b) r \<in> set (all_calls ms) \<longrightarrow> a = 1 \<and> b = 1 \<and>
      (\<exists>data. EvAskJson (ReadHealthStatus addr) (Inr data) \<in> set (all_calls ms) \<and>
        data ''initialized'' = Some (JBool False)))"
proof -
  from always_steps [OF job_only_if_needed exec_main [OF assms]]
  have main: "only_if_needed (calls_of 0 ms)" .
  have sub: "asked_health (calls_of 0 ms) addr data \<Longrightarrow>
      EvAskJson (ReadHealthStatus addr) (Inr data) \<in> set (all_calls ms)" for addr data
    by (simp add: asked_health_def calls_of_subset)
  have writes: "\<exists>e \<in> set (calls_of 0 ms). secret_write e \<noteq> None" if "written_keys (all_calls ms) \<noteq> {}"
  proof -
    from that obtain e where e: "e \<in> set (all_calls ms)" "secret_write e \<noteq> None"
      by (auto simp: written_keys_def split: option.splits)
    then have "e \<in> set (filter on_secrets (all_calls ms))" by (simp add: on_secrets_def)
    with e(2) show ?thesis by (auto simp: init_main_secrets [OF assms])
  qed
  have go: "EvGo g \<in> set (calls_of 0 ms)" if "EvGo g \<in> set (all_calls ms)" for g
    using filter_rare_main [OF assms _ that] by simp
  have ask: "EvAskJson q r \<in> set (calls_of 0 ms)" if "EvAskJson q r \<in> set (all_calls ms)" for q r
    using filter_rare_main [OF assms _ that] by simp
  show ?thesis
    using main sub go ask writes unfolding only_if_needed_def by blast
qed

lemma init_main_no_env: "each_call (\<lambda>e. \<forall>n r. e \<noteq> EvGetenv n r) (init_main v)"
proof -
  let ?P = "\<lambda>e. \<forall>n r. e \<noteq> EvGetenv n r"
  have p: "each_call ?P (persist_unseal_key x)" "each_call ?P (persist_root_token x)" for x
    by (auto simp: persist_unseal_key_def persist_root_token_def
        split: prod.split option.split sum.split)
  have both: "each_call ?P (persist_both ns' k r)" for ns' k r
    unfolding persist_both_def by (rule each_call_bind) (auto simp: p split: option.split)
  have "each_call ?P (initVault v addr)" for addr
    unfolding initVault_def read_namespace_def persist_both_def [symmetric] go_unseal_def Let_def
    by (auto simp: always_conj both intro!: each_call_deferred split: option.split sum.split)
  moreover have "each_call ?P (unSeal v)"
    by (auto simp: unSeal_def go_unseal_def always_conj Let_def intro!: each_call_deferred
      split: option.split sum.split)
  ultimately show ?thesis
    unfolding init_main_def
    by (auto simp: always_conj intro!: each_call_bind split: option.split sum.split)
qed

lemma unSeal_no_write: "each_call (\<lambda>e. secret_write e = None) (unSeal v)"
  by (auto simp: unSeal_def go_unseal_def always_conj Let_def intro!: each_call_deferred
      split: option.split sum.split)

lemma init_main_few:
  assumes "length (vaultFQDNs v) < 3"
  shows "each_call (\<lambda>e. secret_write e = None) (init_main v)"
proof -
  from initVault_few [OF assms] have "each_call (\<lambda>e. secret_write e = None) (initVault v addr)" for addr
    by (rule always_mono) (auto simp: list_all_iff off_secrets)
  then show ?thesis
    unfolding init_main_def
    by (auto simp: always_conj intro!: each_call_bind unSeal_no_write split: option.split sum.split)
qed

lemma env_vars_few:
  "env_vars v t \<Longrightarrow> few_nodes (t @ t') \<Longrightarrow> list_all (\<lambda>e. \<forall>n r. e \<noteq> EvGetenv n r) t' \<Longrightarrow>
     length (vaultFQDNs v) < 3"
  unfolding env_vars_def few_nodes_def list_all_iff
  by (elim exE conjE) (auto split: option.splits)

lemma job_few: "always vault_init_job (\<lambda>t. few_nodes t \<longrightarrow> list_all (\<lambda>e. secret_write e = None) t)"
proof -
  have init: "each_call (\<lambda>e. secret_write e = None) init_init"
    by (rule always_mono [OF init_init_harmless]) (auto simp: init_harmless_def list_all_iff)
  have "always (init_main v) (\<lambda>t'. few_nodes (t @ t') \<longrightarrow> list_all (\<lambda>e. secret_write e = None) (t @ t'))"
    if "accepts init_init t (Returned v)" for t v
  proof (cases "clientV v")
    case None
    with always_accepts [OF init that] show ?thesis by (simp add: init_main_def)
  next
    case (Some addr)
    with all_paths_accepts [OF init_init_runs that] have env: "env_vars v t" by simp
    show ?thesis
    proof (cases "length (vaultFQDNs v) < 3")
      case True
      show ?thesis
        by (rule always_mono [OF init_main_few [OF True]]) (simp add: always_accepts [OF init that])
    next
      case False
      show ?thesis
        by (rule always_mono [OF init_main_no_env]) (use False env_vars_few [OF env] in blast)
    qed
  qed
  then show ?thesis
    unfolding vault_init_job_def always_bind
    by (auto intro: accepts_all_pathsI always_mono [OF init])
qed

text \<open>With fewer than three nodes in VAULT_CLUSTER the job never writes a secret, in no
  interleaving, so the credentials of a cluster it has just initialised are lost; and it ends
  with code 0 only if the cluster was initialized and unsealed to begin with.\<close>

theorem init_few_nodes:
  assumes "init_execs ms c" and "EvGetenv ''VAULT_CLUSTER'' cluster \<in> set (calls_of 0 ms)"
    and "length (strings_Split cluster (CHR '','')) < 3"
  shows "written_keys (all_calls ms) = {} \<and>
    (exit_code c = Some 0 \<longrightarrow> (\<exists>addr data.
       EvAskJson (ReadHealthStatus addr) (Inr data) \<in> set (all_calls ms) \<and> health_of data True False))"
proof
  have few: "few_nodes (calls_of 0 ms)" using assms(2,3) by (auto simp: few_nodes_def)
  with always_steps [OF job_few exec_main [OF assms(1)]]
  have "list_all (\<lambda>e. secret_write e = None) (calls_of 0 ms)" by simp
  then have main: "written_keys (calls_of 0 ms) = {}" by (auto simp: written_keys_def list_all_iff)
  from main init_main_secrets [OF assms(1)] written_keys_filter [of "all_calls ms"]
    written_keys_filter [of "calls_of 0 ms"]
  show "written_keys (all_calls ms) = {}" by simp
  show "exit_code c = Some 0 \<longrightarrow> (\<exists>addr data.
       EvAskJson (ReadHealthStatus addr) (Inr data) \<in> set (all_calls ms) \<and> health_of data True False)"
  proof
    assume "exit_code c = Some 0"
    from init_runs_0 [OF assms(1) this] obtain v addr data t0 u where
      t: "calls_of 0 ms = t0 @ EvAskJson (ReadHealthStatus addr) (Inr data) # u" and env: "env_vars v t0"
      and good: "good_end v addr data u" .
    from good have "health_of data True False \<or> 3 \<le> length (vaultFQDNs v) \<and> (\<forall>n r. EvGetenv n r \<notin> set (filter rare u))"
      unfolding good_end_def
      by (auto simp: unsealed_run_rare initialised_run_rare run_nodes workers_def simp del: set_filter)
    moreover have "length (vaultFQDNs v) < 3" if "\<forall>n r. EvGetenv n r \<notin> set (filter rare u)"
      using env_vars_few [OF env few [unfolded t]] that by (auto simp: list_all_iff)
    ultimately have "health_of data True False" by fastforce
    moreover have "EvAskJson (ReadHealthStatus addr) (Inr data) \<in> set (all_calls ms)"
      using calls_of_subset [of _ 0 ms] by (simp add: t)
    ultimately show "\<exists>addr data.
       EvAskJson (ReadHealthStatus addr) (Inr data) \<in> set (all_calls ms) \<and> health_of data True False"
      by blast
  qed
qed

subsection \<open>Schedules\<close>

text \<open>Moves shared by the schedules below: \<^verbatim>\<open>main\<close> up to the health status, for a cluster of the
  named nodes in the namespace "sip", and one worker that unseals its node.\<close>

definition sample_fqdn :: "string \<Rightarrow> string" where
  "sample_fqdn v = vault_fqdn ''sip'' ''local'' v"

definition sample_addr :: "string \<Rightarrow> string" where
  "sample_addr v = ''https://'' @ sample_fqdn v @ '':8200''"

definition sample_init :: "(string \<rightharpoonup> json) \<Rightarrow> string \<Rightarrow> move list" where
  "sample_init data cluster = map (Act 0)
     [EvAsk (ReadFile namespace_file) (Inr ''sip''), EvDo InClusterConfig None, EvDo NewForConfig None,
      EvGetenv ''VAULT_CLUSTER'' cluster, EvGetenv ''KUBERNETES_CLUSTER_DOMAIN'' ''local'',
      EvDo (VaultNew (sample_addr ''a'') ca_file) None,
      EvAskJson (ReadHealthStatus (sample_addr ''a'')) (Inr data)]"

definition sample_data :: "string \<rightharpoonup> json" where
  "sample_data = [''keys_base64'' \<mapsto> JArray [JString ''K''], ''root_token'' \<mapsto> JString ''T'']"

definition sample_start :: "event list" where
  "sample_start = [EvWgAdd 3, EvAskJson (Initialize (sample_addr ''a'') 1 1) (Inr sample_data)] @
     map EvGo (workers [sample_fqdn ''a'', sample_fqdn ''b'', sample_fqdn ''c''] ''K'' True)"

definition sample_worker :: "nat \<Rightarrow> string \<Rightarrow> bool \<Rightarrow> move list" where
  "sample_worker i v needSleep = map (Act i)
     ([EvDo (VaultNew (sample_addr v) ca_file) None] @ (if needSleep then [EvSleep 8] else []) @
      [EvDo (Unseal (sample_addr v) ''K'') None, EvWgDone])"

definition sample_persist :: "event list" where
  "sample_persist = [EvAsk (ReadFile namespace_file) (Inr ''sip''),
     EvDo (CreateSecret ''sip'' (credential_secret ''vault-unseal-key'' [] ''key'' ''K'')) None,
     EvDo (CreateSecret ''sip'' (credential_secret ''vault-root-token'' ''sip'' ''token'' ''T'')) None]"

definition fresh :: "string \<rightharpoonup> json" where
  "fresh = [''initialized'' \<mapsto> JBool False, ''sealed'' \<mapsto> JBool True]"

definition sample_good :: "move list" where
  "sample_good = sample_init fresh ''a,b,c'' @ map (Act 0) sample_start @ sample_worker 1 ''a'' False @
     map (Act 0) sample_persist @ sample_worker 3 ''c'' True @ sample_worker 2 ''b'' True @
     [Act 0 EvWgWait, Stop 0]"

lemmas sample_defs = sample_fqdn_def sample_addr_def sample_init_def sample_data_def sample_start_def
  sample_worker_def sample_persist_def fresh_def workers_def

lemmas job_defs = init_init_def init_main_def read_namespace_def getClientV_def initVault_def
  go_unseal_def vault_init_job_def vault_fqdn_def VAULT_INTERNAL_SERVICE_NAME_def
  persist_unseal_key_def persist_root_token_def unSealWorker_def file_contents_def first_key_def

lemma split_abc [simp]:
  "strings_Split ''a,b,c'' (CHR '','') = [''a'', ''b'', ''c'']" "strings_Split ''a'' (CHR '','') = [''a'']"
  by code_simp+

lemma sample_good_exec:
  "\<exists>c. init_execs sample_good c \<and> exit_code c = Some 0"
  by (simp add: sample_good_def sample_defs job_defs start_def shared_effect_def stop_code_def go_index_def Let_def)

lemma sample_good_calls:
  "EvAskJson (Initialize (sample_addr ''a'') 1 1) (Inr sample_data) \<in> set (all_calls sample_good)"
  "EvAskJson (ReadHealthStatus (sample_addr ''a'')) (Inr fresh) \<in> set (all_calls sample_good)"
  "conforms Map.empty (all_calls sample_good)"
  by (simp_all add: sample_good_def sample_defs reply_ok_def)

theorem init_credentials_kept_witness:
  "\<exists>c r key token mk mt. init_execs sample_good c \<and>
    EvAsk (ReadFile namespace_file) r \<in> set (all_calls sample_good) \<and>
    first_key sample_data = Some (JString key) \<and> sample_data ''root_token'' = Some (JString token) \<and>
    replay Map.empty (all_calls sample_good) (file_contents r, ''vault-unseal-key'') = Some mk \<and>
    mk ''key'' = Some key \<and>
    replay Map.empty (all_calls sample_good) (file_contents r, ''vault-root-token'') = Some mt \<and>
    mt ''token'' = Some token"
proof -
  obtain c where c: "init_execs sample_good c" "exit_code c = Some 0" using sample_good_exec by blast
  from init_credentials_kept [OF c sample_good_calls(1,3)] c show ?thesis by blast
qed

theorem init_all_unsealed_witness:
  "\<exists>c ns' cluster domain key. init_execs sample_good c \<and>
    EvGetenv ''VAULT_CLUSTER'' cluster \<in> set (all_calls sample_good) \<and>
    3 \<le> length (strings_Split cluster (CHR '','')) \<and>
    (\<forall>i < 3. worker_done (vault_fqdn ns' domain (strings_Split cluster (CHR '','') ! i)) key
       (all_calls sample_good))"
proof -
  obtain c where c: "init_execs sample_good c" "exit_code c = Some 0" using sample_good_exec by blast
  have "\<not> health_of fresh True False" by (simp add: health_of_def fresh_def)
  from init_all_unsealed [OF c sample_good_calls(2) this] c(1) show ?thesis by blast
qed

theorem init_only_if_needed_witness:
  "\<exists>addr data. EvAskJson (ReadHealthStatus addr) (Inr data) \<in> set (all_calls sample_good) \<and>
     \<not> health_of data True False"
proof -
  obtain c where c: "init_execs sample_good c" using sample_good_exec by blast
  have "EvGo (UnSealWorker (sample_fqdn ''a'') ''K'' False) \<in> set (all_calls sample_good)"
    by (simp add: sample_good_def sample_start_def workers_def)
  with init_only_if_needed [OF c] show ?thesis by blast
qed

text \<open>With one node, \<^verbatim>\<open>main\<close> panics at the second and then waits for ever.\<close>

definition sample_stuck :: "move list" where
  "sample_stuck = sample_init fresh ''a'' @ map (Act 0) (take 3 sample_start) @ sample_worker 1 ''a'' False"

lemma sample_stuck_exec: "\<exists>c. init_execs sample_stuck c \<and> wait_count c = 2"
  by (simp add: sample_stuck_def sample_defs job_defs start_def shared_effect_def go_index_def Let_def)

theorem init_few_nodes_witness:
  "\<exists>c. init_execs sample_stuck c \<and> written_keys (all_calls sample_stuck) = {} \<and>
     EvAskJson (Initialize (sample_addr ''a'') 1 1) (Inr sample_data) \<in> set (all_calls sample_stuck)"
proof -
  obtain c where c: "init_execs sample_stuck c" using sample_stuck_exec by blast
  have "EvGetenv ''VAULT_CLUSTER'' ''a'' \<in> set (calls_of 0 sample_stuck)"
    by (simp add: sample_stuck_def sample_init_def)
  from init_few_nodes [OF c this] c show ?thesis by (simp add: sample_stuck_def sample_start_def)
qed

definition lost_key_schedule :: "move list" where
  "lost_key_schedule = sample_init fresh ''a,b,c'' @ map (Act 0) sample_start @
     [Act 1 (EvDo (VaultNew (sample_addr ''a'') ca_file) None),
      Act 1 (EvDo (Unseal (sample_addr ''a'') ''K'') (Some (VaultError ''sealed''))), Stop 1]"

text \<open>The credentials can be lost.  There is a schedule in which Vault has been initialised
  and has replied with its only unseal key, one worker's unseal call fails, and its
  \<^verbatim>\<open>log.Fatal\<close> ends the process with code 1 before \<^verbatim>\<open>main\<close> has tried to write any secret.\<close>

theorem init_key_can_be_lost:
  "\<exists>c. init_execs lost_key_schedule c \<and> exit_code c = Some 1 \<and>
     EvAskJson (Initialize (sample_addr ''a'') 1 1) (Inr sample_data) \<in> set (all_calls lost_key_schedule) \<and>
     first_key sample_data = Some (JString ''K'') \<and> written_keys (all_calls lost_key_schedule) = {}"
  by (simp add: lost_key_schedule_def sample_defs job_defs start_def shared_effect_def stop_code_def
      go_index_def Let_def)

end
