(* ===== verification/Go_Progress.thy ===== *)
theory Go_Progress
  imports Go_Proc
begin

text \<open>
  Progress and termination of processes: when a process can make another move, how many moves it can make
  at most, from what its goroutines do, and what it means that it always ends.
\<close>

subsection \<open>Progress\<close>

text \<open>A process is stuck when it has not ended and no move is possible, whatever the replies.\<close>

definition stuck :: "(goroutine \<Rightarrow> unit prog) \<Rightarrow> process \<Rightarrow> bool" where
  "stuck body c \<longleftrightarrow> exit_code c = None \<and> (\<forall>m. move_step body c m = None)"

lemma stuck_thread:
  assumes "stuck body c" and "i < length (threads c)"
  shows "(\<exists>k. threads c ! i = WgWait k) \<and> wait_count c \<noteq> 0 \<or> 0 < i \<and> threads c ! i = Ret ()"
proof -
  have running: "exit_code c = None" and no_move: "move_step body c m = None" for m
    using assms(1) by (auto simp: stuck_def)
  have no_act: "after (threads c ! i) e = Some p \<Longrightarrow> shared_effect body (c\<lparr>threads := (threads c)[i := p]\<rparr>) e = None"
    for e p using no_move [of "Act i e"] running assms(2) by simp
  have no_stop: "stop_code i (threads c ! i) = None"
    using no_move [of "Stop i"] running assms(2) by (simp split: option.splits)
  show ?thesis
  proof (cases "threads c ! i")
    case (LoadErr k)
    then show ?thesis using no_act [of "EvLoadErr (err_var c)"] by (simp add: shared_effect_def)
  next
    case (Do a k)
    then show ?thesis using no_act [of "EvDo a None"] by (simp add: shared_effect_def)
  next
    case (Ask q k)
    then show ?thesis using no_act [of "EvAsk q (Inr [])"] by (simp add: shared_effect_def)
  next
    case (AskJson q k)
    then show ?thesis using no_act [of "EvAskJson q (Inr Map.empty)"] by (simp add: shared_effect_def)
  next
    case (GetIntCert n k)
    then show ?thesis using no_act [of "EvGetIntCert n (Inl e)" for e] by (simp add: shared_effect_def)
  next
    case (GetIntClientCA n k)
    then show ?thesis using no_act [of "EvGetIntClientCA n (Inl e)" for e] by (simp add: shared_effect_def)
  next
    case (GetSecret ns n k)
    then show ?thesis using no_act [of "EvGetSecret ns n (Inl e)" for e] by (simp add: shared_effect_def)
  next
    case (GetCSR n k)
    then show ?thesis using no_act [of "EvGetCSR n (Inl e)" for e] by (simp add: shared_effect_def)
  next
    case (PkiIssueWithRole m ro q k)
    then show ?thesis using no_act [of "EvIssue m ro q (Inl e)" for e] by (simp add: shared_effect_def)
  next
    case (MountsListSecretsEngines k)
    then show ?thesis using no_act [of "EvListMounts (Inl e)" for e] by (simp add: shared_effect_def)
  next
    case (RandInt m k)
    then show ?thesis using no_act [of "EvRandInt m (Inl e)" for e] by (simp add: shared_effect_def)
  next
    case (ParseCertificate der k)
    then show ?thesis using no_act [of "EvParseCertificate der (Inl e)" for e] by (simp add: shared_effect_def)
  next
    case (Now k)
    then show ?thesis using no_act [of "EvNow a" for a] by (simp add: shared_effect_def)
  next
    case (FlagParse fl k)
    then show ?thesis using no_act [of "EvFlags fl fl"] by (simp add: shared_effect_def)
  next
    case (Getenv n k)
    then show ?thesis using no_act [of "EvGetenv n []"] by (simp add: shared_effect_def)
  next
    case (Sleep n p)
    then show ?thesis using no_act [of "EvSleep n"] by (simp add: shared_effect_def)
  next
    case (Go g p)
    then show ?thesis using no_act [of "EvGo g"] by (simp add: shared_effect_def)
  next
    case (StoreErr v p)
    then show ?thesis using no_act [of "EvStoreErr v"] by (simp add: shared_effect_def)
  next
    case (WgAdd n p)
    then show ?thesis using no_act [of "EvWgAdd n"] by (simp add: shared_effect_def)
  next
    case (WgDone p)
    then show ?thesis using no_act [of EvWgDone] by (simp add: shared_effect_def split: if_splits)
  next
    case (WgWait p)
    then show ?thesis using no_act [of EvWgWait] by (auto simp: shared_effect_def)
  qed (use no_stop in \<open>auto simp: stop_code_def split: if_splits\<close>)
qed

subsection \<open>Termination\<close>

text \<open>A process makes at most one move that is not a call, its last one.\<close>

lemma exec_stops:
  "exec body (start main) ms = Some c \<Longrightarrow>
     length ms \<le> length (all_calls ms) + (if exit_code c = None then 0 else 1)"
proof (induction ms arbitrary: c rule: rev_induct)
  case Nil
  then show ?case by simp
next
  case (snoc m ms)
  then obtain c0 where c0: "exec body (start main) ms = Some c0" and m: "move_step body c0 m = Some c"
    by (auto simp: exec_append split: option.splits)
  have "exit_code c0 = None" using move_step_running [OF m] .
  with snoc.IH [OF c0] m show ?case by (cases m) (auto split: option.splits if_splits)
qed

lemma length_threads_calls:
  "(\<And>i e. Act i e \<in> set ms \<Longrightarrow> i < n) \<Longrightarrow>
     length (all_calls ms) = (\<Sum>i<n. length (calls_of i ms))"
proof (induction ms rule: all_calls.induct)
  case (2 j e ms)
  have "length (calls_of i (Act j e # ms)) = length (calls_of i ms) + (if i = j then 1 else 0)" for i
    by simp
  moreover have "j < n" using 2(2) [of j e] by simp
  moreover have "length (all_calls ms) = (\<Sum>i<n. length (calls_of i ms))"
    using 2(2) by (intro 2(1)) auto
  ultimately show ?case by (simp add: sum.distrib)
qed simp_all

lemma exec_bound:
  assumes "exec body (start main) ms = Some c"
    and "length (calls_of 0 ms) \<le> M" and "length (threads c) \<le> Suc S"
    and "\<And>i. 0 < i \<Longrightarrow> i < length (threads c) \<Longrightarrow> length (calls_of i ms) \<le> W"
  shows "length ms \<le> M + S * W + 1"
proof -
  let ?n = "length (threads c)"
  have "0 < ?n" using exec_length [OF assms(1)] by (auto simp: start_def)
  then obtain n where n: "?n = Suc n" by (cases ?n) auto
  have "length (all_calls ms) = (\<Sum>i<?n. length (calls_of i ms))"
    by (rule length_threads_calls) (rule Act_in_range [OF assms(1)])
  also have "\<dots> = length (calls_of 0 ms) + (\<Sum>i<n. length (calls_of (Suc i) ms))"
    by (simp only: n sum.lessThan_Suc_shift)
  also have "\<dots> \<le> M + (\<Sum>i<n. W)"
    using assms(2,4) n by (intro add_mono sum_mono) auto
  also have "\<dots> \<le> M + S * W" using assms(3) n by simp
  finally show ?thesis using exec_stops [OF assms(1)] by (simp split: if_splits)
qed

subsection \<open>Processes that always end\<close>

definition usual_move :: "(event \<Rightarrow> bool) \<Rightarrow> move \<Rightarrow> bool" where
  "usual_move P m = (case m of Act i e \<Rightarrow> P e | Stop i \<Rightarrow> True)"

text \<open>Whichever moves the runtime chooses, and whatever replies that satisfy \<open>P\<close> the calls get, the
  process has ended after \<open>n\<close> moves, and can move until then.\<close>

primrec ends_within :: "(event \<Rightarrow> bool) \<Rightarrow> (goroutine \<Rightarrow> unit prog) \<Rightarrow> nat \<Rightarrow> process \<Rightarrow> bool" where
  "ends_within P body 0 c \<longleftrightarrow> exit_code c \<noteq> None"
| "ends_within P body (Suc n) c \<longleftrightarrow> exit_code c \<noteq> None \<or>
     (\<exists>m c'. move_step body c m = Some c' \<and> usual_move P m) \<and>
     (\<forall>m c'. move_step body c m = Some c' \<longrightarrow> usual_move P m \<longrightarrow> ends_within P body n c')"

lemma exec_snoc:
  assumes "exec body c0 ms = Some c" and "list_all P (all_calls ms)"
    and "move_step body c m = Some c'" and "usual_move P m"
  shows "exec body c0 (ms @ [m]) = Some c'" and "list_all P (all_calls (ms @ [m]))"
  using assms by (cases m; simp add: exec_append usual_move_def)+

lemma ends_within_reached:
  assumes bound: "\<And>ms c. exec body c0 ms = Some c \<Longrightarrow> list_all P (all_calls ms) \<Longrightarrow> length ms \<le> N"
    and progress: "\<And>ms c. exec body c0 ms = Some c \<Longrightarrow> list_all P (all_calls ms) \<Longrightarrow> exit_code c = None \<Longrightarrow>
      \<exists>m c'. move_step body c m = Some c' \<and> usual_move P m"
  shows "exec body c0 ms = Some c \<Longrightarrow> list_all P (all_calls ms) \<Longrightarrow> length ms + n = N \<Longrightarrow> ends_within P body n c"
proof (induction n arbitrary: ms c)
  case 0
  have False if none: "exit_code c = None"
  proof -
    from progress [OF 0(1,2) none] obtain m c' where "move_step body c m = Some c'" "usual_move P m" by blast
    note snoc = exec_snoc [OF 0(1,2) this]
    from bound [OF snoc] 0(3) show False by simp
  qed
  then show ?case by auto
next
  case (Suc n)
  have "ends_within P body n c'" if "move_step body c m = Some c'" "usual_move P m" for m c'
    using exec_snoc [OF Suc.prems(1,2) that] Suc.prems(3) by (intro Suc.IH [of "ms @ [m]"]) simp_all
  with progress [OF Suc.prems(1,2)] show ?case by auto
qed

lemma ends_within_start:
  assumes "\<And>ms c. exec body c0 ms = Some c \<Longrightarrow> list_all P (all_calls ms) \<Longrightarrow> length ms \<le> N"
    and "\<And>ms c. exec body c0 ms = Some c \<Longrightarrow> list_all P (all_calls ms) \<Longrightarrow> exit_code c = None \<Longrightarrow>
      \<exists>m c'. move_step body c m = Some c' \<and> usual_move P m"
  shows "ends_within P body N c0"
  by (rule ends_within_reached [of body c0 P N "[]", OF assms]) simp_all

end
