(* ===== verification/Vault_Init_Liveness.thy ===== *)
theory Vault_Init_Liveness
  imports Vault_Init_Schedules Go_Progress
begin

text \<open>
  That the process of init/main.go ends: every schedule is bounded, and no schedule gets stuck in
  the wait group when the cluster has three nodes and Vault's reply holds a key, so every schedule
  can go on until the process ends.  With well-typed replies it ends with code 0 or 1.
\<close>

lemmas whole_job_defs = init_defs initVault_def unSeal_def go_unseal_def
  persist_unseal_key_def persist_root_token_def

subsection \<open>The main goroutine\<close>

lemma job_bounds:
  "always vault_init_job (\<lambda>t. length t \<le> 20 \<and> length (spawned t) \<le> 3)"
  unfolding whole_job_defs
  by (auto split: sum.split option.split)

lemma job_counts:
  "always vault_init_job (\<lambda>t. done_count t = 0 \<and> (spawned t \<noteq> [] \<longrightarrow> add_count t = 3))"
  unfolding whole_job_defs
  by (auto split: sum.split option.split)

definition three_nodes :: "event list \<Rightarrow> bool" where
  "three_nodes t \<longleftrightarrow> (\<forall>s. EvGetenv ''VAULT_CLUSTER'' s \<in> set t \<longrightarrow> 3 \<le> length (strings_Split s (CHR '','')))"

definition keys_given :: "event list \<Rightarrow> bool" where
  "keys_given t \<longleftrightarrow> (\<forall>addr a b data. EvAskJson (Initialize addr a b) (Inr data) \<in> set t \<longrightarrow>
     (\<exists>k. first_key data = Some (JString k)))"

lemma job_waits:
  "always vault_init_job (\<lambda>t. EvWgWait \<in> set t \<longrightarrow> three_nodes t \<longrightarrow> keys_given t \<longrightarrow>
     add_count t = 3 \<and> length (spawned t) = 3)"
  unfolding whole_job_defs
  by (auto simp: three_nodes_def keys_given_def split: sum.split option.split)

subsection \<open>The workers\<close>

lemma worker_bounds:
  "always (unSealWorker f k s) (\<lambda>t. length t \<le> 4)"
  by (auto simp: unSealWorker_def getClientV_def Let_def split: option.split sum.split)

lemma worker_returns:
  "all_paths (unSealWorker f k s) (\<lambda>t out. out = Returned () \<longrightarrow> done_count t = 1)"
  by (auto simp: unSealWorker_def getClientV_def Let_def split: option.split sum.split)

lemma init_threads:
  assumes "init_execs ms c"
  shows "length (threads c) = Suc (length (spawned (calls_of 0 ms)))"
  using exec_started [OF assms] init_main_starts [OF assms] by simp

lemma init_worker_steps:
  assumes "init_execs ms c" and "0 < i" and "i < length (threads c)"
  obtains f k s where "steps (unSealWorker f k s) (calls_of i ms) = Some (threads c ! i)"
  using init_worker [OF assms] by metis

lemma init_moves:
  assumes "init_execs ms c"
  shows "length ms \<le> 33"
proof -
  note main = always_steps [OF job_bounds exec_main [OF assms]]
  have "length (calls_of i ms) \<le> 4" if "0 < i" "i < length (threads c)" for i
    using init_worker_steps [OF assms that] always_steps [OF worker_bounds] by metis
  moreover have "length (threads c) \<le> Suc 3" using main init_threads [OF assms] by simp
  ultimately have "length ms \<le> 20 + 3 * 4 + 1"
    using main by (intro exec_bound [OF assms]) simp_all
  then show ?thesis by simp
qed

subsection \<open>No deadlock\<close>

lemma calls_of_main_subset: "set (calls_of 0 ms) \<subseteq> set (all_calls ms)"
  using calls_of_subset by blast

lemma init_can_move:
  assumes "init_execs ms c" and "exit_code c = None"
    and "three_nodes (all_calls ms)" and "keys_given (all_calls ms)"
  shows "\<exists>m c'. move_step init_body c m = Some c'"
proof (rule ccontr)
  assume "\<nexists>m c'. move_step init_body c m = Some c'"
  with assms(2) have stuck: "stuck init_body c" by (auto simp: stuck_def)
  have hyps: "three_nodes (calls_of 0 ms)" "keys_given (calls_of 0 ms)"
    using assms(3,4) calls_of_main_subset [of ms] by (fastforce simp: three_nodes_def keys_given_def)+
  have pos: "0 < length (threads c)" using init_threads [OF assms(1)] by simp
  obtain k where k: "threads c ! 0 = WgWait k" and blocked: "wait_count c \<noteq> 0"
    using stuck_thread [OF stuck pos] by auto
  have "steps vault_init_job (calls_of 0 ms @ [EvWgWait]) = Some k"
    using exec_main [OF assms(1)] k by (simp add: steps_append)
  from always_steps [OF job_waits this] hyps
  have waits: "add_count (calls_of 0 ms) = 3" "length (spawned (calls_of 0 ms)) = 3"
    by (auto simp: three_nodes_def keys_given_def)
  have each_done: "done_count (calls_of i ms) = 1" if i: "0 < i" "i < length (threads c)" for i
  proof -
    obtain f k s where w: "steps (unSealWorker f k s) (calls_of i ms) = Some (threads c ! i)"
      by (rule init_worker_steps [OF assms(1) i])
    have "threads c ! i \<noteq> WgWait p" for p
    proof
      assume "threads c ! i = WgWait p"
      with w have "steps (unSealWorker f k s) (calls_of i ms @ [EvWgWait]) = Some p"
        by (simp add: steps_append)
      from always_steps [OF unSealWorker_always this] show False by simp
    qed
    with stuck_thread [OF stuck i(2)] have "threads c ! i = Ret ()" by auto
    with w have "accepts (unSealWorker f k s) (calls_of i ms) (Returned ())"
      by (simp add: accepts_iff_steps)
    from all_paths_accepts [OF worker_returns this] show ?thesis by simp
  qed
  have n: "length (threads c) = 4" using init_threads [OF assms(1)] waits by simp
  have "done_count (all_calls ms) = (\<Sum>i<4::nat. done_count (calls_of i ms))"
    using Act_in_range [OF assms(1)] n by (intro done_count_threads) simp
  also have "\<dots> = (\<Sum>i<4::nat. if i = 0 then 0 else 1)"
    using each_done n always_steps [OF job_counts exec_main [OF assms(1)]] by (intro sum.cong) auto
  also have "\<dots> = 3" by (simp add: eval_nat_numeral)
  finally have "done_count (all_calls ms) = 3" .
  with waits exec_wait_count [OF assms(1,2)] add_count_main [OF assms(1)] blocked show False
    by (simp add: start_def)
qed

text \<open>C28: as long as the process of the init job has not ended it can go on, in every interleaving, when
  VAULT_CLUSTER names at least three nodes and Vault's reply to the initialisation holds a key: the wait
  for the three workers always comes to an end.\<close>

theorem init_not_stuck:
  assumes "init_execs ms c" and "exit_code c = None"
    and "three_nodes (all_calls ms)" and "keys_given (all_calls ms)"
  shows "\<exists>m c'. move_step init_body c m = Some c'"
  using assms by (rule init_can_move)

theorem init_not_stuck_witness:
  "\<exists>ms c m c'. init_execs ms c \<and> EvWgWait \<notin> set (all_calls ms) \<and>
    EvGetenv ''VAULT_CLUSTER'' ''a,b,c'' \<in> set (all_calls ms) \<and> move_step init_body c m = Some c'"
proof -
  let ?ms = "sample_init fresh ''a,b,c'' @ map (Act 0) sample_start"
  obtain c where c: "init_execs ?ms c" "exit_code c = None"
    by (simp add: sample_defs job_defs start_def shared_effect_def stop_code_def go_index_def Let_def)
  have "three_nodes (all_calls ?ms)" "keys_given (all_calls ?ms)"
    by (auto simp: three_nodes_def keys_given_def sample_defs first_key_def go_index_def)
  with init_not_stuck [OF c] obtain m c' where "move_step init_body c m = Some c'" by blast
  moreover have "EvWgWait \<notin> set (all_calls ?ms)" "EvGetenv ''VAULT_CLUSTER'' ''a,b,c'' \<in> set (all_calls ?ms)"
    by (simp_all add: sample_defs)
  ultimately show ?thesis using c(1) by blast
qed

subsection \<open>Every schedule ends\<close>

text \<open>A cluster of at least three nodes, and a reply to the initialisation that holds a key.\<close>

definition usual_reply :: "event \<Rightarrow> bool" where
  "usual_reply e =
     (case e of
        EvGetenv n s \<Rightarrow> n = ''VAULT_CLUSTER'' \<longrightarrow> 3 \<le> length (strings_Split s (CHR '',''))
      | EvAskJson q r \<Rightarrow>
          (case q of ReadHealthStatus addr \<Rightarrow> True
           | Initialize addr a b \<Rightarrow>
               (case r of Inl err \<Rightarrow> True | Inr data \<Rightarrow> \<exists>k. first_key data = Some (JString k)))
      | _ \<Rightarrow> True)"

lemma usual_replies: "list_all usual_reply t \<Longrightarrow> three_nodes t \<and> keys_given t"
  by (fastforce simp: three_nodes_def keys_given_def usual_reply_def list_all_iff)

lemma after_getenv: "after p (EvGetenv n s) = Some q \<Longrightarrow> \<exists>q'. after p (EvGetenv n s') = Some q'"
  by (cases p) (auto split: if_splits)

lemma after_askjson: "after p (EvAskJson j r) = Some q \<Longrightarrow> \<exists>q'. after p (EvAskJson j r') = Some q'"
  by (cases p) (auto split: if_splits)

text \<open>A move the process can make can also be made with a usual reply.\<close>

lemma usual_move_exists:
  assumes "move_step body c m = Some c'"
  shows "\<exists>m' c''. move_step body c m' = Some c'' \<and> usual_move usual_reply m'"
proof (cases m)
  case (Stop i)
  with assms show ?thesis by (intro exI [of _ m]) (simp add: usual_move_def)
next
  case (Act i e)
  with assms obtain q where running: "exit_code c = None" "i < length (threads c)"
    and q: "after (threads c ! i) e = Some q"
    by (auto split: if_splits option.splits)
  consider (env) n s where "e = EvGetenv n s" | (json) j r where "e = EvAskJson j r" | (other) "usual_reply e"
    by (cases e) (auto simp: usual_reply_def)
  then show ?thesis
  proof cases
    case env
    with after_getenv q obtain q' where "after (threads c ! i) (EvGetenv n ''a,b,c'') = Some q'" by blast
    with running show ?thesis
      by (intro exI [of _ "Act i (EvGetenv n ''a,b,c'')"]) (simp add: usual_move_def usual_reply_def shared_effect_def)
  next
    case json
    with after_askjson q obtain q' where "after (threads c ! i) (EvAskJson j (Inl (PlainError []))) = Some q'" by blast
    with running show ?thesis
      by (intro exI [of _ "Act i (EvAskJson j (Inl (PlainError [])))"])
        (simp add: usual_move_def usual_reply_def shared_effect_def split: json_query.split)
  next
    case other
    with assms Act show ?thesis by (intro exI [of _ m]) (simp add: usual_move_def)
  qed
qed

text \<open>C29: the init job always comes to an end: when VAULT_CLUSTER names at least three nodes and Vault's
  reply to the initialisation holds a key, then, whatever the other replies and whichever goroutine moves
  next, the process has ended after 33 moves, and until it has ended it can always move: neither a
  deadlock in the wait group nor an endless run is possible.\<close>

theorem init_terminates: "ends_within usual_reply init_body 33 (start vault_init_job)"
proof (rule ends_within_start)
  fix ms c
  assume run: "init_execs ms c" and usual: "list_all usual_reply (all_calls ms)"
  show "length ms \<le> 33" by (rule init_moves [OF run])
  assume "exit_code c = None"
  from init_can_move [OF run this] usual_replies [OF usual] obtain m c' where "move_step init_body c m = Some c'"
    by blast
  then show "\<exists>m c'. move_step init_body c m = Some c' \<and> usual_move usual_reply m" by (rule usual_move_exists)
qed

subsection \<open>Well-typed replies\<close>

text \<open>The replies the unchecked conversions and dereferences of the job rely on.\<close>

definition reply_typed :: "event \<Rightarrow> bool" where
  "reply_typed e \<longleftrightarrow>
     (case e of
        EvGetenv n s \<Rightarrow> n = ''VAULT_CLUSTER'' \<longrightarrow> 3 \<le> length (strings_Split s (CHR '',''))
      | EvDo a r \<Rightarrow> (a = NewForConfig \<or> (\<exists>x y. a = VaultNew x y)) \<longrightarrow> r = None
      | EvAskJson q r \<Rightarrow>
          (case r of Inl err \<Rightarrow> True | Inr data \<Rightarrow>
            (case q of
               ReadHealthStatus addr \<Rightarrow> as_bool (data ''initialized'') \<noteq> None \<and> as_bool (data ''sealed'') \<noteq> None
             | Initialize addr a b \<Rightarrow> (\<exists>k token. first_key data = Some (JString k) \<and> data ''root_token'' = Some (JString token))))
      | EvGetSecret x n r \<Rightarrow> (\<exists>s. r = Inr s \<and> Data s \<noteq> None)
      | _ \<Rightarrow> True)"

lemma job_typed:
  "all_paths vault_init_job (\<lambda>t out. list_all reply_typed t \<longrightarrow> out = Exited 0 \<or> out = Exited 1)"
  unfolding whole_job_defs
  by (auto simp: reply_typed_def split: sum.split option.split)

text \<open>The counter of the wait group never goes negative: there are no more calls of \<^verbatim>\<open>Done\<close> than
  workers, and a worker is only started after three were added.\<close>

lemma init_counter:
  assumes "init_execs ms c" and "exit_code c = None" and "0 < i" and "i < length (threads c)"
    and "after (threads c ! i) EvWgDone = Some p"
  shows "0 < wait_count c"
proof -
  let ?n = "length (threads c)" and ?d = "\<lambda>i. done_count (calls_of i ms)"
  note main = always_steps [OF job_counts exec_main [OF assms(1)]] always_steps [OF job_bounds exec_main [OF assms(1)]]
  have n: "?n = Suc (length (spawned (calls_of 0 ms)))" by (rule init_threads [OF assms(1)])
  with assms(3,4) have "spawned (calls_of 0 ms) \<noteq> []" by auto
  with main add_count_main [OF assms(1)] have add: "add_count (all_calls ms) = 3" and n4: "?n \<le> 4"
    using n by auto
  have le: "?d j \<le> 1" if "0 < j" "j < ?n" for j
    using init_worker_steps [OF assms(1) that] always_steps [OF unSealWorker_always] by metis
  obtain f k s where w: "steps (unSealWorker f k s) (calls_of i ms) = Some (threads c ! i)"
    by (rule init_worker_steps [OF assms(1,3,4)])
  have "steps (unSealWorker f k s) (calls_of i ms @ [EvWgDone]) = Some p"
    using w assms(5) by (simp add: steps_append)
  from always_steps [OF unSealWorker_always this] have zero: "?d i \<le> 0" by simp
  have "done_count (all_calls ms) = (\<Sum>j<?n. ?d j)"
    by (rule done_count_threads) (rule Act_in_range [OF assms(1)])
  also have "\<dots> \<le> (\<Sum>j<?n. if j = 0 \<or> j = i then 0 else 1)"
    using main le zero by (intro sum_mono) auto
  also have "\<dots> \<le> (\<Sum>j<?n. if j = 0 then 0 else 1) - 1"
  proof -
    have "(\<Sum>j<?n. if j = 0 then 0 else 1 :: int) =
        (\<Sum>j<?n. if j = 0 \<or> j = i then 0 else 1) + (\<Sum>j<?n. if j = i then 1 else 0)"
      using assms(3) by (subst sum.distrib [symmetric], intro sum.cong) auto
    also have "(\<Sum>j<?n. if j = i then 1 else 0 :: int) = 1" using assms(4) by simp
    finally show ?thesis by simp
  qed
  also have "(\<Sum>j<?n. if j = 0 then 0 else 1 :: int) = int ?n - 1"
  proof -
    have "(\<Sum>j<Suc m. if j = 0 then 0 else 1 :: int) = int m" for m by (induction m) simp_all
    from this [of "length (spawned (calls_of 0 ms))"] show ?thesis
      by (simp only: n of_nat_Suc add_diff_cancel_left')
  qed
  finally show ?thesis using exec_wait_count [OF assms(1,2)] add n4 by (simp add: start_def)
qed

text \<open>C35: when the replies to the main goroutine are what its conversions, dereferences and indices rely
  on (three nodes named, no failure of NewForConfig or of \<^verbatim>\<open>vault.New\<close>, every Secret it reads there with its
  Data, JSON values of the types it converts them to), the process of the init job never panics: in every interleaving it ends with code 0 or 1.\<close>

theorem init_exit_codes:
  assumes "init_execs ms c" and "exit_code c = Some n" and "list_all reply_typed (calls_of 0 ms)"
  shows "n = 0 \<or> n = 1"
proof -
  obtain ms0 m c0 where ms: "ms = ms0 @ [m]" and c0: "init_execs ms0 c0" "exit_code c0 = None"
    and m: "move_step init_body c0 m = Some c"
    by (rule exec_last_move [OF assms(1,2)])
  show ?thesis
  proof (cases m)
    case (Act i e)
    with m assms(2) c0(2) obtain p where p: "after (threads c0 ! i) e = Some p" "i < length (threads c0)"
      "e = EvWgDone" "wait_count c0 \<le> 0"
      by (auto simp: shared_effect_def split: option.splits if_splits event.splits)
    have "i \<noteq> 0"
    proof
      assume "i = 0"
      with p exec_main [OF c0(1)] have "steps vault_init_job (calls_of 0 ms0 @ [EvWgDone]) = Some p"
        by (simp add: steps_append)
      from always_steps [OF job_counts this] always_steps [OF job_counts exec_main [OF c0(1)]] show False by simp
    qed
    with init_counter [OF c0 _ p(2)] p show ?thesis by simp
  next
    case (Stop i)
    with m assms(2) have i: "i < length (threads c0)" "stop_code i (threads c0 ! i) = Some n"
      by (auto split: option.splits if_splits)
    then obtain out where out: "ended (threads c0 ! i) = Some out" by (auto simp: stop_code_def split: option.splits)
    show ?thesis
    proof (cases "i = 0")
      case True
      have "accepts vault_init_job (calls_of 0 ms0) out"
        using exec_main [OF c0(1)] out True by (simp add: accepts_iff_steps)
      from all_paths_accepts [OF job_typed this] assms(3) ms Stop have "out = Exited 0 \<or> out = Exited 1" by simp
      with i(2) out show ?thesis by (auto simp: stop_code_def)
    next
      case False
      obtain f k s where "steps (unSealWorker f k s) (calls_of i ms0) = Some (threads c0 ! i)"
        by (rule init_worker_steps [OF c0(1) _ i(1)]) (use False in simp)
      with out have "accepts (unSealWorker f k s) (calls_of i ms0) out" by (simp add: accepts_iff_steps)
      from all_paths_accepts [OF unSealWorker_ends this] i(2) out False show ?thesis
        by (auto simp: stop_code_def)
    qed
  qed
qed

theorem init_exit_codes_witness:
  "\<exists>c n. init_execs sample_good c \<and> exit_code c = Some n \<and> (n = 0 \<or> n = 1)"
proof -
  obtain c where c: "init_execs sample_good c" "exit_code c = Some 0" using sample_good_exec by blast
  have "list_all reply_typed (calls_of 0 sample_good)"
    by (simp add: sample_good_def sample_defs reply_typed_def first_key_def go_index_def) blast
  from init_exit_codes [OF c this] c show ?thesis by blast
qed

end
