(* ===== verification/Vault_Pki.thy ===== *)
theory Vault_Pki
  imports Go_Proc Secret_Upsert Vault_Mounts
begin

text \<open>
  The job vault/client-go/pki/main.go: it enables the root and the intermediate PKI secrets
  engines of Vault, each unless it is listed already, and a goroutine persists the root
  certificate in a Secret.  The goroutine captures the variable \<^verbatim>\<open>err\<close> of
  \<^verbatim>\<open>enablePKIRootCA\<close>, which \<^verbatim>\<open>main\<close> goes on using; \<open>StoreErr\<close> and \<open>LoadErr\<close> are the accesses to
  it.  The \<^verbatim>\<open>err\<close> of \<^verbatim>\<open>enablePKIIntermCA\<close> is not shared.
\<close>

definition rootCAPath :: string where [record_defs]: "rootCAPath = ''sip-root-ca''"
definition intermCAPath :: string where [record_defs]: "intermCAPath = ''sip-interm-ca''"
definition rootCATTL :: string where [record_defs]: "rootCATTL = ''876000h''"
definition intermCATTL :: string where [record_defs]: "intermCATTL = ''168h''"
definition rootCARole :: string where [record_defs]: "rootCARole = ''root-ca''"
definition intermCARole :: string where [record_defs]: "intermCARole = ''interm-ca''"

text \<open>The package variables that \<^verbatim>\<open>init()\<close> sets; the client to Vault is never nil after it.\<close>

record pki_vars =
  pki_ns :: string
  rootToken :: string

definition pki_init :: "pki_vars prog" where
  "pki_init =
     read_namespace (\<lambda>ns.
     Do InClusterConfig (\<lambda>err.
     case err of Some _ \<Rightarrow> Exit 1 | None \<Rightarrow>
     Do NewForConfig (\<lambda>err.
     case err of Some _ \<Rightarrow> Panic | None \<Rightarrow>
     GetSecret ns ''vault-root-token'' (\<lambda>got.
     let token = data_get (got_or_empty got) ''token'' in
     Do (VaultNew (''https://'' @ VAULT_INTERNAL_SERVICE_NAME @ '':8200'') ca_file) (\<lambda>err.
     case err of Some _ \<Rightarrow> Exit 1 | None \<Rightarrow>
     Do (SetToken token) (\<lambda>err.
     case err of Some _ \<Rightarrow> Exit 1 | None \<Rightarrow>
     Ret \<lparr>pki_ns = ns, rootToken = token\<rparr>))))))"

subsection \<open>The PATCH request\<close>

definition disableFlag :: "pki_vars \<Rightarrow> string \<Rightarrow> string \<Rightarrow> unit prog" where
  "disableFlag v pki role =
     (let url = v1_url (pki @ ''/roles/'' @ role) in
      Do (HttpNewRequest ''PATCH'' url patchBody) (\<lambda>err.
      case err of Some _ \<Rightarrow> Ret () | None \<Rightarrow>
      Do (HttpDo \<lparr>Method = ''PATCH'', URL = url, Body = patchBody,
            Header = [(''Content-Type'', ''application/merge-patch+json''),
                      (''X-Vault-Token'', rootToken v)],
            InsecureSkipVerify = True\<rparr>) (\<lambda>err.
      case err of Some _ \<Rightarrow> Ret () | None \<Rightarrow> Do BodyClose (\<lambda>_. Ret ()))))"

subsection \<open>The root CA\<close>

text \<open>An assignment to the shared variable and the read of it that follows.\<close>

definition set_err :: "go_error option \<Rightarrow> (go_error option \<Rightarrow> 'a prog) \<Rightarrow> 'a prog" where
  "set_err r k = StoreErr r (LoadErr k)"

text \<open>\<^verbatim>\<open>errors.Is...(err)\<close> on a variable that may be nil.\<close>

fun err_is :: "(go_error \<Rightarrow> bool) \<Rightarrow> go_error option \<Rightarrow> bool" where
  "err_is P None = False"
| "err_is P (Some e) = P e"

definition root_ca_secret :: "string \<Rightarrow> secret" where
  "root_ca_secret cert = credential_secret ''sip-root-ca'' [] ''ca.pem'' cert"

text \<open>The goroutine, for the namespace and the certificate; each case of its \<^verbatim>\<open>switch\<close> reads the
  variable again.\<close>

definition persist_root_ca :: "string \<times> string \<Rightarrow> unit prog" where
  "persist_root_ca x =
     (case x of (ns, cert) \<Rightarrow>
      Do (CreateSecret ns (root_ca_secret cert)) (\<lambda>r. set_err r (\<lambda>err.
      if err = None then Ret () else
      LoadErr (\<lambda>err. if err_is IsNotFound err then Exit 1 else
      LoadErr (\<lambda>err. if err_is IsAlreadyExists err then
          GetSecret ns ''sip-root-ca'' (\<lambda>got.
          case data_set (got_or_empty got) ''ca.pem'' cert of None \<Rightarrow> Panic | Some s \<Rightarrow>
          Do (UpdateSecret ns s) (\<lambda>r. set_err r (\<lambda>err.
          if err \<noteq> None then Exit 1 else Ret ())))
        else LoadErr (\<lambda>err. if err_is IsInvalid err then Exit 1 else Exit 1))))))"

definition root_generate_request :: generate_request where [record_defs]:
  "root_generate_request =
     \<lparr>Gen_CommonName = ''sip Internal Root CA'', Gen_KeyType = ''ec'', Gen_KeyBits = 256,
      Gen_AddBasicConstraints = False, Gen_Ttl = rootCATTL\<rparr>"

definition urls_of :: "string \<Rightarrow> urls_request" where
  "urls_of path =
     \<lparr>IssuingCertificates = [v1_url (path @ ''/ca'')],
      CrlDistributionPoints = [v1_url (path @ ''/crl'')]\<rparr>"

definition root_role_request :: role_request where [record_defs]:
  "root_role_request =
     \<lparr>AllowAnyName = True, Role_KeyType = ''ec'', Role_KeyBits = 256,
      Role_KeyUsage = [''CertSign,CRLSign''], Role_ExtKeyUsage = [], EnforceHostnames = False,
      BasicConstraintsValidForNonCa = False, Role_MaxTtl = rootCATTL\<rparr>"

definition enablePKIRootCA :: "pki_vars \<Rightarrow> unit prog" where
  "enablePKIRootCA v =
     Do (MountsEnableSecretsEngine rootCAPath (pki_mount_request ''server authn'')) (\<lambda>_.
     Do (MountsTuneConfigurationParameters rootCAPath rootCATTL) (\<lambda>r. set_err r (\<lambda>err.
     if err \<noteq> None then Exit 1 else
     Ask (PkiGenerateRoot rootCAPath ''internal'' root_generate_request) (\<lambda>rootCAKeyPair.
     set_err (case rootCAKeyPair of Inl e \<Rightarrow> Some e | Inr _ \<Rightarrow> None) (\<lambda>err.
     if err \<noteq> None then Exit 1 else
     case rootCAKeyPair of Inl _ \<Rightarrow> Panic | Inr cert \<Rightarrow>
     Go (PersistRootCA (pki_ns v) cert)
     (Do (PkiConfigureUrls rootCAPath (urls_of rootCAPath)) (\<lambda>r. set_err r (\<lambda>err.
     if err \<noteq> None then Exit 1 else
     Do (PkiWriteRole rootCAPath rootCARole root_role_request) (\<lambda>r. set_err r (\<lambda>err.
     if err \<noteq> None then Exit 1 else
     disableFlag v rootCAPath rootCARole))))))))))"

subsection \<open>The intermediate CA\<close>

definition interm_generate_request :: generate_request where [record_defs]:
  "interm_generate_request =
     \<lparr>Gen_CommonName = ''sip Internal Intermediate CA'', Gen_KeyType = ''ec'', Gen_KeyBits = 256,
      Gen_AddBasicConstraints = True, Gen_Ttl = intermCATTL\<rparr>"

definition interm_role_request :: role_request where [record_defs]:
  "interm_role_request =
     \<lparr>AllowAnyName = True, Role_KeyType = ''ec'', Role_KeyBits = 256,
      Role_KeyUsage = [''DigitalSignature''], Role_ExtKeyUsage = [''ServerAuth''],
      EnforceHostnames = False, BasicConstraintsValidForNonCa = False, Role_MaxTtl = intermCATTL\<rparr>"

definition interm_sign_request :: "string \<Rightarrow> sign_request" where
  "interm_sign_request csr =
     \<lparr>Sign_Csr = csr, Sign_Format = ''pem'', Sign_UseCsrValues = True, Sign_Ttl = rootCATTL\<rparr>"

definition enablePKIIntermCA :: "pki_vars \<Rightarrow> unit prog" where
  "enablePKIIntermCA v =
     Do (MountsEnableSecretsEngine intermCAPath (pki_mount_request ''server authn'')) (\<lambda>_.
     Do (MountsTuneConfigurationParameters intermCAPath intermCATTL) (\<lambda>err.
     case err of Some _ \<Rightarrow> Exit 1 | None \<Rightarrow>
     Do (PkiConfigureUrls intermCAPath (urls_of intermCAPath)) (\<lambda>err.
     case err of Some _ \<Rightarrow> Exit 1 | None \<Rightarrow>
     Do (PkiWriteRole intermCAPath intermCARole interm_role_request) (\<lambda>err.
     case err of Some _ \<Rightarrow> Exit 1 | None \<Rightarrow>
     bind (disableFlag v intermCAPath intermCARole) (\<lambda>_.
     Ask (PkiGenerateIntermediate intermCAPath ''internal'' interm_generate_request) (\<lambda>csrResp.
     case csrResp of Inl _ \<Rightarrow> Exit 1 | Inr csr \<Rightarrow>
     Ask (PkiRootSignIntermediate rootCAPath (interm_sign_request csr)) (\<lambda>signResp.
     case signResp of Inl _ \<Rightarrow> Exit 1 | Inr cert \<Rightarrow>
     Do (PkiSetSignedIntermediate intermCAPath cert) (\<lambda>err.
     case err of Some _ \<Rightarrow> Exit 1 | None \<Rightarrow> Ret ()))))))))"

subsection \<open>The function main\<close>

definition pki_main :: "pki_vars \<Rightarrow> unit prog" where
  "pki_main v =
     MountsListSecretsEngines (\<lambda>listResp.
     case listResp of Inl _ \<Rightarrow> Exit 1 | Inr mounts \<Rightarrow>
     bind (if ''sip-root-ca/'' \<notin> mounts then enablePKIRootCA v else Ret ()) (\<lambda>_.
     bind (if ''sip-interm-ca/'' \<notin> mounts then enablePKIIntermCA v else Ret ()) (\<lambda>_.
     Exit 0)))"

definition pki_job :: "unit prog" where
  "pki_job = bind pki_init pki_main"

fun pki_body :: "goroutine \<Rightarrow> unit prog" where
  "pki_body (PersistRootCA ns cert) = persist_root_ca (ns, cert)"
| "pki_body _ = Ret ()"

end
