(* ===== verification/Vault_Pki_Schedules.thy ===== *)
theory Vault_Pki_Schedules
  imports Vault_Pki "HOL-Library.Sublist"
begin

text \<open>
  Properties of the job of \<^verbatim>\<open>Vault_Pki\<close>, for every schedule of \<^verbatim>\<open>main\<close> and the goroutine that
  persists the root certificate: which mounts it configures and in which order, the contract
  of the goroutine as an instance of \<^verbatim>\<open>secret_upsert\<close>, and what goes wrong when the two
  goroutines interfere through the variable they share or when \<^verbatim>\<open>main\<close> exits first.
\<close>

subsection \<open>The goroutine as a secret upsert\<close>

text \<open>A run whose reads of the shared variable return what the run itself stored last.\<close>

fun undisturbed_from :: "go_error option \<Rightarrow> event list \<Rightarrow> bool" where
  "undisturbed_from v [] \<longleftrightarrow> True"
| "undisturbed_from v (e # t) \<longleftrightarrow>
     (case e of EvStoreErr v' \<Rightarrow> undisturbed_from v' t
      | EvLoadErr r \<Rightarrow> r = v \<and> undisturbed_from v t
      | _ \<Rightarrow> undisturbed_from v t)"

abbreviation undisturbed :: "event list \<Rightarrow> bool" where
  "undisturbed \<equiv> undisturbed_from None"

abbreviation root_ca_key :: "string \<times> string \<Rightarrow> namespaced_name" where
  "root_ca_key x \<equiv> (fst x, ''sip-root-ca'')"

lemma persist_root_ca_stores:
  "all_paths (persist_root_ca x) (\<lambda>t out. \<forall>st. out = Returned () \<longrightarrow> undisturbed t \<longrightarrow> conforms st t \<longrightarrow>
     (\<exists>old. replay st t = st(root_ca_key x \<mapsto> old ++ [''ca.pem'' \<mapsto> snd x]) \<and>
       (old = Map.empty \<or> st (root_ca_key x) = Some old)))"
  by (auto simp: persist_root_ca_def set_err_def root_ca_secret_def data_set_def
      split: prod.split option.split sum.split)

lemma persist_root_ca_writes:
  "always (persist_root_ca x) (\<lambda>t. \<forall>st. conforms st t \<longrightarrow> written_keys t \<subseteq> {root_ca_key x})"
  by (auto simp: persist_root_ca_def set_err_def root_ca_secret_def data_set_def
      split: prod.split option.split sum.split)

lemma persist_root_ca_exits:
  "all_paths (persist_root_ca x) (\<lambda>t out. \<forall>n. out = Exited n \<longrightarrow> n = 1)"
  by (auto simp: persist_root_ca_def set_err_def split: prod.split option.split sum.split)

interpretation root_ca: secret_upsert persist_root_ca root_ca_key "\<lambda>x. [''ca.pem'' \<mapsto> snd x]" undisturbed
proof unfold_locales
  fix x t st
  assume "accepts (persist_root_ca x) t (Returned ())" and "undisturbed t" and "conforms st t"
  then show "\<exists>old. replay st t = st(root_ca_key x \<mapsto> old ++ [''ca.pem'' \<mapsto> snd x]) \<and>
      (old = Map.empty \<or> st (root_ca_key x) = Some old)"
    using all_paths_accepts [OF persist_root_ca_stores] by blast
next
  show "written_keys t \<subseteq> {root_ca_key x}"
    if "steps (persist_root_ca x) t = Some p" "conforms st t" for x t p st
    using always_steps [OF persist_root_ca_writes that(1)] that(2) by blast
  show "n = 1" if "accepts (persist_root_ca x) t (Exited n)" for x t n
    using all_paths_accepts [OF persist_root_ca_exits that] by simp
qed

subsection \<open>Single calls\<close>

text \<open>A call that configures the mount at a path.\<close>

definition touches :: "string \<Rightarrow> event \<Rightarrow> bool" where
  "touches m e =
     (case e of
        EvDo a r \<Rightarrow>
          (case a of
             MountsEnableSecretsEngine p _ \<Rightarrow> p = m
           | MountsTuneConfigurationParameters p _ \<Rightarrow> p = m
           | PkiConfigureUrls p _ \<Rightarrow> p = m
           | PkiWriteRole p _ _ \<Rightarrow> p = m
           | PkiSetSignedIntermediate p _ \<Rightarrow> p = m
           | HttpDo h \<Rightarrow> take (length (v1_url (m @ ''/roles/''))) (URL h) = v1_url (m @ ''/roles/'')
           | _ \<Rightarrow> False)
      | EvAsk q r \<Rightarrow>
          (case q of
             PkiGenerateRoot p _ _ \<Rightarrow> p = m
           | PkiGenerateIntermediate p _ _ \<Rightarrow> p = m
           | _ \<Rightarrow> False)
      | _ \<Rightarrow> False)"

abbreviation pki_execs :: "move list \<Rightarrow> process \<Rightarrow> bool" where
  "pki_execs ms c \<equiv> exec pki_body (start pki_job) ms = Some c"

lemmas pki_defs = set_err_def disableFlag_def Let_def
lemmas pki_names = rootCAPath_def intermCAPath_def rootCARole_def intermCARole_def v1_url_def
  VAULT_INTERNAL_SERVICE_NAME_def

lemma root_leaves_interm: "each_call (\<lambda>e. \<not> touches ''sip-interm-ca'' e) (enablePKIRootCA v)"
  by (auto simp: enablePKIRootCA_def pki_defs pki_names touches_def
      split: option.split sum.split)

lemma interm_leaves_root: "each_call (\<lambda>e. \<not> touches ''sip-root-ca'' e) (enablePKIIntermCA v)"
  by (auto simp: enablePKIIntermCA_def pki_defs pki_names touches_def
      split: option.split sum.split)

lemma no_list:
  "each_call (\<lambda>e. \<forall>r. e \<noteq> EvListMounts r) (enablePKIRootCA v)"
  "each_call (\<lambda>e. \<forall>r. e \<noteq> EvListMounts r) (enablePKIIntermCA v)"
  by (auto simp: enablePKIRootCA_def enablePKIIntermCA_def pki_defs split: option.split sum.split)

definition keeps_listed :: "event list \<Rightarrow> bool" where
  "keeps_listed t \<longleftrightarrow> (\<forall>mounts m. EvListMounts (Inr mounts) \<in> set t \<longrightarrow> m \<in> {''sip-root-ca'', ''sip-interm-ca''} \<longrightarrow>
     m @ ''/'' \<in> mounts \<longrightarrow> list_all (\<lambda>e. \<not> touches m e) t)"

lemma bind_parts:
  assumes "\<not> b \<Longrightarrow> each_call P p" and "\<not> b' \<Longrightarrow> each_call P q"
  shows "each_call P (bind (if \<not> b then p else Ret ()) (\<lambda>_. bind (if \<not> b' then q else Ret ()) (\<lambda>_. Exit 0)))"
  by (intro each_call_bind) (auto intro: assms)

lemma pki_main_keeps: "always (pki_main v) keeps_listed"
proof -
  have "always (bind (if ''sip-root-ca/'' \<notin> mounts then enablePKIRootCA v else Ret ()) (\<lambda>_.
       bind (if ''sip-interm-ca/'' \<notin> mounts then enablePKIIntermCA v else Ret ()) (\<lambda>_. Exit 0)))
      (\<lambda>t. keeps_listed (EvListMounts (Inr mounts) # t))" (is "always ?p _") for mounts
  proof -
    have "each_call (\<lambda>e. \<forall>r. e \<noteq> EvListMounts r) ?p" using no_list by (rule bind_parts)
    moreover have "each_call (\<lambda>e. \<not> touches ''sip-root-ca'' e) ?p" if "''sip-root-ca/'' \<in> mounts"
      using that interm_leaves_root by (intro bind_parts) simp_all
    moreover have "each_call (\<lambda>e. \<not> touches ''sip-interm-ca'' e) ?p" if "''sip-interm-ca/'' \<in> mounts"
      using that root_leaves_interm by (intro bind_parts) simp_all
    ultimately have "always ?p (\<lambda>t. list_all (\<lambda>e. \<forall>r. e \<noteq> EvListMounts r) t \<and>
        (''sip-root-ca/'' \<in> mounts \<longrightarrow> list_all (\<lambda>e. \<not> touches ''sip-root-ca'' e) t) \<and>
        (''sip-interm-ca/'' \<in> mounts \<longrightarrow> list_all (\<lambda>e. \<not> touches ''sip-interm-ca'' e) t))"
      by (cases "''sip-root-ca/'' \<in> mounts"; cases "''sip-interm-ca/'' \<in> mounts")
        (simp_all add: always_conj)
    then show ?thesis
      by (rule always_mono) (auto simp: keeps_listed_def list_all_iff touches_def)
  qed
  moreover have "keeps_listed []" "keeps_listed [EvListMounts (Inl e)]" for e
    by (simp_all add: keeps_listed_def)
  ultimately show ?thesis
    by (auto simp: pki_main_def split: sum.split split del: if_split)
qed

definition pki_harmless :: "event \<Rightarrow> bool" where
  "pki_harmless e \<longleftrightarrow> (\<forall>r. e \<noteq> EvListMounts r) \<and> (\<forall>m. \<not> touches m e) \<and> (\<forall>g. e \<noteq> EvGo g)"

lemma pki_init_harmless: "each_call pki_harmless pki_init"
  by (auto simp: pki_init_def read_namespace_def Let_def pki_harmless_def touches_def
      split: option.split sum.split)

lemma persist_harmless: "each_call pki_harmless (persist_root_ca x)"
  by (auto simp: persist_root_ca_def set_err_def pki_harmless_def touches_def
      split: prod.split option.split sum.split)

lemma pki_job_keeps: "always pki_job keeps_listed"
  unfolding pki_job_def
proof (rule always_bindI [OF pki_init_harmless])
  have app: "keeps_listed (t @ t')" if "list_all pki_harmless t" "keeps_listed t'" for t t'
  proof -
    from that(1) have "\<And>e r. e \<in> set t \<Longrightarrow> e \<noteq> EvListMounts r" "\<And>m. list_all (\<lambda>e. \<not> touches m e) t"
      by (auto simp: pki_harmless_def list_all_iff)
    with that(2) show ?thesis by (auto simp: keeps_listed_def)
  qed
  show "keeps_listed t" if "list_all pki_harmless t" for t
    using app [OF that, of "[]"] by (simp add: keeps_listed_def)
  show "always (pki_main v) (\<lambda>t'. keeps_listed (t @ t'))" if "list_all pki_harmless t" for t v
    by (rule always_mono [OF pki_main_keeps]) (rule app [OF that])
qed

subsection \<open>The two goroutines\<close>

definition pki_call :: "event \<Rightarrow> bool" where
  "pki_call e \<longleftrightarrow> (case e of EvGo g \<Rightarrow> (\<exists>ns cert. g = PersistRootCA ns cert) | _ \<Rightarrow> True)"

lemma pki_job_call: "each_call pki_call pki_job"
proof -
  have "each_call pki_call (enablePKIRootCA v)" "each_call pki_call (enablePKIIntermCA v)" for v
    by (auto simp: enablePKIRootCA_def enablePKIIntermCA_def pki_defs pki_call_def
        split: option.split sum.split)
  then have "each_call pki_call (pki_main v)" for v
    by (auto simp: pki_main_def always_conj pki_call_def intro!: each_call_bind split: sum.split)
  moreover have "each_call pki_call pki_init"
    by (rule always_mono [OF pki_init_harmless])
      (auto simp: pki_harmless_def pki_call_def list_all_iff split: event.split)
  ultimately show ?thesis unfolding pki_job_def by (intro each_call_bind)
qed

lemma pki_execs_calls: "pki_execs ms c \<Longrightarrow> list_all pki_call (all_calls ms)"
proof (rule exec_each_call [OF _ pki_job_call])
  fix g
  assume "pki_call (EvGo g)"
  then obtain ns cert where "g = PersistRootCA ns cert" by (auto simp: pki_call_def)
  then show "each_call pki_call (pki_body g)"
    using always_mono [OF persist_harmless, where J = "list_all pki_call"]
    by (auto simp: pki_harmless_def pki_call_def list_all_iff split: event.split)
qed

lemma pki_goroutine:
  assumes "pki_execs ms c" and "0 < i" and "i < length (threads c)"
  obtains ns cert where "EvGo (PersistRootCA ns cert) \<in> set (all_calls ms)"
    "steps (persist_root_ca (ns, cert)) (calls_of i ms) = Some (threads c ! i)"
proof -
  from exec_goroutine [OF assms(1,3)] assms(2) obtain g where
    g: "EvGo g \<in> set (all_calls ms)" "steps (pki_body g) (calls_of i ms) = Some (threads c ! i)"
    by (auto simp: spawned_EvGo)
  with pki_execs_calls [OF assms(1)] have "pki_call (EvGo g)" by (auto simp: list_all_iff)
  then obtain ns cert where "g = PersistRootCA ns cert" by (auto simp: pki_call_def)
  with g that show thesis by simp
qed

lemma pki_goroutine_harmless:
  assumes "pki_execs ms c" and "Act i e \<in> set ms" and "i \<noteq> 0"
  shows "pki_harmless e"
proof -
  from Act_in_range [OF assms(1,2)] assms(3) pki_goroutine [OF assms(1)] obtain ns cert where
    "steps (persist_root_ca (ns, cert)) (calls_of i ms) = Some (threads c ! i)" by blast
  from always_steps [OF persist_harmless this] assms(2) show ?thesis
    by (auto simp: list_all_iff in_calls_of_iff)
qed

lemma pki_main_made:
  assumes "pki_execs ms c" and "e \<in> set (all_calls ms)" and "\<not> pki_harmless e"
  shows "e \<in> set (calls_of 0 ms)"
  using pki_goroutine_harmless [OF assms(1)] assms(2,3)
  by (auto simp: all_calls_iff in_calls_of_iff)

text \<open>Only \<^verbatim>\<open>main\<close> can end the process with code 0.\<close>

lemma pki_exit_0:
  assumes "pki_execs ms c" and "exit_code c = Some 0"
  shows "accepts pki_job (calls_of 0 ms) (Exited 0) \<or> accepts pki_job (calls_of 0 ms) (Returned ())"
proof -
  have "exit_code (start pki_job) = None" by (simp add: start_def)
  from exec_exit [OF assms(1) this assms(2)] obtain i where
    i: "i < length (threads c)" "stop_code i (threads c ! i) = Some 0" by auto
  have "i = 0"
  proof (rule ccontr)
    assume "i \<noteq> 0"
    with i(1) pki_goroutine [OF assms(1)] obtain ns cert where
      st: "steps (persist_root_ca (ns, cert)) (calls_of i ms) = Some (threads c ! i)" by blast
    from i(2) \<open>i \<noteq> 0\<close> have "ended (threads c ! i) = Some (Exited 0)"
      by (auto simp: stop_code_def split: option.splits outcome.splits)
    with st have "accepts (persist_root_ca (ns, cert)) (calls_of i ms) (Exited 0)"
      by (simp add: accepts_iff_steps)
    from root_ca.fails_fatally [OF this] show False by simp
  qed
  with i obtain out where "ended (threads c ! 0) = Some out" and out: "out = Exited 0 \<or> out = Returned ()"
    by (auto simp: stop_code_def split: option.splits outcome.splits)
  with exec_main [OF assms(1)] show ?thesis by (auto simp: accepts_iff_steps)
qed

subsection \<open>Before the goroutine starts\<close>

text \<open>Until \<^verbatim>\<open>main\<close> starts its goroutine nobody else writes the shared variable, so \<^verbatim>\<open>main\<close> reads what it
  stored last.\<close>

fun before_go :: "event list \<Rightarrow> event list" where
  "before_go [] = []"
| "before_go (e # t) = (case e of EvGo g \<Rightarrow> [] | _ \<Rightarrow> e # before_go t)"

lemma alone_before_go:
  "exec body c ms = Some c' \<Longrightarrow> length (threads c) = 1 \<Longrightarrow>
   undisturbed_from (err_var c) (before_go (calls_of 0 ms)) \<and>
   before_go (all_calls ms) = before_go (calls_of 0 ms)"
proof (induction ms arbitrary: c)
  case Nil
  then show ?case by simp
next
  case (Cons m ms)
  then obtain c1 where m: "move_step body c m = Some c1" and ms: "exec body c1 ms = Some c'"
    by (auto split: option.splits)
  show ?case
  proof (cases m)
    case (Act i e)
    with m Cons.prems(2) obtain p where i: "i = 0"
      and eff: "shared_effect body (c\<lparr>threads := [p]\<rparr>) e = Some c1"
      by (cases "threads c") (auto split: if_splits option.splits)
    show ?thesis
    proof (cases "\<exists>g. e = EvGo g")
      case False
      with eff have "length (threads c1) = 1" by (auto dest: shared_effect_threads)
      from Cons.IH [OF ms this] eff False show ?thesis
        by (auto simp: Act i shared_effect_def split: event.splits if_splits)
    qed (auto simp: Act i)
  next
    case (Stop i)
    with m ms have "ms = []" by (cases ms) (auto dest: move_step_running split: if_splits option.splits)
    with Stop show ?thesis by simp
  qed
qed

lemma before_go_prefix: "\<exists>u. t = before_go t @ u"
  by (induction t) (auto split: event.split)

definition early :: "event list \<Rightarrow> bool" where
  "early t \<longleftrightarrow> undisturbed (before_go t)"

lemma pki_early: "pki_execs ms c \<Longrightarrow> early (calls_of 0 ms)"
  using alone_before_go [of pki_body "start pki_job" ms c] by (simp add: early_def start_def)

lemma early_prefix: "early (s @ t) \<Longrightarrow> early s"
proof -
  have "undisturbed_from w (before_go (s @ t)) \<Longrightarrow> undisturbed_from w (before_go s)" for w
    by (induction s arbitrary: w) (auto split: event.splits)
  then show "early (s @ t) \<Longrightarrow> early s" by (simp add: early_def)
qed

subsection \<open>Properties\<close>

lemma listed_untouched:
  assumes "pki_execs ms c" and "EvListMounts (Inr mounts) \<in> set (all_calls ms)"
    and "m = ''sip-root-ca'' \<or> m = ''sip-interm-ca''" and "m @ ''/'' \<in> mounts"
  shows "list_all (\<lambda>e. \<not> touches m e) (all_calls ms)"
proof -
  have "\<not> pki_harmless (EvListMounts (Inr mounts))" by (simp add: pki_harmless_def)
  from pki_main_made [OF assms(1,2) this] have "EvListMounts (Inr mounts) \<in> set (calls_of 0 ms)" .
  with always_steps [OF pki_job_keeps exec_main [OF assms(1)]] assms(3,4)
  have main: "list_all (\<lambda>e. \<not> touches m e) (calls_of 0 ms)" unfolding keeps_listed_def by blast
  have "\<not> touches m e" if "e \<in> set (all_calls ms)" for e
    using pki_main_made [OF assms(1) that] main by (auto simp: pki_harmless_def list_all_iff)
  then show ?thesis by (simp add: list_all_iff)
qed

text \<open>C20: at every moment of every schedule, a mount of the job that Vault listed at the
  start is left alone: no call enables, tunes or configures it, generates a key in it, sets its
  certificate or patches one of its roles.\<close>

theorem pki_listed_mounts_untouched:
  assumes "pki_execs ms c" and "EvListMounts (Inr mounts) \<in> set (all_calls ms)"
    and "m = ''sip-root-ca'' \<or> m = ''sip-interm-ca''" and "m @ ''/'' \<in> mounts"
  shows "list_all (\<lambda>e. \<not> touches m e) (all_calls ms)"
  using assms by (rule listed_untouched)

text \<open>The calls that make the intermediate CA, in order.\<close>

definition interm_chain :: "string \<Rightarrow> string \<Rightarrow> event list" where
  "interm_chain csr cert =
     [EvDo (MountsTuneConfigurationParameters ''sip-interm-ca'' ''168h'') None,
      EvDo (PkiConfigureUrls ''sip-interm-ca'' (urls_of ''sip-interm-ca'')) None,
      EvDo (PkiWriteRole ''sip-interm-ca'' ''interm-ca'' interm_role_request) None,
      EvAsk (PkiGenerateIntermediate ''sip-interm-ca'' ''internal'' interm_generate_request) (Inr csr),
      EvAsk (PkiRootSignIntermediate ''sip-root-ca'' (interm_sign_request csr)) (Inr cert),
      EvDo (PkiSetSignedIntermediate ''sip-interm-ca'' cert) None]"

definition interm_made :: "event list \<Rightarrow> bool" where
  "interm_made t \<longleftrightarrow> (\<exists>csr cert. subseq (interm_chain csr cert) t)"

lemma interm_made_append: "interm_made t \<Longrightarrow> interm_made (s @ t)"
  unfolding interm_made_def by (blast intro: list_emb_append2)

lemma interm_runs:
  "all_paths (enablePKIIntermCA v) (\<lambda>t out. out \<noteq> Exited 0 \<and>
     (out = Returned () \<longrightarrow> interm_made t))"
  by (auto simp: interm_made_def enablePKIIntermCA_def pki_defs rootCAPath_def intermCAPath_def intermCARole_def
      intermCATTL_def interm_chain_def split: option.split sum.split)

lemma root_runs: "all_paths (enablePKIRootCA v) (\<lambda>t out. out \<noteq> Exited 0)"
  by (auto simp: enablePKIRootCA_def pki_defs split: option.split sum.split)

lemma pki_init_runs: "all_paths pki_init (\<lambda>t out. out \<noteq> Exited 0)"
  by (auto simp: pki_init_def read_namespace_def Let_def split: option.split sum.split)

abbreviation pki_rest :: "string set \<Rightarrow> pki_vars \<Rightarrow> unit prog" where
  "pki_rest mounts v \<equiv> bind (if ''sip-root-ca/'' \<notin> mounts then enablePKIRootCA v else Ret ()) (\<lambda>_.
     bind (if ''sip-interm-ca/'' \<notin> mounts then enablePKIIntermCA v else Ret ()) (\<lambda>_. Exit 0))"

lemma pki_rest_runs:
  "all_paths (pki_rest mounts v) (\<lambda>t out. (\<forall>x. out \<noteq> Returned x) \<and>
     (out = Exited 0 \<longrightarrow> ''sip-interm-ca/'' \<notin> mounts \<longrightarrow> interm_made t))"
proof -
  have interm: "all_paths (bind (if ''sip-interm-ca/'' \<notin> mounts then enablePKIIntermCA v else Ret ())
        (\<lambda>_. Exit 0))
      (\<lambda>t out. (\<forall>x. out \<noteq> Returned x) \<and>
         (out = Exited 0 \<longrightarrow> ''sip-interm-ca/'' \<notin> mounts \<longrightarrow> interm_made t))"
    by (auto simp: all_paths_bind intro!: all_paths_mono [OF interm_runs] split: outcome.split)
  have root: "all_paths (if ''sip-root-ca/'' \<notin> mounts then enablePKIRootCA v else Ret ())
      (\<lambda>t out. out \<noteq> Exited 0)"
    by (simp add: root_runs)
  show ?thesis
    by (rule all_paths_bindI [OF root], rule all_paths_mono [OF interm])
      (auto intro: interm_made_append)
qed

lemma pki_exit_0_rest:
  assumes "accepts pki_job t out" and "out = Exited 0 \<or> out = Returned ()"
  obtains t0 v mounts u where "t = t0 @ EvListMounts (Inr mounts) # u"
    "list_all (\<lambda>e. \<forall>r. e \<noteq> EvListMounts r) (t0 @ u)" "accepts (pki_rest mounts v) u out"
    "accepts pki_init t0 (Returned v)"
proof -
  from accepts_bindD [OF assms(1) [unfolded pki_job_def]] assms(2)
    all_paths_accepts [OF pki_init_runs, of t "Exited 0"]
  obtain t0 t2 v where t: "t = t0 @ t2" and t0: "accepts pki_init t0 (Returned v)"
    and t2: "accepts (pki_main v) t2 out" by blast
  have l0: "list_all (\<lambda>e. \<forall>r. e \<noteq> EvListMounts r) t0"
    using always_accepts [OF pki_init_harmless t0] by (auto simp: pki_harmless_def list_all_iff)
  from t2 assms(2) obtain mounts u where u: "t2 = EvListMounts (Inr mounts) # u"
    and acc: "accepts (pki_rest mounts v) u out"
    by (cases t2) (auto simp: pki_main_def split: event.splits sum.splits split del: if_split)
  have "each_call (\<lambda>e. \<forall>r. e \<noteq> EvListMounts r) (pki_rest mounts v)" using no_list by (rule bind_parts)
  from always_accepts [OF this acc] l0 t u acc t0 that show thesis by simp
qed

lemma pki_chain_made:
  assumes "pki_execs ms c" and "exit_code c = Some 0"
    and "EvListMounts (Inr mounts) \<in> set (all_calls ms)" and "''sip-interm-ca/'' \<notin> mounts"
  shows "\<exists>csr cert. subseq (interm_chain csr cert) (calls_of 0 ms)"
proof -
  from pki_exit_0 [OF assms(1,2)] obtain out where acc: "accepts pki_job (calls_of 0 ms) out"
    and out: "out = Exited 0 \<or> out = Returned ()" by blast
  from pki_exit_0_rest [OF acc out] obtain t0 v mounts' u where
    t: "calls_of 0 ms = t0 @ EvListMounts (Inr mounts') # u"
    and once: "list_all (\<lambda>e. \<forall>r. e \<noteq> EvListMounts r) (t0 @ u)" and u: "accepts (pki_rest mounts' v) u out"
    and "accepts pki_init t0 (Returned v)" .
  have "\<not> pki_harmless (EvListMounts (Inr mounts))" by (simp add: pki_harmless_def)
  from pki_main_made [OF assms(1,3) this] once have "mounts' = mounts"
    by (auto simp: t list_all_iff)
  with all_paths_accepts [OF pki_rest_runs u] out assms(4)
  have "interm_made u" by auto
  then have "interm_made ((t0 @ [EvListMounts (Inr mounts')]) @ u)" by (rule interm_made_append)
  then show ?thesis by (simp add: t interm_made_def)
qed

text \<open>C7: if the job ends with exit code 0 and the intermediate mount was not listed, then in
  every schedule the intermediate CA has been made: its mount tuned and given URLs and a
  role, a CSR generated in it, exactly that CSR signed by the root mount, and exactly the
  signed certificate installed, in this order and with every call successful.\<close>

theorem pki_intermediate_chain:
  assumes "pki_execs ms c" and "exit_code c = Some 0"
    and "EvListMounts (Inr mounts) \<in> set (all_calls ms)" and "''sip-interm-ca/'' \<notin> mounts"
  shows "\<exists>csr cert. subseq (interm_chain csr cert) (calls_of 0 ms)"
  using assms by (rule pki_chain_made)

lemma generated_root:
  "always (enablePKIRootCA v) (\<lambda>t. length (spawned t) \<le> 1 \<and> list_all (\<lambda>e. secret_write e = None) t \<and>
     (\<forall>ns cert. EvGo (PersistRootCA ns cert) \<in> set t \<longrightarrow> ns = pki_ns v \<and>
        EvAsk (PkiGenerateRoot ''sip-root-ca'' ''internal'' root_generate_request) (Inr cert) \<in> set t))"
  by (auto simp: enablePKIRootCA_def pki_defs rootCAPath_def split: option.split sum.split)

definition starts_one :: "event list \<Rightarrow> bool" where
  "starts_one t \<longleftrightarrow> length (spawned t) \<le> 1 \<and> list_all (\<lambda>e. secret_write e = None) t \<and>
     (\<forall>ns cert. EvGo (PersistRootCA ns cert) \<in> set t \<longrightarrow>
        EvAsk (PkiGenerateRoot ''sip-root-ca'' ''internal'' root_generate_request) (Inr cert) \<in> set t)"

definition no_start :: "event \<Rightarrow> bool" where
  "no_start e \<longleftrightarrow> (\<forall>g. e \<noteq> EvGo g) \<and> secret_write e = None"

lemma before_go_append:
  "list_all no_start s \<Longrightarrow> before_go (s @ t) = s @ before_go t"
  by (induction s) (auto simp: no_start_def split: event.splits)

lemma no_start_spawned: "list_all no_start t \<Longrightarrow> spawned t = [] \<and> (\<forall>g. EvGo g \<notin> set t)"
  by (induction t) (auto simp: no_start_def split: event.splits)

lemma starts_one_append:
  assumes "list_all no_start t"
  shows "starts_one s \<Longrightarrow> starts_one (t @ s)" and "starts_one s \<Longrightarrow> starts_one (s @ t)" and "starts_one t"
  using no_start_spawned [OF assms] assms
  by (auto simp: starts_one_def no_start_def list_all_iff)

lemma interm_no_start: "each_call no_start (enablePKIIntermCA v)"
  by (auto simp: enablePKIIntermCA_def pki_defs no_start_def split: option.split sum.split)

lemma pki_init_no_start: "each_call no_start pki_init"
  by (auto simp: pki_init_def read_namespace_def Let_def no_start_def split: option.split sum.split)

lemma root_starts_one: "always (enablePKIRootCA v) starts_one"
  by (rule always_mono [OF generated_root]) (auto simp: starts_one_def)

lemma pki_rest_starts_one: "always (pki_rest mounts v) starts_one"
proof -
  let ?q = "bind (if ''sip-interm-ca/'' \<notin> mounts then enablePKIIntermCA v else Ret ()) (\<lambda>_. Exit 0)"
  have q: "each_call no_start ?q" by (rule each_call_bind) (simp_all add: interm_no_start)
  have p: "always (if ''sip-root-ca/'' \<notin> mounts then enablePKIRootCA v else Ret ()) starts_one"
    by (simp add: root_starts_one starts_one_def)
  have "always ?q (\<lambda>t'. starts_one (t @ t'))" if "starts_one t" for t
    by (rule always_mono [OF q]) (rule starts_one_append(2) [OF _ that])
  with p show ?thesis
    unfolding always_bind [of "if _ then _ else _"]
    by (intro conjI accepts_all_pathsI) (auto dest: always_accepts [OF p] simp del: always_bind)
qed

lemma pki_job_starts_one: "always pki_job starts_one"
proof -
  have nil: "starts_one []" and lst: "starts_one [EvListMounts r]" for r
    by (simp_all add: starts_one_def)
  have m: "always (pki_main v) starts_one" for v
  proof -
    have "always (pki_rest mounts v) (\<lambda>t. starts_one (EvListMounts r # t))" for mounts r
      by (rule always_mono [OF pki_rest_starts_one])
        (use starts_one_append(1) [of "[EvListMounts r]"] in \<open>simp add: no_start_def\<close>)
    then show ?thesis using nil lst
      by (auto simp: pki_main_def split: sum.split split del: if_split)
  qed
  show ?thesis
    unfolding pki_job_def
    by (rule always_bindI [OF pki_init_no_start])
      (auto intro: starts_one_append always_mono [OF m])
qed

lemma pki_starts:
  assumes "pki_execs ms c"
  shows "spawned (all_calls ms) = spawned (calls_of 0 ms)"
proof -
  have "\<not> (\<exists>g. e = EvGo g)" if "Act i e \<in> set ms" "i \<noteq> 0" for i e
    using pki_goroutine_harmless [OF assms that] by (simp add: pki_harmless_def)
  then have "filter (\<lambda>e. \<exists>g. e = EvGo g) (all_calls ms) = filter (\<lambda>e. \<exists>g. e = EvGo g) (calls_of 0 ms)"
    by (rule filter_main_calls)
  then show ?thesis by (metis spawned_filter)
qed

lemma root_certificate_in_secret:
  assumes "pki_execs ms c" and "0 < i" and "i < length (threads c)"
    and "ended (threads c ! i) = Some (Returned ())" and "undisturbed (calls_of i ms)"
    and "conforms st (all_calls ms)"
  shows "\<exists>ns cert m.
    EvAsk (PkiGenerateRoot ''sip-root-ca'' ''internal'' root_generate_request) (Inr cert) \<in> set (all_calls ms) \<and>
    replay st (all_calls ms) (ns, ''sip-root-ca'') = Some m \<and> m ''ca.pem'' = Some cert"
proof -
  from pki_goroutine [OF assms(1-3)] obtain ns cert where
    go: "EvGo (PersistRootCA ns cert) \<in> set (all_calls ms)"
    and st: "steps (persist_root_ca (ns, cert)) (calls_of i ms) = Some (threads c ! i)" .
  from always_steps [OF pki_job_starts_one exec_main [OF assms(1)]]
  have one: "starts_one (calls_of 0 ms)" .
  from go pki_main_made [OF assms(1) go] one have
    gen: "EvAsk (PkiGenerateRoot ''sip-root-ca'' ''internal'' root_generate_request) (Inr cert)
      \<in> set (all_calls ms)"
    unfolding starts_one_def by (auto simp: pki_harmless_def intro: calls_of_subset)
  have "secret_write e = None" if "Act j e \<in> set ms" "j \<noteq> i" for j e
  proof (cases "j = 0")
    case True
    with that one show ?thesis by (auto simp: starts_one_def list_all_iff in_calls_of_iff)
  next
    case False
    have "length (threads c) \<le> 2"
      using exec_started [OF assms(1)] one pki_starts [OF assms(1)] by (simp add: starts_one_def)
    with Act_in_range [OF assms(1) that(1)] False that(2) assms(2,3) show ?thesis by linarith
  qed
  from one_writer [OF this] assms(6)
  have eq: "replay st (all_calls ms) = replay st (calls_of i ms)" and cf: "conforms st (calls_of i ms)"
    by auto
  from st assms(4) have "accepts (persist_root_ca (ns, cert)) (calls_of i ms) (Returned ())"
    by (simp add: accepts_iff_steps)
  from root_ca.stored [OF this assms(5) cf]
  obtain m where "replay st (calls_of i ms) (ns, ''sip-root-ca'') = Some m" "m ''ca.pem'' = Some cert"
    by (auto simp: map_le_def)
  with gen show ?thesis unfolding eq by blast
qed

text \<open>C27: once the goroutine has returned, and if no assignment of \<^verbatim>\<open>main\<close> to the shared
  variable came between its own assignments and its reads, the Secret sip-root-ca holds the
  certificate that Vault generated for the root mount.\<close>

theorem pki_root_certificate_stored:
  assumes "pki_execs ms c" and "0 < i" and "i < length (threads c)"
    and "ended (threads c ! i) = Some (Returned ())" and "undisturbed (calls_of i ms)"
    and "conforms st (all_calls ms)"
  shows "\<exists>ns cert m.
    EvAsk (PkiGenerateRoot ''sip-root-ca'' ''internal'' root_generate_request) (Inr cert) \<in> set (all_calls ms) \<and>
    replay st (all_calls ms) (ns, ''sip-root-ca'') = Some m \<and> m ''ca.pem'' = Some cert"
  using assms by (rule root_certificate_in_secret)

subsection \<open>Schedules\<close>

definition pki_head :: "string set \<Rightarrow> event list" where
  "pki_head mounts =
     [EvAsk (ReadFile namespace_file) (Inr ''sip''), EvDo InClusterConfig None, EvDo NewForConfig None,
      EvGetSecret ''sip'' ''vault-root-token'' (Inl (PlainError ''none'')),
      EvDo (VaultNew ''https://vault-internal:8200'' ca_file) None, EvDo (SetToken []) None,
      EvListMounts (Inr mounts)]"

definition root_head :: "event list" where
  "root_head =
     [EvDo (MountsEnableSecretsEngine rootCAPath (pki_mount_request ''server authn'')) None,
      EvDo (MountsTuneConfigurationParameters rootCAPath rootCATTL) None, EvStoreErr None, EvLoadErr None,
      EvAsk (PkiGenerateRoot ''sip-root-ca'' ''internal'' root_generate_request) (Inr ''C''),
      EvStoreErr None, EvLoadErr None, EvGo (PersistRootCA ''sip'' ''C''),
      EvDo (PkiConfigureUrls rootCAPath (urls_of rootCAPath)) None, EvStoreErr None, EvLoadErr None]"

definition root_role_call :: "go_error option \<Rightarrow> event" where
  "root_role_call r = EvDo (PkiWriteRole ''sip-root-ca'' ''root-ca'' root_role_request) r"

definition no_patch :: "string \<Rightarrow> event" where
  "no_patch rest = EvDo (HttpNewRequest ''PATCH'' (v1_url rest) patchBody) (Some (PlainError ''url''))"

definition interm_events :: "event list" where
  "interm_events =
     [EvDo (MountsEnableSecretsEngine ''sip-interm-ca'' (pki_mount_request ''server authn'')) None] @
     take 3 (interm_chain ''R'' ''I'') @ [no_patch ''sip-interm-ca/roles/interm-ca''] @
     drop 3 (interm_chain ''R'' ''I'')"

text \<open>Both mounts are new, and the goroutine stores the certificate before \<^verbatim>\<open>main\<close> exits.\<close>

definition pki_good :: "move list" where
  "pki_good = map (Act 0) (pki_head {} @ root_head) @
     [Act 1 (EvDo (CreateSecret ''sip'' (root_ca_secret ''C'')) None), Act 1 (EvStoreErr None),
      Act 1 (EvLoadErr None)] @
     map (Act 0) ([root_role_call None, EvStoreErr None, EvLoadErr None,
       no_patch ''sip-root-ca/roles/root-ca''] @ interm_events) @ [Stop 0]"

lemmas pki_sample_defs = pki_head_def root_head_def root_role_call_def no_patch_def interm_events_def
  interm_chain_def pki_job_def pki_init_def pki_main_def enablePKIRootCA_def enablePKIIntermCA_def
  persist_root_ca_def disableFlag_def set_err_def read_namespace_def file_contents_def v1_url_def
  VAULT_INTERNAL_SERVICE_NAME_def rootCAPath_def intermCAPath_def rootCARole_def intermCARole_def
  intermCATTL_def got_or_empty_def empty_secret_def data_get_def start_def shared_effect_def stop_code_def

lemma pki_good_exec:
  "\<exists>c. pki_execs pki_good c \<and> exit_code c = Some 0 \<and> length (threads c) = 2 \<and>
     ended (threads c ! 1) = Some (Returned ())"
  by (simp add: pki_good_def pki_sample_defs Let_def)

lemma undisturbed_pki_good: "undisturbed (calls_of 1 pki_good)"
  by (simp add: pki_good_def pki_head_def root_head_def interm_events_def interm_chain_def)

lemma conforms_pki_good: "conforms Map.empty (all_calls pki_good)"
  by (simp add: pki_good_def pki_head_def root_head_def interm_events_def interm_chain_def
      root_role_call_def no_patch_def reply_ok_def IsNotFound_def root_ca_secret_def)

theorem pki_listed_mounts_untouched_witness:
  "\<exists>c. pki_execs (map (Act 0) (pki_head {''sip-root-ca/''})) c \<and>
     list_all (\<lambda>e. \<not> touches ''sip-root-ca'' e) (all_calls (map (Act 0) (pki_head {''sip-root-ca/''})))"
proof -
  have "\<exists>c. pki_execs (map (Act 0) (pki_head {''sip-root-ca/''})) c"
    by (simp add: pki_sample_defs Let_def)
  then obtain c where c: "pki_execs (map (Act 0) (pki_head {''sip-root-ca/''})) c" ..
  have "EvListMounts (Inr {''sip-root-ca/''}) \<in> set (all_calls (map (Act 0) (pki_head {''sip-root-ca/''})))"
    by (simp add: pki_head_def)
  from pki_listed_mounts_untouched [OF c this, of "''sip-root-ca''"] c show ?thesis by auto
qed

theorem pki_intermediate_chain_witness:
  "\<exists>csr cert. subseq (interm_chain csr cert) (calls_of 0 pki_good)"
proof -
  obtain c where c: "pki_execs pki_good c" "exit_code c = Some 0" using pki_good_exec by blast
  have "EvListMounts (Inr {}) \<in> set (all_calls pki_good)" by (simp add: pki_good_def pki_head_def)
  from pki_intermediate_chain [OF c this] show ?thesis by simp
qed

theorem pki_root_certificate_stored_witness:
  "\<exists>ns cert m.
    EvAsk (PkiGenerateRoot ''sip-root-ca'' ''internal'' root_generate_request) (Inr cert)
      \<in> set (all_calls pki_good) \<and>
    replay Map.empty (all_calls pki_good) (ns, ''sip-root-ca'') = Some m \<and> m ''ca.pem'' = Some cert"
proof -
  obtain c where c: "pki_execs pki_good c" "length (threads c) = 2"
    "ended (threads c ! 1) = Some (Returned ())" using pki_good_exec by blast
  from pki_root_certificate_stored [OF c(1) _ _ c(3) undisturbed_pki_good conforms_pki_good] c(2)
  show ?thesis by simp
qed

definition masked_schedule :: "move list" where
  "masked_schedule = map (Act 0) (pki_head {''sip-interm-ca/''} @ root_head @
       [root_role_call (Some (VaultError ''refused'')), EvStoreErr (Some (VaultError ''refused''))]) @
     [Act 1 (EvDo (CreateSecret ''sip'' (root_ca_secret ''C'')) None), Act 1 (EvStoreErr None)] @
     map (Act 0) [EvLoadErr None, no_patch ''sip-root-ca/roles/root-ca''] @ [Stop 0]"

definition invented_schedule :: "move list" where
  "invented_schedule = map (Act 0) (pki_head {''sip-interm-ca/''} @ root_head @
       [root_role_call None, EvStoreErr None]) @
     [Act 1 (EvDo (CreateSecret ''sip'' (root_ca_secret ''C'')) (Some (StatusError AlreadyExists ''s''))),
      Act 1 (EvStoreErr (Some (StatusError AlreadyExists ''s''))),
      Act 0 (EvLoadErr (Some (StatusError AlreadyExists ''s''))), Stop 0]"

text \<open>The shared variable can hide a failure and invent one.  There is a schedule in which
  Vault refuses the role of the root mount and the process still ends with code 0, because the
  goroutine overwrites \<^verbatim>\<open>err\<close> before \<^verbatim>\<open>main\<close> tests it; and one in which every call of \<^verbatim>\<open>main\<close>
  succeeds and the process ends with code 1, because \<^verbatim>\<open>main\<close> reads the goroutine's
  AlreadyExists, from which the goroutine was about to recover.\<close>

theorem pki_shared_err_race:
  "(\<exists>c. pki_execs masked_schedule c \<and> exit_code c = Some 0 \<and>
      root_role_call (Some (VaultError ''refused'')) \<in> set (calls_of 0 masked_schedule)) \<and>
   (\<exists>c. pki_execs invented_schedule c \<and> exit_code c = Some 1 \<and>
      (\<forall>a e. EvDo a (Some e) \<notin> set (calls_of 0 invented_schedule)))"
  by (simp add: masked_schedule_def invented_schedule_def pki_sample_defs Let_def)

definition early_exit_schedule :: "move list" where
  "early_exit_schedule = map (Act 0) (pki_head {''sip-interm-ca/''} @ root_head @
     [root_role_call None, EvStoreErr None, EvLoadErr None, no_patch ''sip-root-ca/roles/root-ca'']) @ [Stop 0]"

text \<open>\<^verbatim>\<open>main\<close> does not wait for the goroutine.  There is a schedule in which the root CA has
  been generated and the job ends with code 0, and no secret has been written.\<close>

theorem pki_exit_before_secret:
  "\<exists>c. pki_execs early_exit_schedule c \<and> exit_code c = Some 0 \<and>
     EvAsk (PkiGenerateRoot ''sip-root-ca'' ''internal'' root_generate_request) (Inr ''C'')
       \<in> set (all_calls early_exit_schedule) \<and>
     written_keys (all_calls early_exit_schedule) = {}"
  by (simp add: early_exit_schedule_def pki_sample_defs Let_def)

end
