(* ===== verification/Vault_Pki_Liveness.thy ===== *)
theory Vault_Pki_Liveness
  imports Vault_Pki_Schedules Go_Progress
begin

text \<open>
  That the process of pki/main.go ends: every schedule is bounded, and as long as the process has
  not ended it can go on.
\<close>

text \<open>A partial run of at most \<open>n\<close> calls, none of which waits.\<close>

definition brief :: "nat \<Rightarrow> event list \<Rightarrow> bool" where
  "brief n t \<longleftrightarrow> length t \<le> n \<and> EvWgWait \<notin> set t"

lemma brief_bind:
  assumes "always p (brief m)" and "\<And>x. always (f x) (brief n)"
  shows "always (bind p f) (brief (m + n))"
  unfolding always_bind
proof (intro conjI accepts_all_pathsI allI impI)
  show "always p (brief (m + n))" by (rule always_mono [OF assms(1)]) (simp add: brief_def)
  fix t out x assume "accepts p t out"
  with assms(1) have "brief m t" by (rule always_accepts)
  then show "always (f x) (\<lambda>t'. brief (m + n) (t @ t'))"
    by (intro always_mono [OF assms(2)]) (simp add: brief_def)
qed

lemma pki_parts_brief:
  "always pki_init (brief 6)"
  "always (enablePKIRootCA v) (brief 17)"
  "always (enablePKIIntermCA v) (brief 10)"
  "always (persist_root_ca x) (brief 9)"
  by (auto simp: brief_def pki_init_def read_namespace_def enablePKIRootCA_def enablePKIIntermCA_def persist_root_ca_def
      pki_defs split: option.split sum.split prod.split)

lemma brief_skip: "always p (brief n) \<Longrightarrow> always (if b then p else Ret ()) (brief n)"
  by (simp add: brief_def)

lemma pki_rest_brief: "always (pki_rest mounts v) (brief (17 + (10 + 0)))"
  by (intro brief_bind brief_skip pki_parts_brief) (simp add: brief_def)

lemma pki_main_brief: "always (pki_main v) (brief 28)"
proof -
  have "always (pki_rest mounts v) (\<lambda>t. brief 28 (EvListMounts r # t))" for mounts r
    by (rule always_mono [OF pki_rest_brief]) (simp add: brief_def)
  then show ?thesis
    by (auto simp: pki_main_def brief_def split: sum.split split del: if_split)
qed

lemma pki_job_brief: "always pki_job (brief (6 + 28))"
  unfolding pki_job_def by (rule brief_bind [OF pki_parts_brief(1) pki_main_brief])

lemma pki_calls_brief:
  assumes "pki_execs ms c" and "i < length (threads c)"
  shows "brief (if i = 0 then 34 else 9) (calls_of i ms)"
proof (cases "i = 0")
  case True
  then show ?thesis using always_steps [OF pki_job_brief exec_main [OF assms(1)]] by simp
next
  case False
  then obtain ns cert where "steps (persist_root_ca (ns, cert)) (calls_of i ms) = Some (threads c ! i)"
    using pki_goroutine [OF assms(1) _ assms(2)] by blast
  from always_steps [OF pki_parts_brief(4) this] False show ?thesis by simp
qed

lemma pki_threads: "pki_execs ms c \<Longrightarrow> length (threads c) \<le> 2"
  using exec_started [of pki_body pki_job ms c] pki_starts [of ms c] exec_main [of pki_body pki_job ms c]
    always_steps [OF pki_job_starts_one, of "calls_of 0 ms"] by (auto simp: starts_one_def)

text \<open>Whatever the replies and the schedule, the process of the PKI job makes at most 44 moves, and
  as long as it has not ended it can make another one: it always comes to an end.\<close>

theorem pki_ends:
  assumes "pki_execs ms c"
  shows "length ms \<le> 44 \<and> (exit_code c \<noteq> None \<or> (\<exists>m c'. move_step pki_body c m = Some c'))"
proof
  have "Suc 0 \<le> length (threads c)" using exec_length [OF assms] by (simp add: start_def)
  then have pos: "0 < length (threads c)" by (rule Suc_le_lessD)
  have main: "brief 34 (calls_of 0 ms)" using pki_calls_brief [OF assms pos] by simp
  have "length (calls_of i ms) \<le> 9" if "0 < i" "i < length (threads c)" for i
    using pki_calls_brief [OF assms that(2)] that(1) by (simp add: brief_def)
  then have "length ms \<le> 34 + 1 * 9 + 1"
    using main pki_threads [OF assms] by (intro exec_bound [OF assms]) (simp_all add: brief_def)
  then show "length ms \<le> 44" by simp
  show "exit_code c \<noteq> None \<or> (\<exists>m c'. move_step pki_body c m = Some c')"
  proof (rule ccontr)
    assume "\<not> ?thesis"
    then have "stuck pki_body c" by (auto simp: stuck_def)
    with stuck_thread [OF _ pos] obtain k where k: "threads c ! 0 = WgWait k" by auto
    have "steps pki_job (calls_of 0 ms @ [EvWgWait]) = Some k"
      using exec_main [OF assms] k by (simp add: steps_append)
    from always_steps [OF pki_job_brief this] show False by (simp add: brief_def)
  qed
qed

theorem pki_ends_witness: "length pki_good \<le> 44 \<and> (\<exists>c. pki_execs pki_good c \<and> exit_code c = Some 0)"
  using pki_good_exec pki_ends by blast

end
