(* ===== verification/Go_Pem.thy ===== *)
theory Go_Pem
  imports Sip_Prelude "HOL-Library.Char_ord"
begin

text \<open>
  \<^verbatim>\<open>pem.EncodeToMemory\<close> of the Go library for a block without headers, as the bootstrap job
  uses it: the begin line, the standard base64 encoding with padding in lines of 64
  characters, and the end line.  Bytes are characters.  The decoder is the specification the
  encoder is checked against: it inverts it.
\<close>

subsection \<open>Base64\<close>

definition base64_alphabet :: string where
  "base64_alphabet = ''ABCDEFGHIJKLMNOPQRSTUVWXYZabcdefghijklmnopqrstuvwxyz0123456789+/''"

definition sextet :: "nat \<Rightarrow> char" where
  "sextet n = base64_alphabet ! (n mod 64)"

fun base64 :: "nat list \<Rightarrow> string" where
  "base64 [] = []"
| "base64 [a] = [sextet (a div 4), sextet (a mod 4 * 16), CHR ''='', CHR ''='']"
| "base64 [a, b] =
     [sextet (a div 4), sextet (a mod 4 * 16 + b div 16), sextet (b mod 16 * 4), CHR ''='']"
| "base64 (a # b # c # bs) =
     [sextet (a div 4), sextet (a mod 4 * 16 + b div 16), sextet (b mod 16 * 4 + c div 64), sextet (c mod 64)]
     @ base64 bs"

fun position :: "char \<Rightarrow> string \<Rightarrow> nat" where
  "position c [] = 0"
| "position c (d # ds) = (if c = d then 0 else Suc (position c ds))"

definition unsextet :: "char \<Rightarrow> nat" where
  "unsextet c = position c base64_alphabet"

fun unbase64 :: "string \<Rightarrow> nat list" where
  "unbase64 (w # x # y # z # cs) =
     (let a = unsextet w * 4 + unsextet x div 16;
          b = unsextet x mod 16 * 16 + unsextet y div 4;
          c = unsextet y mod 4 * 64 + unsextet z
      in if y = CHR ''='' then [a] else if z = CHR ''='' then [a, b] else a # b # c # unbase64 cs)"
| "unbase64 _ = []"

lemma position_nth: "distinct cs \<Longrightarrow> i < length cs \<Longrightarrow> position (cs ! i) cs = i"
  by (induction cs arbitrary: i) (auto simp: nth_Cons split: nat.split)

lemma alphabet: "distinct base64_alphabet" "length base64_alphabet = 64"
  "CHR ''='' \<notin> set base64_alphabet" "CHR ''\<newline>'' \<notin> set base64_alphabet"
  by (simp_all add: base64_alphabet_def)

lemma unsextet_sextet [simp]: "unsextet (sextet n) = n mod 64"
  by (simp add: unsextet_def sextet_def position_nth alphabet)

lemma sextet_in: "sextet n \<in> set base64_alphabet"
  by (simp add: sextet_def alphabet)

lemma sextet_no_pad [simp]: "sextet n \<noteq> CHR ''=''"
  using sextet_in [of n] alphabet(3) by auto

text \<open>The four sextets of three bytes.\<close>

lemma div_low: "y < d \<Longrightarrow> (x * d + y) div d = x" for x y d :: nat
  by simp

lemma mod_low: "y < d \<Longrightarrow> (x * d + y) mod d = y" for x y d :: nat
  by (simp add: mod_mult_self3)

lemma sextet_small:
  fixes a b c :: nat
  assumes "a < 256" and "b < 256" and "c < 256"
  shows "a div 4 mod 64 = a div 4" and "(a mod 4 * 16 + b div 16) mod 64 = a mod 4 * 16 + b div 16"
    and "(b mod 16 * 4 + c div 64) mod 64 = b mod 16 * 4 + c div 64"
proof -
  have "b div 16 < 16" "c div 64 < 4" "a mod 4 < 4" "b mod 16 < 16" using assms by simp_all
  then show "(a mod 4 * 16 + b div 16) mod 64 = a mod 4 * 16 + b div 16"
    "(b mod 16 * 4 + c div 64) mod 64 = b mod 16 * 4 + c div 64"
    by (intro mod_less; linarith)+
  show "a div 4 mod 64 = a div 4" using assms by simp
qed

lemma bytes_of_sextets:
  fixes a b c :: nat
  assumes "a < 256" and "b < 256" and "c < 256"
  shows "a div 4 mod 64 * 4 + (a mod 4 * 16 + b div 16) mod 64 div 16 = a"
    and "(a mod 4 * 16 + b div 16) mod 64 mod 16 * 16 + (b mod 16 * 4 + c div 64) mod 64 div 4 = b"
    and "(b mod 16 * 4 + c div 64) mod 64 mod 4 * 64 + c mod 64 = c"
proof -
  have b: "b div 16 < 16" and c: "c div 64 < 4" using assms by simp_all
  show "a div 4 mod 64 * 4 + (a mod 4 * 16 + b div 16) mod 64 div 16 = a"
    by (simp only: sextet_small [OF assms] div_low [OF b]) simp
  show "(a mod 4 * 16 + b div 16) mod 64 mod 16 * 16 + (b mod 16 * 4 + c div 64) mod 64 div 4 = b"
    by (simp only: sextet_small [OF assms] mod_low [OF b] div_low [OF c]) simp
  show "(b mod 16 * 4 + c div 64) mod 64 mod 4 * 64 + c mod 64 = c"
    by (simp only: sextet_small [OF assms] mod_low [OF c]) simp
qed

lemma unbase64_base64: "list_all (\<lambda>b. b < 256) bs \<Longrightarrow> unbase64 (base64 bs) = bs"
proof (induction bs rule: base64.induct)
  case (2 a)
  then show ?case using bytes_of_sextets(1) [of a 0 0] by (simp add: Let_def)
next
  case (3 a b)
  then have "a < 256" "b < 256" "(0::nat) < 256" by simp_all
  note two = bytes_of_sextets [OF this, unfolded div_0 add_0_right]
  show ?case
    by (simp only: base64.simps unbase64.simps Let_def unsextet_sextet sextet_no_pad if_False
        two) simp
next
  case (4 a b c bs)
  then show ?case using bytes_of_sextets [of a b c] by (simp add: Let_def)
qed simp

subsection \<open>Lines and the block\<close>

definition newline_char :: char where "newline_char = CHR 0x0A"

text \<open>The line breaker: full lines of 64 characters and a shorter last one.\<close>

function break_lines :: "string \<Rightarrow> string" where
  "break_lines cs =
     (if cs = [] then []
      else take 64 cs @ [newline_char] @ break_lines (drop 64 cs))"
  by pat_completeness auto
termination by (relation "measure length") auto

declare break_lines.simps [simp del]

lemma break_lines_Nil [simp]: "break_lines [] = []"
  by (simp add: break_lines.simps)

lemma unbreak_lines:
  "newline_char \<notin> set cs \<Longrightarrow> filter (\<lambda>c. c \<noteq> newline_char) (break_lines cs) = cs"
proof (induction cs rule: break_lines.induct)
  case (1 cs)
  have keep: "filter (\<lambda>c. c \<noteq> newline_char) (take 64 cs) = take 64 cs"
    using 1(2) by (auto simp: filter_id_conv dest: in_set_takeD)
  have "newline_char \<notin> set (drop 64 cs)" using 1(2) by (auto dest: in_set_dropD)
  with 1(1) keep show ?case
    by (cases "cs = []") (simp_all add: break_lines.simps [of cs])
qed

definition pem_begin :: "string \<Rightarrow> string" where
  "pem_begin typ = ''-----BEGIN '' @ typ @ ''-----'' @ [newline_char]"

definition pem_end :: "string \<Rightarrow> string" where
  "pem_end typ = ''-----END '' @ typ @ ''-----'' @ [newline_char]"

definition EncodeToMemory :: "string \<Rightarrow> string \<Rightarrow> string" where
  "EncodeToMemory typ bytes = pem_begin typ @ break_lines (base64 (map of_char bytes)) @ pem_end typ"

text \<open>The bytes of a block of a known type.\<close>

definition pem_bytes :: "string \<Rightarrow> string \<Rightarrow> string" where
  "pem_bytes typ p =
     map char_of (unbase64 (filter (\<lambda>c. c \<noteq> newline_char)
       (take (length p - length (pem_begin typ) - length (pem_end typ)) (drop (length (pem_begin typ)) p))))"

lemma base64_no_newline: "newline_char \<notin> set (base64 bs)"
proof (induction bs rule: base64.induct)
  case (4 a b c bs)
  then show ?case using alphabet(4) sextet_in by (auto simp: newline_char_def)
qed (use alphabet(4) sextet_in in \<open>auto simp: newline_char_def\<close>)

theorem pem_bytes_EncodeToMemory: "pem_bytes typ (EncodeToMemory typ bytes) = bytes"
proof -
  have "list_all (\<lambda>b. b < 256) (map of_char bytes :: nat list)"
    by (simp add: list_all_iff)
  then show ?thesis
    by (simp add: pem_bytes_def EncodeToMemory_def unbreak_lines base64_no_newline unbase64_base64 comp_def)
qed

end
