(* ===== verification/Vault_Bootstrap.thy ===== *)
theory Vault_Bootstrap
  imports Secret_Upsert Vault_Mounts Go_Pem
begin

text \<open>
  The job vault/client-go/bootstrap/main.go: it makes an EC key, has the Kubernetes signer
  sign a serving certificate for the Vault nodes through a CertificateSigningRequest that it
  approves itself, keeps certificate and key in the Secret vault-ha-tls, and deletes the
  request.  A key is known by what the key generator replied.
\<close>

definition VAULT_ACTIVE_SERVICE_NAME :: string where [record_defs]:
  "VAULT_ACTIVE_SERVICE_NAME = ''vault-active''"

record boot_vars =
  boot_ns :: string
  clusterName :: string

definition boot_init :: "boot_vars prog" where
  "boot_init =
     Getenv ''VAULT_K8S_NAMESPACE'' (\<lambda>ns.
     Getenv ''K8S_CLUSTER_NAME'' (\<lambda>cluster.
     Do InClusterConfig (\<lambda>err.
     case err of Some _ \<Rightarrow> Exit 1 | None \<Rightarrow>
     Do NewForConfig (\<lambda>err.
     case err of Some _ \<Rightarrow> Exit 1 | None \<Rightarrow>
     Ret \<lparr>boot_ns = ns, clusterName = cluster\<rparr>))))"

subsection \<open>The request\<close>

definition csr_common_name :: "boot_vars \<Rightarrow> string" where
  "csr_common_name v = ''system:node:'' @ VAULT_INTERNAL_SERVICE_NAME @ ''.'' @ boot_ns v @ ''.svc''"

definition csr_dns_names :: "boot_vars \<Rightarrow> string list" where
  "csr_dns_names v =
     [VAULT_ACTIVE_SERVICE_NAME,
      VAULT_INTERNAL_SERVICE_NAME,
      ''*.'' @ VAULT_INTERNAL_SERVICE_NAME,
      ''*.'' @ VAULT_INTERNAL_SERVICE_NAME @ ''.'' @ boot_ns v,
      ''*.'' @ VAULT_INTERNAL_SERVICE_NAME @ ''.'' @ boot_ns v @ ''.svc.'',
      ''*.'' @ VAULT_INTERNAL_SERVICE_NAME @ ''.'' @ boot_ns v @ ''.svc.'' @ clusterName v]"

definition csr_to_k8s :: "string \<Rightarrow> csr_object" where
  "csr_to_k8s csr =
     \<lparr>CSR_Name = ''vault.svc'', SignerName = ''kubernetes.io/kubelet-serving'',
      ExpirationSeconds = 31557600,
      Request = EncodeToMemory ''CERTIFICATE REQUEST'' csr,
      Usages = [''digital signature'', ''key encipherment'', ''server auth''],
      Conditions = [], Status_Certificate = []\<rparr>"

definition approved :: "go_time \<Rightarrow> csr_object \<Rightarrow> csr_object" where
  "approved now c =
     c\<lparr>Conditions := Conditions c @
        [\<lparr>Condition_Type = ''Approved'', Condition_Reason = ''ManuallyApproved'',
          Condition_Message = ''This CSR was approved manually'', Condition_LastUpdateTime = now,
          Condition_Status = ''True''\<rparr>]\<rparr>"

text \<open>Create the request; a stale one of the same name is deleted and the creation retried, and
  a failure of the retry is only logged.\<close>

definition create_csr :: "csr_object \<Rightarrow> unit prog" where
  "create_csr c =
     Do (CreateCSR c) (\<lambda>err.
     case err of None \<Rightarrow> Ret () | Some e \<Rightarrow>
       if IsAlreadyExists e then
         Do (DeleteCSR ''vault.svc'') (\<lambda>err.
         case err of Some _ \<Rightarrow> Exit 1 | None \<Rightarrow>
         Do (CreateCSR c) (\<lambda>_. Ret ()))
       else Exit 1)"

definition get_csr :: "(csr_object \<Rightarrow> 'a prog) \<Rightarrow> 'a prog" where
  "get_csr k = GetCSR ''vault.svc'' (\<lambda>got. case got of Inl _ \<Rightarrow> Exit 1 | Inr c \<Rightarrow> k c)"

subsection \<open>The secret\<close>

definition tls_entries :: "string \<Rightarrow> string \<Rightarrow> (string \<rightharpoonup> string)" where
  "tls_entries crt key = [''vault.crt'' \<mapsto> crt, ''vault.key'' \<mapsto> key]"

definition tls_secret :: "string \<Rightarrow> string \<Rightarrow> string \<Rightarrow> secret" where
  "tls_secret ns crt key =
     \<lparr>Secret_Meta = empty_meta\<lparr>Meta_Name := ''vault-ha-tls'', Meta_Namespace := ns\<rparr>,
      Data = Some (tls_entries crt key), StringData = Map.empty, Type = SecretTypeOpaque\<rparr>"

text \<open>The argument is the namespace, the certificate and the private key.\<close>

definition persist_vault_tls :: "string \<times> string \<times> string \<Rightarrow> unit prog" where
  "persist_vault_tls x =
     (case x of (ns, crt, key) \<Rightarrow>
      Do (CreateSecret ns (tls_secret ns crt key)) (\<lambda>err.
      case err of None \<Rightarrow> Ret () | Some e \<Rightarrow>
        if IsNotFound e then Exit 1
        else if IsAlreadyExists e then
          GetSecret ns ''vault-ha-tls'' (\<lambda>got.
          case Option.bind (data_set (got_or_empty got) ''vault.crt'' crt)
                 (\<lambda>s. data_set s ''vault.key'' key) of None \<Rightarrow> Panic | Some s \<Rightarrow>
          Do (UpdateSecret ns s) (\<lambda>err.
          case err of Some _ \<Rightarrow> Exit 1 | None \<Rightarrow> Ret ()))
        else if IsInvalid e then Exit 1
        else Exit 1))"

subsection \<open>The function main\<close>

text \<open>The second half: from the approval to the end.\<close>

definition approve_and_store :: "boot_vars \<Rightarrow> string \<Rightarrow> unit prog" where
  "approve_and_store v privPem =
     get_csr (\<lambda>csrToBeApproved.
     Now (\<lambda>now.
     Do (UpdateApproval ''vault.svc'' (approved now csrToBeApproved)) (\<lambda>err.
     case err of Some _ \<Rightarrow> Exit 1 | None \<Rightarrow>
     Sleep 1
     (get_csr (\<lambda>csrApproved.
      bind (persist_vault_tls (boot_ns v, Status_Certificate csrApproved, privPem)) (\<lambda>_.
      Do (DeleteCSR ''vault.svc'') (\<lambda>err.
      case err of Some _ \<Rightarrow> Exit 1 | None \<Rightarrow> Ret ())))))))"

definition boot_main :: "boot_vars \<Rightarrow> unit prog" where
  "boot_main v =
     Ask (EcdsaGenerateKey ''P-256'') (\<lambda>priv.
     case priv of Inl _ \<Rightarrow> Exit 1 | Inr priv \<Rightarrow>
     Ask (MarshalECPrivateKey priv) (\<lambda>privBytes.
     case privBytes of Inl _ \<Rightarrow> Exit 1 | Inr privBytes \<Rightarrow>
     let privPem = EncodeToMemory ''EC PRIVATE KEY'' privBytes in
     Ask (CreateCertificateRequest (csr_common_name v) [''system:nodes''] ''ECDSAWithSHA256'' (csr_dns_names v)
           [''127.0.0.1''] priv) (\<lambda>csr.
     case csr of Inl _ \<Rightarrow> Exit 1 | Inr csr \<Rightarrow>
     bind (create_csr (csr_to_k8s csr)) (\<lambda>_.
     approve_and_store v privPem))))"

definition boot_job :: "unit prog" where
  "boot_job = bind boot_init boot_main"

subsection \<open>The secret upsert\<close>

abbreviation tls_key :: "string \<times> string \<times> string \<Rightarrow> namespaced_name" where
  "tls_key x \<equiv> (fst x, ''vault-ha-tls'')"

abbreviation tls_wanted :: "string \<times> string \<times> string \<Rightarrow> (string \<rightharpoonup> string)" where
  "tls_wanted x \<equiv> tls_entries (fst (snd x)) (snd (snd x))"

lemma tls_secret_simps [simp]:
  "secret_name (tls_secret ns crt key) = ''vault-ha-tls''"
  "entries (tls_secret ns crt key) = tls_entries crt key"
  by (simp_all add: tls_secret_def)

lemma data_set_both [simp]:
  "Option.bind (data_set s ''vault.crt'' crt) (\<lambda>s. data_set s ''vault.key'' key) = Some s' \<longleftrightarrow>
   (\<exists>m. Data s = Some m \<and> s' = s\<lparr>Data := Some (m(''vault.crt'' \<mapsto> crt, ''vault.key'' \<mapsto> key))\<rparr>)"
  by (auto simp: data_set_def split: bind_split)

lemma persist_vault_tls_stores:
  "all_paths (persist_vault_tls x) (\<lambda>t out. \<forall>st. out = Returned () \<longrightarrow> conforms st t \<longrightarrow>
     (\<exists>old. replay st t = st(tls_key x \<mapsto> old ++ tls_wanted x) \<and>
       (old = Map.empty \<or> st (tls_key x) = Some old)))"
  by (auto simp: persist_vault_tls_def tls_entries_def split: prod.split option.split sum.split)

lemma persist_vault_tls_writes:
  "always (persist_vault_tls x) (\<lambda>t. \<forall>st. conforms st t \<longrightarrow> written_keys t \<subseteq> {tls_key x})"
  by (auto simp: persist_vault_tls_def split: prod.split option.split sum.split)

lemma persist_vault_tls_exits: "all_paths (persist_vault_tls x) (\<lambda>t out. \<forall>n. out = Exited n \<longrightarrow> n = 1)"
  by (auto simp: persist_vault_tls_def split: prod.split option.split sum.split)

interpretation vault_tls: secret_upsert persist_vault_tls tls_key tls_wanted "\<lambda>_. True"
proof unfold_locales
  fix x t st
  assume "accepts (persist_vault_tls x) t (Returned ())" and "conforms st t"
  then show "\<exists>old. replay st t = st(tls_key x \<mapsto> old ++ tls_wanted x) \<and>
      (old = Map.empty \<or> st (tls_key x) = Some old)"
    using all_paths_accepts [OF persist_vault_tls_stores] by blast
next
  show "written_keys t \<subseteq> {tls_key x}"
    if "steps (persist_vault_tls x) t = Some p" "conforms st t" for x t p st
    using always_steps [OF persist_vault_tls_writes that(1)] that(2) by blast
  show "n = 1" if "accepts (persist_vault_tls x) t (Exited n)" for x t n
    using all_paths_accepts [OF persist_vault_tls_exits that] by simp
qed

subsection \<open>The Kubernetes auth job\<close>

text \<open>k8s_auth/main.go has a \<^verbatim>\<open>main\<close> without statements, so far.\<close>

definition k8s_auth_main :: "unit prog" where
  "k8s_auth_main = Ret ()"

end
