(* ===== verification/Csr_Store.thy ===== *)
theory Csr_Store
  imports Go_Paths
begin

text \<open>
  The abstract specification of the CertificateSigningRequest API the bootstrap job relies
  on: \<open>replay_csrs st t\<close> holds, for each name, the request (\<^verbatim>\<open>spec.request\<close>, which cannot be
  changed) of the stored object after the calls of \<open>t\<close>, and \<open>csr_conforms st t\<close> says that the
  replies in \<open>t\<close> fit: a create succeeds only if the name is free, and a read returns the stored
  request.  The status of an object is up to the signer.
\<close>

type_synonym csr_store = "string \<rightharpoonup> string"

definition apply_csr :: "csr_store \<Rightarrow> event \<Rightarrow> csr_store" where
  "apply_csr st e =
     (case e of EvDo a r \<Rightarrow>
        if r = None then
          (case a of
             CreateCSR c \<Rightarrow> st(CSR_Name c \<mapsto> Request c)
           | DeleteCSR n \<Rightarrow> st(n := None)
           | _ \<Rightarrow> st)
        else st
      | _ \<Rightarrow> st)"

fun replay_csrs :: "csr_store \<Rightarrow> event list \<Rightarrow> csr_store" where
  "replay_csrs st [] = st"
| "replay_csrs st (e # t) = replay_csrs (apply_csr st e) t"

definition csr_reply_ok :: "csr_store \<Rightarrow> event \<Rightarrow> bool" where
  "csr_reply_ok st e =
     (case e of
        EvGetCSR n r \<Rightarrow>
          (case r of
             Inr c \<Rightarrow> st n = Some (Request c) \<and> CSR_Name c = n
           | Inl err \<Rightarrow> IsNotFound err \<longrightarrow> st n = None)
      | EvDo a r \<Rightarrow>
          (case a of
             CreateCSR c \<Rightarrow>
               (case r of None \<Rightarrow> st (CSR_Name c) = None
                | Some err \<Rightarrow> IsAlreadyExists err \<longrightarrow> st (CSR_Name c) \<noteq> None)
           | DeleteCSR n \<Rightarrow> r = None \<longrightarrow> st n \<noteq> None
           | _ \<Rightarrow> True)
      | _ \<Rightarrow> True)"

fun csr_conforms :: "csr_store \<Rightarrow> event list \<Rightarrow> bool" where
  "csr_conforms st [] = True"
| "csr_conforms st (e # t) \<longleftrightarrow> csr_reply_ok st e \<and> csr_conforms (apply_csr st e) t"

lemma replay_csrs_append [simp]: "replay_csrs st (s @ t) = replay_csrs (replay_csrs st s) t"
  by (induction s arbitrary: st) auto

lemma csr_conforms_append [simp]:
  "csr_conforms st (s @ t) \<longleftrightarrow> csr_conforms st s \<and> csr_conforms (replay_csrs st s) t"
  by (induction s arbitrary: st) auto

text \<open>Calls on other resources.\<close>

definition on_csrs :: "event \<Rightarrow> bool" where
  "on_csrs e \<longleftrightarrow> (\<exists>n r. e = EvGetCSR n r) \<or> (\<exists>c r. e = EvDo (CreateCSR c) r) \<or>
     (\<exists>n r. e = EvDo (DeleteCSR n) r) \<or> (\<exists>n c r. e = EvDo (UpdateApproval n c) r)"

lemma off_csrs: "\<not> on_csrs e \<Longrightarrow> apply_csr st e = st \<and> csr_reply_ok st e"
  by (auto simp: on_csrs_def apply_csr_def csr_reply_ok_def split: event.split act.split)

lemma replay_off_csrs: "list_all (\<lambda>e. \<not> on_csrs e) t \<Longrightarrow> replay_csrs st t = st"
  by (induction t arbitrary: st) (auto simp: off_csrs)

end
