(* ===== verification/Vault_Bootstrap_Props.thy ===== *)
theory Vault_Bootstrap_Props
  imports Vault_Bootstrap Csr_Store "HOL-Library.Sublist"
begin

text \<open>
  Properties of the job of \<^verbatim>\<open>Vault_Bootstrap\<close>: what a normal return means for the secret and for
  the request, what the job never touches however it ends, and the run in which a failed
  retry goes unnoticed.
\<close>

subsection \<open>The runs of the job\<close>

definition boot_env :: "boot_vars \<Rightarrow> event list" where
  "boot_env v =
     [EvGetenv ''VAULT_K8S_NAMESPACE'' (boot_ns v), EvGetenv ''K8S_CLUSTER_NAME'' (clusterName v),
      EvDo InClusterConfig None, EvDo NewForConfig None]"

definition boot_head :: "boot_vars \<Rightarrow> string \<Rightarrow> string \<Rightarrow> string \<Rightarrow> event list" where
  "boot_head v priv privBytes csr =
     boot_env v @
     [EvAsk (EcdsaGenerateKey ''P-256'') (Inr priv), EvAsk (MarshalECPrivateKey priv) (Inr privBytes),
      EvAsk (CreateCertificateRequest (csr_common_name v) [''system:nodes''] ''ECDSAWithSHA256'' (csr_dns_names v)
        [''127.0.0.1''] priv) (Inr csr)]"

definition approval :: "go_time \<Rightarrow> csr_object \<Rightarrow> csr_object \<Rightarrow> event list" where
  "approval now c0 c1 =
     [EvGetCSR ''vault.svc'' (Inr c0), EvNow now, EvDo (UpdateApproval ''vault.svc'' (approved now c0)) None, EvSleep 1,
      EvGetCSR ''vault.svc'' (Inr c1)]"

definition boot_run ::
    "boot_vars \<Rightarrow> string \<Rightarrow> string \<Rightarrow> string \<Rightarrow> csr_object \<Rightarrow> csr_object \<Rightarrow> event list \<Rightarrow> bool" where
  "boot_run v priv privBytes csr c0 c1 t \<longleftrightarrow> (\<exists>now t0 t1.
     t = boot_head v priv privBytes csr @ t0 @ approval now c0 c1 @ t1 @ [EvDo (DeleteCSR ''vault.svc'') None] \<and>
     accepts (create_csr (csr_to_k8s csr)) t0 (Returned ()) \<and>
     accepts (persist_vault_tls (boot_ns v, Status_Certificate c1,
        EncodeToMemory ''EC PRIVATE KEY'' privBytes)) t1 (Returned ()))"

lemma approve_and_store_runs:
  "all_paths (approve_and_store v pem) (\<lambda>t out. out = Returned () \<longrightarrow> (\<exists>now c0 c1 t1.
     t = approval now c0 c1 @ t1 @ [EvDo (DeleteCSR ''vault.svc'') None] \<and>
     accepts (persist_vault_tls (boot_ns v, Status_Certificate c1, pem)) t1 (Returned ())))"
proof -
  have "all_paths (bind (persist_vault_tls x) (\<lambda>_. Do (DeleteCSR ''vault.svc'') (\<lambda>err.
      case err of Some _ \<Rightarrow> Exit 1 | None \<Rightarrow> Ret ())))
     (\<lambda>t out. out = Returned () \<longrightarrow> (\<exists>t1. t = t1 @ [EvDo (DeleteCSR ''vault.svc'') None] \<and>
       accepts (persist_vault_tls x) t1 (Returned ())))" for x
    by (rule all_paths_bindI [OF all_paths_self]) (auto split: option.split)
  from all_paths_mono [OF this] show ?thesis
    by (auto simp: approve_and_store_def get_csr_def approval_def split: option.split sum.split)
qed

definition boot_done :: "boot_vars \<Rightarrow> event list \<Rightarrow> bool" where
  "boot_done v t \<longleftrightarrow> (\<exists>priv privBytes csr c0 c1. boot_run v priv privBytes csr c0 c1 t)"

lemma boot_doneI:
  "accepts (create_csr (csr_to_k8s csr)) t0 (Returned ()) \<Longrightarrow>
   accepts (persist_vault_tls (boot_ns v, Status_Certificate c1,
     EncodeToMemory ''EC PRIVATE KEY'' privBytes)) t1 (Returned ()) \<Longrightarrow>
   boot_done v
     (boot_head v priv privBytes csr @ t0 @ approval now c0 c1 @ t1 @ [EvDo (DeleteCSR ''vault.svc'') None])"
  unfolding boot_done_def boot_run_def by blast

lemma boot_main_runs:
  "all_paths (boot_main v) (\<lambda>t out. out = Returned () \<longrightarrow> boot_done v (boot_env v @ t))"
proof -
  have "all_paths (bind (create_csr (csr_to_k8s csr)) (\<lambda>_. approve_and_store v
        (EncodeToMemory ''EC PRIVATE KEY'' privBytes)))
     (\<lambda>t out. out = Returned () \<longrightarrow> boot_done v (boot_head v priv privBytes csr @ t))"
    for priv privBytes csr
    by (rule all_paths_bindI [OF all_paths_self], rule all_paths_mono [OF approve_and_store_runs])
      (auto intro: boot_doneI)
  then show ?thesis
    by (simp add: boot_main_def Let_def boot_head_def split: sum.split)
qed

lemma boot_runs: "all_paths boot_job (\<lambda>t out. out = Returned () \<longrightarrow> (\<exists>v. boot_done v t))"
proof -
  have "all_paths (boot_main \<lparr>boot_ns = r, clusterName = s\<rparr>) (\<lambda>t out. out = Returned () \<longrightarrow>
     (\<exists>v. boot_done v (boot_env \<lparr>boot_ns = r, clusterName = s\<rparr> @ t)))" for r s
    by (rule all_paths_mono [OF boot_main_runs]) blast
  then show ?thesis
    by (simp add: boot_job_def boot_init_def boot_env_def split: option.split)
qed

lemma boot_returned:
  assumes "accepts boot_job t (Returned ())"
  obtains v priv privBytes csr now c0 c1 t0 t1 where
    "t = boot_head v priv privBytes csr @ t0 @ approval now c0 c1 @ t1 @ [EvDo (DeleteCSR ''vault.svc'') None]"
    "accepts (create_csr (csr_to_k8s csr)) t0 (Returned ())"
    "accepts (persist_vault_tls (boot_ns v, Status_Certificate c1,
        EncodeToMemory ''EC PRIVATE KEY'' privBytes)) t1 (Returned ())"
  using all_paths_accepts [OF boot_runs assms] that unfolding boot_done_def boot_run_def by blast

subsection \<open>Properties\<close>

text \<open>The replies that carry the request.\<close>

definition csr_got :: "event \<Rightarrow> bool" where
  "csr_got e \<longleftrightarrow> (case e of EvGetCSR n r \<Rightarrow> \<not> isl r | _ \<Rightarrow> False)"

lemma create_csr_reads: "always (create_csr c) (\<lambda>t. [e \<leftarrow> t. csr_got e] = [])"
  by (auto simp: create_csr_def csr_got_def split: option.split)

lemma persist_reads: "always (persist_vault_tls x) (\<lambda>t. [e \<leftarrow> t. csr_got e] = [])"
  by (auto simp: persist_vault_tls_def csr_got_def split: prod.split option.split sum.split)

lemma vault_tls_after_approval:
  assumes "accepts (persist_vault_tls (boot_ns v, crt, pem)) t1 (Returned ())"
    and "conforms st (h @ t0 @ t2 @ t1 @ [EvDo (DeleteCSR n) None])"
  shows "\<exists>m. replay st (h @ t0 @ t2 @ t1 @ [EvDo (DeleteCSR n) None]) (boot_ns v, ''vault-ha-tls'') = Some m \<and>
    m ''vault.crt'' = Some crt \<and> m ''vault.key'' = Some pem"
proof -
  have "conforms (replay st (h @ t0 @ t2)) t1" using assms(2) by simp
  from vault_tls.stored [OF assms(1) TrueI this] show ?thesis by (auto simp: map_le_def tls_entries_def)
qed

text \<open>C24: when the job returns, it has approved the request vault.svc as it read it, read it again
  after that approval, and the Secret vault-ha-tls of the namespace of VAULT_K8S_NAMESPACE holds the
  certificate of this second reading, with, under vault.key, a PEM block whose bytes are the marshalled
  private key that was generated in this run.\<close>

theorem boot_secret_stored:
  assumes "accepts boot_job t (Returned ())" and "conforms st t"
  shows "\<exists>ns priv privBytes now c0 c1 m p.
    subseq ([EvGetenv ''VAULT_K8S_NAMESPACE'' ns, EvAsk (EcdsaGenerateKey ''P-256'') (Inr priv),
      EvAsk (MarshalECPrivateKey priv) (Inr privBytes)] @ approval now c0 c1) t \<and>
    [e \<leftarrow> t. csr_got e] = [EvGetCSR ''vault.svc'' (Inr c0), EvGetCSR ''vault.svc'' (Inr c1)] \<and>
    replay st t (ns, ''vault-ha-tls'') = Some m \<and> m ''vault.crt'' = Some (Status_Certificate c1) \<and>
    m ''vault.key'' = Some p \<and> pem_bytes ''EC PRIVATE KEY'' p = privBytes"
proof -
  obtain v priv privBytes csr now c0 c1 t0 t1 where
    t: "t = boot_head v priv privBytes csr @ t0 @ approval now c0 c1 @ t1 @ [EvDo (DeleteCSR ''vault.svc'') None]"
    and t0: "accepts (create_csr (csr_to_k8s csr)) t0 (Returned ())"
    and t1: "accepts (persist_vault_tls (boot_ns v, Status_Certificate c1,
        EncodeToMemory ''EC PRIVATE KEY'' privBytes)) t1 (Returned ())"
    by (rule boot_returned [OF assms(1)])
  obtain m where "replay st t (boot_ns v, ''vault-ha-tls'') = Some m"
    "m ''vault.crt'' = Some (Status_Certificate c1)"
    "m ''vault.key'' = Some (EncodeToMemory ''EC PRIVATE KEY'' privBytes)"
    using vault_tls_after_approval [OF t1] assms(2) unfolding t by blast
  moreover have "subseq ([EvGetenv ''VAULT_K8S_NAMESPACE'' (boot_ns v), EvAsk (EcdsaGenerateKey ''P-256'') (Inr priv),
      EvAsk (MarshalECPrivateKey priv) (Inr privBytes)] @ approval now c0 c1) t"
    unfolding t by (intro list_emb_append_mono list_emb_append2 [of _ _ _ t0] list_emb_prefix)
      (simp_all add: boot_head_def boot_env_def)
  moreover have "[e \<leftarrow> t. csr_got e] = [EvGetCSR ''vault.svc'' (Inr c0), EvGetCSR ''vault.svc'' (Inr c1)]"
    using always_accepts [OF create_csr_reads t0] always_accepts [OF persist_reads t1]
    by (simp add: t boot_head_def boot_env_def approval_def csr_got_def)
  ultimately show ?thesis using pem_bytes_EncodeToMemory by blast
qed

lemma create_csr_on_csrs:
  "always (create_csr c) (\<lambda>t. \<forall>st. CSR_Name c = ''vault.svc'' \<longrightarrow> csr_conforms st t \<longrightarrow>
     EvDo (CreateCSR c') None \<in> set t \<longrightarrow> c' = c \<and> replay_csrs st t ''vault.svc'' = Some (Request c))"
  by (auto simp: create_csr_def apply_csr_def split: option.split)

lemma persist_off_csrs: "each_call (\<lambda>e. \<not> on_csrs e) (persist_vault_tls x)"
  by (auto simp: persist_vault_tls_def on_csrs_def split: prod.split option.split sum.split)

text \<open>C6: when the job returns, and one of its attempts to create the request succeeded, then
  on conforming API servers the request it approves is its own, carrying the PEM block of the CSR made
  with the key of this run; what it reads again after the approval is that request; and the certificate
  of that second reading is the one vault-ha-tls holds at the end, beside the key.  The calls come in the
  right order, and at the end the request has been deleted.\<close>

theorem boot_approves_own_request:
  assumes "accepts boot_job t (Returned ())" and "csr_conforms st t" and "conforms kst t"
    and "EvDo (CreateCSR c) None \<in> set t"
  shows "\<exists>v priv privBytes csr now c0 c1 m.
    subseq (boot_head v priv privBytes csr @ [EvDo (CreateCSR (csr_to_k8s csr)) None] @ approval now c0 c1 @
      [EvDo (DeleteCSR ''vault.svc'') None]) t \<and> c = csr_to_k8s csr \<and>
    Request c0 = EncodeToMemory ''CERTIFICATE REQUEST'' csr \<and> Request c1 = Request c0 \<and>
    replay kst t (boot_ns v, ''vault-ha-tls'') = Some m \<and> m ''vault.crt'' = Some (Status_Certificate c1) \<and>
    m ''vault.key'' = Some (EncodeToMemory ''EC PRIVATE KEY'' privBytes) \<and>
    replay_csrs st t ''vault.svc'' = None"
proof -
  obtain v priv privBytes csr now c0 c1 t0 t1 where
    t: "t = boot_head v priv privBytes csr @ t0 @ approval now c0 c1 @ t1 @ [EvDo (DeleteCSR ''vault.svc'') None]"
    and t0: "accepts (create_csr (csr_to_k8s csr)) t0 (Returned ())"
    and t1: "accepts (persist_vault_tls (boot_ns v, Status_Certificate c1,
        EncodeToMemory ''EC PRIVATE KEY'' privBytes)) t1 (Returned ())"
    by (rule boot_returned [OF assms(1)])
  have off: "list_all (\<lambda>e. \<not> on_csrs e) t1" by (rule always_accepts [OF persist_off_csrs t1])
  have "EvDo (CreateCSR c) None \<in> set t0"
    using assms(4) off by (auto simp: t boot_head_def boot_env_def approval_def list_all_iff on_csrs_def)
  moreover define s where "s = replay_csrs st (boot_head v priv privBytes csr)"
  moreover have "csr_conforms s t0" using assms(2) by (simp add: t s_def)
  ultimately have c: "c = csr_to_k8s csr" and made: "EvDo (CreateCSR (csr_to_k8s csr)) None \<in> set t0"
    and st0: "replay_csrs s t0 ''vault.svc'' = Some (EncodeToMemory ''CERTIFICATE REQUEST'' csr)"
    using always_accepts [OF create_csr_on_csrs t0, of c] by (auto simp: csr_to_k8s_def)
  from assms(2) st0 have "Request c0 = EncodeToMemory ''CERTIFICATE REQUEST'' csr" "Request c1 = Request c0"
    by (auto simp: t approval_def csr_reply_ok_def apply_csr_def s_def)
  moreover have "replay_csrs st t ''vault.svc'' = None"
    by (simp add: t apply_csr_def)
  moreover have "subseq (boot_head v priv privBytes csr @ [EvDo (CreateCSR (csr_to_k8s csr)) None] @
      approval now c0 c1 @ [EvDo (DeleteCSR ''vault.svc'') None]) t"
    unfolding t using made
    by (intro list_emb_append_mono) (auto simp: subseq_singleton_left intro: list_emb_append2)
  moreover obtain m where "replay kst t (boot_ns v, ''vault-ha-tls'') = Some m"
    "m ''vault.crt'' = Some (Status_Certificate c1)"
    "m ''vault.key'' = Some (EncodeToMemory ''EC PRIVATE KEY'' privBytes)"
    using vault_tls_after_approval [OF t1] assms(3) unfolding t by blast
  ultimately show ?thesis using c by blast
qed

text \<open>The requests a call names.\<close>

definition own_csr :: "event \<Rightarrow> bool" where
  "own_csr e \<longleftrightarrow> (case e of
       EvDo a r \<Rightarrow> (case a of CreateCSR c \<Rightarrow> CSR_Name c = ''vault.svc'' | DeleteCSR n \<Rightarrow> n = ''vault.svc''
          | UpdateApproval n c \<Rightarrow> n = ''vault.svc'' | _ \<Rightarrow> True)
     | _ \<Rightarrow> True)"

definition boot_owns :: "event list \<Rightarrow> bool" where
  "boot_owns t \<longleftrightarrow> list_all own_csr t \<and>
     (\<forall>st. conforms st t \<longrightarrow> (\<forall>k \<in> written_keys t. snd k = ''vault-ha-tls''))"

lemma boot_owns_append: "boot_owns s \<Longrightarrow> boot_owns t \<Longrightarrow> boot_owns (s @ t)"
  by (fastforce simp: boot_owns_def)

lemma boot_owns_Cons: "own_csr e \<Longrightarrow> \<not> on_secrets e \<Longrightarrow> boot_owns (e # t) = boot_owns t"
  by (simp add: boot_owns_def off_secrets)

lemma boot_owns_Nil: "boot_owns []"
  by (simp add: boot_owns_def)

lemma persist_owns: "always (persist_vault_tls x) boot_owns"
  by (auto simp: persist_vault_tls_def boot_owns_def own_csr_def
      split: prod.split option.split sum.split)

lemma create_csr_owns: "always (create_csr (csr_to_k8s csr)) boot_owns"
  by (auto simp: create_csr_def boot_owns_def own_csr_def csr_to_k8s_def split: option.split)

lemma boot_init_owns: "always boot_init boot_owns"
  by (auto simp: boot_init_def boot_owns_def own_csr_def split: option.split)

lemma approve_owns: "always (approve_and_store v pem) boot_owns"
proof -
  have "always (bind (persist_vault_tls x) (\<lambda>_. Do (DeleteCSR ''vault.svc'') (\<lambda>err.
      case err of Some _ \<Rightarrow> Exit 1 | None \<Rightarrow> Ret ()))) boot_owns" for x
    by (rule always_bind_closed [OF persist_owns _ boot_owns_append])
      (auto simp: boot_owns_def own_csr_def split: option.split)
  then show ?thesis
    by (simp add: approve_and_store_def get_csr_def own_csr_def on_secrets_def boot_owns_Cons boot_owns_Nil
        split: option.split sum.split del: One_nat_def)
qed

lemma boot_main_owns: "always (boot_main v) boot_owns"
proof -
  have "always (bind (create_csr (csr_to_k8s csr)) (\<lambda>_. approve_and_store v pem)) boot_owns" for csr pem
    by (rule always_bind_closed [OF create_csr_owns approve_owns boot_owns_append])
  then show ?thesis
    by (simp add: boot_main_def Let_def own_csr_def on_secrets_def boot_owns_Cons boot_owns_Nil
        split: option.split sum.split)
qed

text \<open>However the job ends, on a conforming API server it has written no secret but
  vault-ha-tls, and created, deleted and approved no request but vault.svc.\<close>

theorem boot_frame:
  assumes "steps boot_job t = Some p" and "conforms st t"
  shows "list_all own_csr t \<and> (\<forall>k. snd k \<noteq> ''vault-ha-tls'' \<longrightarrow> replay st t k = st k)"
proof -
  have "always boot_job boot_owns"
    unfolding boot_job_def
    by (rule always_bind_closed [OF boot_init_owns boot_main_owns boot_owns_append])
  from always_steps [OF this assms(1)] assms(2)
  have "list_all own_csr t" and "\<forall>k \<in> written_keys t. snd k = ''vault-ha-tls''"
    unfolding boot_owns_def by blast+
  then show ?thesis using replay_frame by blast
qed

subsection \<open>Runs\<close>

definition sample_boot :: boot_vars where
  "sample_boot = \<lparr>boot_ns = ''sip'', clusterName = ''cluster.local''\<rparr>"

definition sample_now :: go_time where
  "sample_now = GoTime 2024 5 1 0"

definition sample_boot_run :: "event list \<Rightarrow> csr_object \<Rightarrow> event list" where
  "sample_boot_run creation c = boot_head sample_boot ''K'' ''B'' ''R'' @ creation @
     approval sample_now c (c\<lparr>Status_Certificate := ''C''\<rparr>) @
     [EvDo (CreateSecret ''sip'' (tls_secret ''sip'' ''C'' (EncodeToMemory ''EC PRIVATE KEY'' ''B''))) None,
      EvDo (DeleteCSR ''vault.svc'') None]"

lemma sample_boot_accepts:
  assumes "creation = [EvDo (CreateCSR (csr_to_k8s ''R'')) None] \<or>
    creation = [EvDo (CreateCSR (csr_to_k8s ''R'')) (Some (StatusError AlreadyExists ''c'')),
      EvDo (DeleteCSR ''vault.svc'') None, EvDo (CreateCSR (csr_to_k8s ''R'')) (Some (StatusError OtherReason ''c''))]"
  shows "accepts boot_job (sample_boot_run creation c) (Returned ())"
  using assms
  by (elim disjE)
    (simp_all add: sample_boot_run_def sample_boot_def boot_head_def boot_env_def approval_def boot_job_def
      boot_init_def boot_main_def create_csr_def approve_and_store_def get_csr_def persist_vault_tls_def
      csr_common_name_def csr_dns_names_def IsAlreadyExists_def Let_def)

definition plain_creation :: "event list" where
  "plain_creation = [EvDo (CreateCSR (csr_to_k8s ''R'')) None]"

abbreviation plain_run :: "event list" where
  "plain_run \<equiv> sample_boot_run plain_creation (csr_to_k8s ''R'')"

lemma plain_run_ok:
  "accepts boot_job plain_run (Returned ())" "conforms Map.empty plain_run" "csr_conforms Map.empty plain_run"
  "EvDo (CreateCSR (csr_to_k8s ''R'')) None \<in> set plain_run"
proof -
  show "accepts boot_job plain_run (Returned ())"
    by (rule sample_boot_accepts) (simp add: plain_creation_def)
  show "conforms Map.empty plain_run"
    by (simp add: sample_boot_run_def plain_creation_def boot_head_def boot_env_def approval_def reply_ok_def)
  show "csr_conforms Map.empty plain_run"
    by (simp add: sample_boot_run_def plain_creation_def boot_head_def boot_env_def approval_def
        csr_reply_ok_def apply_csr_def csr_to_k8s_def)
  show "EvDo (CreateCSR (csr_to_k8s ''R'')) None \<in> set plain_run"
    by (simp add: sample_boot_run_def plain_creation_def)
qed

theorem boot_secret_stored_witness:
  "\<exists>ns now c0 c1 m p. subseq (approval now c0 c1) plain_run \<and>
    replay Map.empty plain_run (ns, ''vault-ha-tls'') = Some m \<and> m ''vault.crt'' = Some (Status_Certificate c1) \<and>
    m ''vault.key'' = Some p"
  using boot_secret_stored [OF plain_run_ok(1,2)] by (meson subseq_order.order_trans list_emb_append2 subseq_order.order_refl)

theorem boot_approves_own_request_witness:
  "accepts boot_job plain_run (Returned ()) \<and> replay_csrs Map.empty plain_run ''vault.svc'' = None \<and>
   (\<exists>ns (c1 :: csr_object) m. Request c1 = EncodeToMemory ''CERTIFICATE REQUEST'' ''R'' \<and>
     replay Map.empty plain_run (ns, ''vault-ha-tls'') = Some m \<and> m ''vault.crt'' = Some (Status_Certificate c1))"
proof -
  have R: "Request (csr_to_k8s csr) = EncodeToMemory ''CERTIFICATE REQUEST'' csr" for csr by (simp add: csr_to_k8s_def)
  from boot_approves_own_request [OF plain_run_ok(1,3,2,4)] obtain csr m and v :: boot_vars and c0 c1 :: csr_object where
    w: "csr_to_k8s ''R'' = csr_to_k8s csr" "Request c0 = EncodeToMemory ''CERTIFICATE REQUEST'' csr"
      "Request c1 = Request c0" "replay Map.empty plain_run (boot_ns v, ''vault-ha-tls'') = Some m"
      "m ''vault.crt'' = Some (Status_Certificate c1)" "replay_csrs Map.empty plain_run ''vault.svc'' = None"
    by (elim exE conjE) (rule that)
  from w(1-3) R have "Request c1 = EncodeToMemory ''CERTIFICATE REQUEST'' ''R''" by metis
  with w plain_run_ok(1) show ?thesis by (intro conjI exI)
qed

theorem boot_frame_witness:
  "list_all own_csr plain_run \<and> replay Map.empty plain_run (''sip'', ''other'') = None"
proof -
  obtain p where "steps boot_job plain_run = Some p"
    using plain_run_ok(1) by (auto simp: accepts_iff_steps)
  from boot_frame [OF this plain_run_ok(2)] show ?thesis by simp
qed

definition foreign_csr :: csr_object where
  "foreign_csr = (csr_to_k8s ''R'')\<lparr>Request := ''foreign''\<rparr>"

definition failed_creation :: "event list" where
  "failed_creation = [EvDo (CreateCSR (csr_to_k8s ''R'')) (Some (StatusError AlreadyExists ''c'')),
     EvDo (DeleteCSR ''vault.svc'') None, EvDo (CreateCSR (csr_to_k8s ''R'')) (Some (StatusError OtherReason ''c''))]"

text \<open>A failure of the retried creation is only logged, so the job can approve a request it
  did not make and store its certificate beside its own key.  There is a run, on an API server
  where another client creates the request vault.svc after the deletion, that returns normally
  without a successful creation, and that approves the request of the other client.\<close>

theorem boot_failed_retry_goes_on:
  "\<exists>t. accepts boot_job t (Returned ()) \<and> conforms Map.empty t \<and> (\<forall>c. EvDo (CreateCSR c) None \<notin> set t) \<and>
     EvDo (UpdateApproval ''vault.svc'' (approved sample_now foreign_csr)) None \<in> set t \<and>
     (\<exists>m. replay Map.empty t (''sip'', ''vault-ha-tls'') = Some m \<and> m ''vault.crt'' = Some ''C'')"
proof (intro exI conjI)
  let ?t = "sample_boot_run failed_creation foreign_csr"
  show "accepts boot_job ?t (Returned ())"
    by (rule sample_boot_accepts) (simp add: failed_creation_def)
  show "conforms Map.empty ?t"
    by (simp add: sample_boot_run_def failed_creation_def boot_head_def boot_env_def approval_def reply_ok_def)
  show "\<forall>c. EvDo (CreateCSR c) None \<notin> set ?t"
    by (simp add: sample_boot_run_def failed_creation_def boot_head_def boot_env_def approval_def)
  show "EvDo (UpdateApproval ''vault.svc'' (approved sample_now foreign_csr)) None \<in> set ?t"
    by (simp add: sample_boot_run_def approval_def)
  show "replay Map.empty ?t (''sip'', ''vault-ha-tls'') =
      Some (tls_entries ''C'' (EncodeToMemory ''EC PRIVATE KEY'' ''B''))"
    by (simp add: sample_boot_run_def failed_creation_def boot_head_def boot_env_def approval_def)
  show "tls_entries ''C'' (EncodeToMemory ''EC PRIVATE KEY'' ''B'') ''vault.crt'' = Some ''C''"
    by (simp add: tls_entries_def)
qed

text \<open>The job waits a fixed second for the signer.  There is a run, on conforming API servers, in which the
  request has not been signed by then: the job returns normally, has stored an empty certificate and
  deleted the request.\<close>

definition unsigned_run :: "event list" where
  "unsigned_run = boot_head sample_boot ''K'' ''B'' ''R'' @ plain_creation @
     approval sample_now (csr_to_k8s ''R'') (csr_to_k8s ''R'') @
     [EvDo (CreateSecret ''sip'' (tls_secret ''sip'' [] (EncodeToMemory ''EC PRIVATE KEY'' ''B''))) None,
      EvDo (DeleteCSR ''vault.svc'') None]"

theorem boot_does_not_wait_for_signer:
  "accepts boot_job unsigned_run (Returned ()) \<and> conforms Map.empty unsigned_run \<and>
   csr_conforms Map.empty unsigned_run \<and>
   (\<exists>m. replay Map.empty unsigned_run (''sip'', ''vault-ha-tls'') = Some m \<and> m ''vault.crt'' = Some []) \<and>
   replay_csrs Map.empty unsigned_run ''vault.svc'' = None"
proof (intro conjI)
  show "accepts boot_job unsigned_run (Returned ())"
    by (simp add: unsigned_run_def plain_creation_def sample_boot_def boot_head_def boot_env_def approval_def boot_job_def
      boot_init_def boot_main_def create_csr_def approve_and_store_def get_csr_def persist_vault_tls_def
      csr_common_name_def csr_dns_names_def csr_to_k8s_def Let_def)
  show "conforms Map.empty unsigned_run"
    by (simp add: unsigned_run_def plain_creation_def boot_head_def boot_env_def approval_def reply_ok_def)
  show "csr_conforms Map.empty unsigned_run"
    by (simp add: unsigned_run_def plain_creation_def boot_head_def boot_env_def approval_def
        csr_reply_ok_def apply_csr_def csr_to_k8s_def)
  show "\<exists>m. replay Map.empty unsigned_run (''sip'', ''vault-ha-tls'') = Some m \<and> m ''vault.crt'' = Some []"
    by (simp add: unsigned_run_def plain_creation_def boot_head_def boot_env_def approval_def tls_entries_def)
  show "replay_csrs Map.empty unsigned_run ''vault.svc'' = None"
    by (simp add: unsigned_run_def plain_creation_def boot_head_def boot_env_def approval_def apply_csr_def csr_to_k8s_def)
qed

end
