(* ===== verification/Operator_Managers.thy ===== *)
theory Operator_Managers
  imports In_Cluster Vault_Mounts
begin

text \<open>
  The managers operator/internal-cert/cmd/main.go and operator/internal-client-ca/cmd/main.go:
  \<^verbatim>\<open>init\<close> registers the types and authenticates a Vault client with the root token of the Secret
  vault-root-token, \<^verbatim>\<open>main\<close> reads the flags, makes the manager with its servers, registers the
  controller (and the webhooks of internal-cert) and the health checks, and starts it.  The two
  copies differ in the leader election ID, the controller, and the webhooks.
\<close>

definition vault_addr :: string where
  "vault_addr = ''https://'' @ VAULT_INTERNAL_SERVICE_NAME @ '':8200''"

text \<open>\<^verbatim>\<open>utilruntime.Must\<close> panics on an error; the fatal calls exit with code 1.\<close>

definition must :: "act \<Rightarrow> 'a prog \<Rightarrow> 'a prog" where
  "must a k = Do a (\<lambda>err. case err of Some _ \<Rightarrow> Panic | None \<Rightarrow> k)"

definition or_exit :: "act \<Rightarrow> 'a prog \<Rightarrow> 'a prog" where
  "or_exit a k = Do a (\<lambda>err. case err of Some _ \<Rightarrow> Exit 1 | None \<Rightarrow> k)"

subsection \<open>The functions init\<close>

definition intcert_manager_init :: "unit prog" where
  "intcert_manager_init =
     read_namespace (\<lambda>ns.
     must (AddToScheme ''client-go'')
     (must (AddToScheme ''sip.sec.com/v1alpha1'')
     (or_exit InClusterConfig
     (must NewForConfig
     (GetSecret ns ''vault-root-token'' (\<lambda>got.
     case got of Inl _ \<Rightarrow> Exit 1 | Inr existedSecretForRootToken \<Rightarrow>
     let rootToken = data_get existedSecretForRootToken ''token'' in
     or_exit (VaultNew vault_addr ca_file)
     (or_exit (SetToken rootToken)
     (Ret ()))))))))"

definition clientca_manager_init :: "unit prog" where
  "clientca_manager_init =
     read_namespace (\<lambda>ns.
     must (AddToScheme ''client-go'')
     (must (AddToScheme ''sip.sec.com/v1alpha1'')
     (or_exit InClusterConfig
     (must NewForConfig
     (GetSecret ns ''vault-root-token'' (\<lambda>got.
     case got of Inl _ \<Rightarrow> Exit 1 | Inr existedSecretForRootToken \<Rightarrow>
     let rootToken = data_get existedSecretForRootToken ''token'' in
     or_exit (VaultNew vault_addr ca_file)
     (or_exit (SetToken rootToken)
     (Ret ()))))))))"

subsection \<open>Options\<close>

definition default_flags :: flags where
  "default_flags =
     \<lparr>metrics_bind_address = ''0'', health_probe_bind_address = '':8081'', leader_elect = False,
      metrics_secure = True, enable_http2 = False\<rparr>"

definition disableHTTP2 :: "tls_config \<Rightarrow> tls_config" where
  "disableHTTP2 c = c\<lparr>NextProtos := [''http/1.1'']\<rparr>"

definition tlsOpts :: "flags \<Rightarrow> (tls_config \<Rightarrow> tls_config) list" where
  "tlsOpts f = (if \<not> enable_http2 f then [disableHTTP2] else [])"

definition metricsServerOptions :: "flags \<Rightarrow> metrics_options" where
  "metricsServerOptions f =
     \<lparr>BindAddress = metrics_bind_address f, SecureServing = metrics_secure f,
      Metrics_TLSOpts = tlsOpts f,
      FilterProvider = (if metrics_secure f then Some ''WithAuthenticationAndAuthorization'' else None)\<rparr>"

definition intcert_options :: "flags \<Rightarrow> manager_options" where
  "intcert_options f =
     \<lparr>Opt_Scheme = [''client-go'', ''sip.sec.com/v1alpha1''], Metrics = metricsServerOptions f,
      WebhookServer_TLSOpts = tlsOpts f, HealthProbeBindAddress = health_probe_bind_address f,
      LeaderElection = leader_elect f, LeaderElectionID = ''3e0331b0.sec.com''\<rparr>"

definition clientca_options :: "flags \<Rightarrow> manager_options" where
  "clientca_options f =
     \<lparr>Opt_Scheme = [''client-go'', ''sip.sec.com/v1alpha1''], Metrics = metricsServerOptions f,
      WebhookServer_TLSOpts = tlsOpts f, HealthProbeBindAddress = health_probe_bind_address f,
      LeaderElection = leader_elect f, LeaderElectionID = ''644997c3.sec.com''\<rparr>"

subsection \<open>The functions main\<close>

definition start_manager :: "unit prog" where
  "start_manager =
     or_exit (AddHealthzCheck ''healthz'')
     (or_exit (AddReadyzCheck ''readyz'')
     (or_exit ManagerStart
     (Ret ())))"

definition intcert_manager_main :: "unit prog" where
  "intcert_manager_main =
     FlagParse default_flags (\<lambda>f.
     or_exit GetConfig
     (or_exit (NewManager (intcert_options f))
     (or_exit (SetupWithManager ''InternalCertificate'' vault_addr)
     (Getenv ''ENABLE_WEBHOOKS'' (\<lambda>env.
     if env \<noteq> ''false'' then or_exit (SetupWebhookWithManager ''InternalCertificate'') start_manager
     else start_manager)))))"

definition clientca_manager_main :: "unit prog" where
  "clientca_manager_main =
     FlagParse default_flags (\<lambda>f.
     or_exit GetConfig
     (or_exit (NewManager (clientca_options f))
     (or_exit (SetupWithManager ''InternalClientCA'' vault_addr)
     start_manager)))"

text \<open>The two operators.\<close>

datatype operator = InternalCert | InternalClientCA

fun manager :: "operator \<Rightarrow> unit prog" where
  "manager InternalCert = bind intcert_manager_init (\<lambda>_. intcert_manager_main)"
| "manager InternalClientCA = bind clientca_manager_init (\<lambda>_. clientca_manager_main)"

lemmas manager_defs = intcert_manager_init_def clientca_manager_init_def intcert_manager_main_def
  clientca_manager_main_def start_manager_def read_namespace_def must_def or_exit_def

subsection \<open>The interface of a manager\<close>

text \<open>The calls of an operator up to the start of its manager, when they all succeed.\<close>

definition startup_init :: "go_error + string \<Rightarrow> secret \<Rightarrow> event list" where
  "startup_init nsByte s =
     [EvAsk (ReadFile namespace_file) nsByte,
      EvDo (AddToScheme ''client-go'') None, EvDo (AddToScheme ''sip.sec.com/v1alpha1'') None,
      EvDo InClusterConfig None, EvDo NewForConfig None,
      EvGetSecret (file_contents nsByte) ''vault-root-token'' (Inr s),
      EvDo (VaultNew vault_addr ca_file) None, EvDo (SetToken (data_get s ''token'')) None]"

definition webhook_calls :: "operator \<Rightarrow> string \<Rightarrow> event list" where
  "webhook_calls op env =
     (case op of InternalClientCA \<Rightarrow> []
      | InternalCert \<Rightarrow> EvGetenv ''ENABLE_WEBHOOKS'' env #
          (if env = ''false'' then [] else [EvDo (SetupWebhookWithManager ''InternalCertificate'') None]))"

definition kind_of :: "operator \<Rightarrow> string" where
  "kind_of op = (case op of InternalCert \<Rightarrow> ''InternalCertificate'' | InternalClientCA \<Rightarrow> ''InternalClientCA'')"

definition options_of :: "operator \<Rightarrow> flags \<Rightarrow> manager_options" where
  "options_of op = (case op of InternalCert \<Rightarrow> intcert_options | InternalClientCA \<Rightarrow> clientca_options)"

definition startup :: "operator \<Rightarrow> go_error + string \<Rightarrow> secret \<Rightarrow> flags \<Rightarrow> string \<Rightarrow> event list" where
  "startup op nsByte s f env =
     startup_init nsByte s @
     [EvFlags default_flags f, EvDo GetConfig None, EvDo (NewManager (options_of op f)) None,
      EvDo (SetupWithManager (kind_of op) vault_addr) None] @
     webhook_calls op env @
     [EvDo (AddHealthzCheck ''healthz'') None, EvDo (AddReadyzCheck ''readyz'') None]"

lemma manager_starts_paths:
  "all_paths (manager op) (\<lambda>t out. \<forall>r. EvDo ManagerStart r \<in> set t \<longrightarrow>
     (\<exists>nsByte s f env. t = startup op nsByte s f env @ [EvDo ManagerStart r]) \<and>
     out = (if r = None then Returned () else Exited 1))"
  by (cases op) (auto simp: manager_defs startup_def startup_init_def webhook_calls_def options_of_def kind_of_def Let_def
      split: option.split sum.split)

text \<open>A run, used where a property needs an example.\<close>

definition stored_token :: secret where
  "stored_token = empty_secret\<lparr>Secret_Meta := empty_meta\<lparr>Meta_Name := ''vault-root-token''\<rparr>,
     Data := Some [''token'' \<mapsto> ''T'']\<rparr>"

definition op_start :: "operator \<Rightarrow> event list" where
  "op_start op = startup op (Inr ''sip'') stored_token default_flags [] @ [EvDo ManagerStart None]"

lemma accepts_op_start: "accepts (manager op) (op_start op) (Returned ())"
  by (cases op) (simp_all add: manager_defs op_start_def startup_def startup_init_def webhook_calls_def
      options_of_def kind_of_def Let_def)

subsection \<open>Properties\<close>

text \<open>C25: a manager is only started after every call of \<^verbatim>\<open>init\<close> and \<^verbatim>\<open>main\<close> has succeeded, in the
  order of the source: types, API client, root token, Vault client, options from the flags, the
  operator's own controller, for internal-cert the webhooks unless ENABLE_WEBHOOKS is "false", and both health
  checks; and the process ends with code 1 exactly if the manager fails.\<close>

theorem manager_starts:
  assumes "accepts (manager op) t out" and "EvDo ManagerStart r \<in> set t"
  shows "(\<exists>nsByte s f env. t = startup op nsByte s f env @ [EvDo ManagerStart r]) \<and>
    out = (if r = None then Returned () else Exited 1)"
  using all_paths_accepts [OF manager_starts_paths assms(1)] assms(2) by blast

theorem manager_starts_witness:
  "\<exists>nsByte s f env. op_start InternalCert = startup InternalCert nsByte s f env @ [EvDo ManagerStart None]"
  using manager_starts [OF accepts_op_start [of InternalCert], of None] by (simp add: op_start_def)

text \<open>Unless --enable-http2 is given the TLS options of the metrics and the webhook server
  restrict any TLS configuration to HTTP/1.1, and with it they change nothing; the metrics server
  authenticates and authorises its clients exactly if it serves over TLS.\<close>

abbreviation apply_opts :: "(tls_config \<Rightarrow> tls_config) list \<Rightarrow> tls_config \<Rightarrow> tls_config" where
  "apply_opts opts c \<equiv> foldl (\<lambda>c opt. opt c) c opts"

lemma manager_options_paths:
  "all_paths (manager op) (\<lambda>t out. \<forall>d f opts r. EvFlags d f \<in> set t \<longrightarrow> EvDo (NewManager opts) r \<in> set t \<longrightarrow>
     Metrics opts = metricsServerOptions f \<and> WebhookServer_TLSOpts opts = tlsOpts f)"
  by (cases op) (auto simp: manager_defs intcert_options_def clientca_options_def Let_def
      split: option.split sum.split)

theorem manager_http2:
  assumes "accepts (manager op) t out" and "EvFlags d f \<in> set t" and "EvDo (NewManager opts) r \<in> set t"
    and "server_opts = Metrics_TLSOpts (Metrics opts) \<or> server_opts = WebhookServer_TLSOpts opts"
  shows "(if enable_http2 f then apply_opts server_opts c = c
      else apply_opts server_opts c = c\<lparr>NextProtos := [''http/1.1'']\<rparr>) \<and>
    SecureServing (Metrics opts) = (FilterProvider (Metrics opts) \<noteq> None)"
proof -
  have "Metrics opts = metricsServerOptions f" "WebhookServer_TLSOpts opts = tlsOpts f"
    using all_paths_accepts [OF manager_options_paths assms(1)] assms(2,3) by blast+
  with assms(4) show ?thesis by (auto simp: metricsServerOptions_def tlsOpts_def disableHTTP2_def)
qed

theorem manager_http2_witness:
  "NextProtos (apply_opts (WebhookServer_TLSOpts (options_of InternalClientCA default_flags)) zero_tls_config) =
     [''http/1.1'']"
proof -
  have "EvFlags default_flags default_flags \<in> set (op_start InternalClientCA)"
    "EvDo (NewManager (options_of InternalClientCA default_flags)) None \<in> set (op_start InternalClientCA)"
    by (simp_all add: op_start_def startup_def)
  from manager_http2 [OF accepts_op_start this disjI2 [OF refl], of zero_tls_config] show ?thesis
    by (simp add: default_flags_def)
qed

text \<open>What a Vault client of an operator is authenticated with.\<close>

lemma data_get_entries: "StringData s = Map.empty \<Longrightarrow> Data s \<noteq> None \<Longrightarrow>
    data_get s k = (case entries s k of None \<Rightarrow> [] | Some v \<Rightarrow> v)"
  by (auto simp: data_get_def entries_def split: option.splits)

lemma data_get_None: "StringData s = Map.empty \<Longrightarrow> Data s = None \<Longrightarrow> data_get s k = [] \<and> entries s k = None"
  by (simp add: data_get_def)

lemma data_get_stored: "StringData s = Map.empty \<Longrightarrow> entries s = m \<Longrightarrow> m k = Some v \<Longrightarrow> data_get s k = v"
  using data_get_entries [of s k] data_get_None [of s k] by (cases "Data s") auto

lemma manager_token_paths:
  "all_paths (manager op) (\<lambda>t out. \<forall>tok r st. EvDo (SetToken tok) r \<in> set t \<longrightarrow> conforms st t \<longrightarrow>
     (\<exists>nsByte s. EvAsk (ReadFile namespace_file) nsByte \<in> set t \<and>
       st (file_contents nsByte, ''vault-root-token'') = Some (entries s) \<and> StringData s = Map.empty \<and>
       tok = data_get s ''token''))"
  by (cases op) (auto simp: manager_defs Let_def reply_ok_other split: option.split sum.split)

lemma manager_token:
  assumes "accepts (manager op) t out" and "EvDo (SetToken tok) r \<in> set t" and "conforms st t"
  obtains nsByte s where "EvAsk (ReadFile namespace_file) nsByte \<in> set t"
    "st (file_contents nsByte, ''vault-root-token'') = Some (entries s)" "StringData s = Map.empty"
    "tok = data_get s ''token''"
  using all_paths_accepts [OF manager_token_paths assms(1)] assms(2,3) by blast

lemma manager_namespace:
  "all_paths (manager op) (\<lambda>t out. \<forall>r r'. EvAsk (ReadFile namespace_file) r \<in> set t \<longrightarrow>
     EvAsk (ReadFile namespace_file) r' \<in> set t \<longrightarrow> r = r')"
  by (cases op) (auto simp: manager_defs Let_def split: option.split sum.split)

text \<open>An operator returns only if every call succeeded; otherwise it exits with code 1, or
  panics because a type could not be registered or the API client not be built.\<close>

theorem manager_errors:
  assumes "accepts (manager op) t out"
  shows "case out of Returned x \<Rightarrow> list_all (\<lambda>e. reply_error e \<longrightarrow> (\<exists>q r. e = EvAsk (ReadFile q) r)) t
    | Exited n \<Rightarrow> n = 1
    | Panicked \<Rightarrow> \<exists>a e. last t = EvDo a (Some e) \<and> a \<in> {AddToScheme ''client-go'', AddToScheme ''sip.sec.com/v1alpha1'', NewForConfig}"
proof -
  have "all_paths (manager op) (\<lambda>t out. case out of
      Returned x \<Rightarrow> list_all (\<lambda>e. reply_error e \<longrightarrow> (\<exists>q r. e = EvAsk (ReadFile q) r)) t
    | Exited n \<Rightarrow> n = 1
    | Panicked \<Rightarrow> \<exists>a e. last t = EvDo a (Some e) \<and> a \<in> {AddToScheme ''client-go'', AddToScheme ''sip.sec.com/v1alpha1'', NewForConfig})"
    by (cases op) (auto simp: manager_defs Let_def split: option.split sum.split)
  from all_paths_accepts [OF this assms] show ?thesis .
qed

theorem manager_errors_witness: "\<exists>a. accepts (manager InternalCert) a (Returned ()) \<and>
    list_all (\<lambda>e. reply_error e \<longrightarrow> (\<exists>q r. e = EvAsk (ReadFile q) r)) a"
  using manager_errors [OF accepts_op_start [of InternalCert]] accepts_op_start [of InternalCert] by auto

end
