(* ===== verification/Controller_Watches.thy ===== *)
theory Controller_Watches
  imports IntCert_Controller ClientCA_Controller Operator_Managers
begin

text \<open>
  What a controller is called for: the types the API packages register with the scheme
  (api/v1alpha1/groupversion_info.go and the \<^verbatim>\<open>init\<close> of the types), the objects the
  controllers watch (\<^verbatim>\<open>SetupWithManager\<close>), and the requests a change of a watched object leads to.
  Registering (\<^verbatim>\<open>AddToScheme\<close>) is apimachinery and a parameter; \<open>demanded\<close> is the documented
  contract of \<^verbatim>\<open>For\<close> and \<^verbatim>\<open>Owns\<close> of controller-runtime.
\<close>

subsection \<open>Registered types\<close>

record group_version =
  Group :: string
  Version :: string

type_synonym go_type = string

record scheme_builder =
  SB_GroupVersion :: group_version
  SB_Objects :: "go_type list"

definition GroupVersion :: group_version where
  "GroupVersion = \<lparr>Group = ''sip.sec.com'', Version = ''v1alpha1''\<rparr>"

definition SchemeBuilder :: scheme_builder where
  "SchemeBuilder = \<lparr>SB_GroupVersion = GroupVersion, SB_Objects = []\<rparr>"

definition ca_GroupVersion :: group_version where
  "ca_GroupVersion = \<lparr>Group = ''sip.sec.com'', Version = ''v1alpha1''\<rparr>"

definition ca_SchemeBuilder :: scheme_builder where
  "ca_SchemeBuilder = \<lparr>SB_GroupVersion = ca_GroupVersion, SB_Objects = []\<rparr>"

text \<open>\<^verbatim>\<open>Register\<close> of \<^verbatim>\<open>scheme.Builder\<close> remembers the objects for \<^verbatim>\<open>AddToScheme\<close>.\<close>

definition Register :: "go_type list \<Rightarrow> scheme_builder \<Rightarrow> scheme_builder" where
  "Register objs b = b\<lparr>SB_Objects := SB_Objects b @ objs\<rparr>"

definition intcert_types_init :: scheme_builder where
  "intcert_types_init = Register [''InternalCertificate'', ''InternalCertificateList''] SchemeBuilder"

definition clientca_types_init :: scheme_builder where
  "clientca_types_init = Register [''InternalClientCA'', ''InternalClientCAList''] ca_SchemeBuilder"

text \<open>A scheme gives every registered type its group, version and kind; \<^verbatim>\<open>AddToScheme\<close> registers the
  objects of a builder under their type's name.\<close>

type_synonym type_table = "go_type \<rightharpoonup> group_version \<times> string"

definition adds_known_types :: "(scheme_builder \<Rightarrow> type_table \<Rightarrow> type_table) \<Rightarrow> bool" where
  "adds_known_types add \<longleftrightarrow>
     (\<forall>b sch. \<forall>ty \<in> set (SB_Objects b). add b sch ty = Some (SB_GroupVersion b, ty))"

subsection \<open>Watches\<close>

record watches =
  For :: go_type
  Owns :: "go_type list"

definition intcert_watches :: watches where
  "intcert_watches = \<lparr>For = ''InternalCertificate'', Owns = [''Secret'']\<rparr>"

definition clientca_watches :: watches where
  "clientca_watches = \<lparr>For = ''InternalClientCA'', Owns = [''Secret'']\<rparr>"

text \<open>A change of an object of the type the controller is for asks for the object itself, a change of an
  owned object for its owners of that type's kind, in the object's namespace.\<close>

definition demanded :: "type_table \<Rightarrow> watches \<Rightarrow> go_type \<times> object_meta \<Rightarrow> namespaced_name list" where
  "demanded sch w change =
     (case change of (ty, m) \<Rightarrow>
        (if ty = For w then [(Meta_Namespace m, Meta_Name m)] else []) @
        (if ty \<in> set (Owns w) then
           (case sch (For w) of None \<Rightarrow> [] | Some (gv, kind) \<Rightarrow>
              map (\<lambda>r. (Meta_Namespace m, Owner_Name r)) (filter (\<lambda>r. Owner_Kind r = kind) (OwnerReferences m)))
         else []))"

text \<open>The two operators side by side.\<close>

fun reconcile_of :: "operator \<Rightarrow> namespaced_name \<Rightarrow> reconcile_result prog" where
  "reconcile_of InternalCert = Reconcile"
| "reconcile_of InternalClientCA = ca_Reconcile"

fun watches_of :: "operator \<Rightarrow> watches" where
  "watches_of InternalCert = intcert_watches"
| "watches_of InternalClientCA = clientca_watches"

fun types_of :: "operator \<Rightarrow> scheme_builder" where
  "types_of InternalCert = intcert_types_init"
| "types_of InternalClientCA = clientca_types_init"

lemma watched_kind:
  assumes "adds_known_types add"
  shows "\<exists>gv. add (types_of op) sch (For (watches_of op)) = Some (gv, kind_of op)"
  using assms by (cases op) (auto simp: adds_known_types_def intcert_types_init_def clientca_types_init_def Register_def
      SchemeBuilder_def ca_SchemeBuilder_def intcert_watches_def clientca_watches_def kind_of_def)

subsection \<open>The secrets a controller owns\<close>

text \<open>The resources a run has read.\<close>

definition resource_read :: "event \<Rightarrow> bool" where
  "resource_read e =
     (case e of EvGetIntCert n r \<Rightarrow> \<not> isl r | EvGetIntClientCA n r \<Rightarrow> \<not> isl r | _ \<Rightarrow> False)"

abbreviation "resource_reads t \<equiv> filter resource_read t"

text \<open>The API server returns the object it is asked for.\<close>

definition read_named :: "event \<Rightarrow> bool" where
  "read_named e =
     (case e of
        EvGetIntCert n r \<Rightarrow> (case r of Inl err \<Rightarrow> True | Inr c \<Rightarrow>
          n = (Meta_Namespace (IntCert_Meta c), Meta_Name (IntCert_Meta c)))
      | EvGetIntClientCA n r \<Rightarrow> (case r of Inl err \<Rightarrow> True | Inr c \<Rightarrow>
          n = (Meta_Namespace (ClientCA_Meta c), Meta_Name (ClientCA_Meta c)))
      | _ \<Rightarrow> True)"

text \<open>Reading a secret fails only if it is absent.\<close>

definition plain_read :: "namespaced_name \<Rightarrow> event \<Rightarrow> bool" where
  "plain_read k e =
     (case e of EvGetSecret ns n r \<Rightarrow> (case r of Inl err \<Rightarrow> k = (ns, n) \<longrightarrow> IsNotFound err | Inr s \<Rightarrow> True) | _ \<Rightarrow> True)"

definition owned_write :: "operator \<Rightarrow> namespaced_name \<Rightarrow> namespaced_name \<Rightarrow> secret \<Rightarrow> bool" where
  "owned_write op req k s \<longleftrightarrow> Meta_Namespace (Secret_Meta s) = fst req \<and>
     (\<exists>uid. OwnerReferences (Secret_Meta s) = [\<lparr>Owner_Kind = kind_of op, Owner_Name = snd req, Owner_UID = uid\<rparr>])"

lemma Reconcile_owns:
  "always (Reconcile req) (\<lambda>t. \<forall>e \<in> set t. \<forall>k s. secret_write e = Some (k, s) \<longrightarrow> list_all read_named t \<longrightarrow>
     owned_write InternalCert req k s \<and>
     (\<exists>c. resource_reads t = [EvGetIntCert req (Inr c)] \<and> (is_client c \<or> is_server c) \<and> k = intcert_key c))"
  by (auto simp: reconcile_defs owned_write_def kind_of_def resource_read_def read_named_def split: sum.splits option.splits)

lemma ca_Reconcile_owns:
  "always (ca_Reconcile req) (\<lambda>t. \<forall>e \<in> set t. \<forall>k s. secret_write e = Some (k, s) \<longrightarrow> list_all read_named t \<longrightarrow>
     owned_write InternalClientCA req k s \<and>
     (\<exists>c. resource_reads t = [EvGetIntClientCA req (Inr c)] \<and> k = clientca_key c))"
  by (auto simp: ca_reconcile_defs owned_write_def kind_of_def resource_read_def read_named_def ca_secret_literal_def
      empty_meta_def
      split: sum.splits option.splits)

lemma in_resource_reads: "resource_reads t = [e] \<Longrightarrow> e \<in> set t"
  using filter_set [of resource_read t] by auto

text \<open>A run that succeeds after the secret was deleted stores it again.\<close>

lemma Reconcile_restores:
  assumes "accepts (Reconcile req) t (Returned None)" and "resource_reads t = [EvGetIntCert req (Inr c)]"
    and "fst req = Meta_Namespace (IntCert_Meta c)" and "is_client c \<or> is_server c"
    and "conforms st t" and "list_all (plain_read (intcert_key c)) t"
  shows "replay st t (intcert_key c) \<noteq> None"
proof -
  have "EvGetIntCert req (Inr c) \<in> set t" by (rule in_resource_reads [OF assms(2)])
  moreover have "IsNotFound err" if "EvGetSecret (fst req) (secret_of c) (Inl err) \<in> set t" for err
  proof -
    from that assms(6) have "plain_read (intcert_key c) (EvGetSecret (fst req) (secret_of c) (Inl err))"
      by (auto simp: list_all_iff)
    with assms(3) show ?thesis by (simp add: plain_read_def)
  qed
  ultimately show ?thesis using all_paths_accepts [OF Reconcile_success assms(1)] assms(3-5) by blast
qed

lemma ca_Reconcile_restores:
  assumes "accepts (ca_Reconcile req) t (Returned None)" and "resource_reads t = [EvGetIntClientCA req (Inr c)]"
  shows "replay st t (clientca_key c) \<noteq> None"
proof -
  obtain cert where "replay st t = st(clientca_key c \<mapsto> wanted_ca_entries c cert)"
    using all_paths_accepts [OF ca_Reconcile_contents assms(1)] in_resource_reads [OF assms(2)] by blast
  then show ?thesis by simp
qed

lemma demanded_owner:
  assumes "adds_known_types add" and "owned_write op req k s"
  shows "demanded (add (types_of op) sch) (watches_of op) (''Secret'', Secret_Meta s) = [req]"
proof -
  from watched_kind [OF assms(1)] obtain gv where "add (types_of op) sch (For (watches_of op)) = Some (gv, kind_of op)" by blast
  moreover have "For (watches_of op) \<noteq> ''Secret''" "''Secret'' \<in> set (Owns (watches_of op))"
    by (cases op; simp add: intcert_watches_def clientca_watches_def)+
  ultimately show ?thesis using assms(2) by (auto simp: demanded_def owned_write_def)
qed

text \<open>C10: a secret either controller has written heals: when it is changed or deleted, the watches of
  the controller ask for exactly the resource it was written for, because the controller owns secrets and
  the controller reference it sets carries the kind the type is registered with; and once that resource's
  reconciliation succeeds, with the resource unchanged and no read of the secret failing for another
  reason than absence, the deleted secret is there again.\<close>

theorem owned_secret_restored:
  assumes "adds_known_types add"
    and "steps (reconcile_of op req) t = Some p" and "list_all read_named t"
    and "e \<in> set t" and "secret_write e = Some (k, s)"
    and "accepts (reconcile_of op req) t2 (Returned None)" and "resource_reads t2 = resource_reads t"
    and "conforms (st(k := None)) t2" and "list_all (plain_read k) t2"
  shows "demanded (add (types_of op) sch) (watches_of op) (''Secret'', Secret_Meta s) = [req] \<and>
    replay (st(k := None)) t2 k \<noteq> None"
proof (cases op)
  case InternalCert
  then have st: "steps (Reconcile req) t = Some p" using assms(2) by simp
  obtain c where c: "owned_write InternalCert req k s" "resource_reads t = [EvGetIntCert req (Inr c)]"
      "is_client c \<or> is_server c" "k = intcert_key c"
    using always_steps [OF Reconcile_owns st] assms(3-5) by blast
  have d: "demanded (add (types_of op) sch) (watches_of op) (''Secret'', Secret_Meta s) = [req]"
    by (rule demanded_owner [OF assms(1) c(1) [folded InternalCert]])
  have "EvGetIntCert req (Inr c) \<in> set t" by (rule in_resource_reads [OF c(2)])
  with assms(3) have "fst req = Meta_Namespace (IntCert_Meta c)" by (auto simp: list_all_iff read_named_def)
  with Reconcile_restores [of req t2 c "st(k := None)"] assms(6-9) d c show ?thesis by (simp add: InternalCert)
next
  case InternalClientCA
  then have st: "steps (ca_Reconcile req) t = Some p" using assms(2) by simp
  obtain c where c: "owned_write InternalClientCA req k s" "resource_reads t = [EvGetIntClientCA req (Inr c)]"
      "k = clientca_key c"
    using always_steps [OF ca_Reconcile_owns st] assms(3-5) by blast
  have d: "demanded (add (types_of op) sch) (watches_of op) (''Secret'', Secret_Meta s) = [req]"
    by (rule demanded_owner [OF assms(1) c(1) [folded InternalClientCA]])
  with ca_Reconcile_restores [of req t2 c] assms(6-7) d c show ?thesis by (simp add: InternalClientCA)
qed

text \<open>A scheme as a map, to have an example.\<close>

definition add_all :: "scheme_builder \<Rightarrow> type_table \<Rightarrow> type_table" where
  "add_all b sch = sch ++ map_of (map (\<lambda>ty. (ty, (SB_GroupVersion b, ty))) (SB_Objects b))"

lemma adds_known_types_add_all: "adds_known_types add_all"
proof -
  have *: "map_of (map (\<lambda>ty. (ty, (gv, ty))) tys) ty = Some (gv, ty)" if "ty \<in> set tys" for ty tys and gv :: group_version
    using that by (induction tys) auto
  show ?thesis by (simp add: adds_known_types_def add_all_def map_add_def *)
qed

theorem owned_secret_restored_witness:
  "demanded (add_all intcert_types_init Map.empty) intcert_watches (''Secret'', Secret_Meta (owned_sample True)) =
     [(''sip'', ''cr'')] \<and>
   replay (Map.empty((''sip'', ''sec'') := None)) (sample_run True) (''sip'', ''sec'') \<noteq> None"
proof -
  have st: "steps (reconcile_of InternalCert (''sip'', ''cr'')) (sample_run True) = Some (Ret None)"
    using accepts_sample_run [of True] by (simp add: sample_run_def reconcile_defs record_defs secret_cert_def go_index_def)
  have e: "EvDo (CreateSecret ''sip'' (owned_sample True)) None \<in> set (sample_run True)"
      "list_all read_named (sample_run True)" "list_all (plain_read (''sip'', ''sec'')) (sample_run True)"
    by (simp_all add: sample_run_def read_named_def plain_read_def sample_cr_def)
  have w: "secret_write (EvDo (CreateSecret ''sip'' (owned_sample True)) None) = Some ((''sip'', ''sec''), owned_sample True)"
    by (simp add: record_defs)
  have c: "conforms (Map.empty((''sip'', ''sec'') := None)) (sample_run True)"
    by (simp add: sample_run_def record_defs reply_ok_other)
  from owned_secret_restored [OF adds_known_types_add_all st e(2,1) w _ refl c e(3)] accepts_sample_run [of True]
  show ?thesis by simp
qed

end
