(* ===== verification/System_Trust.thy ===== *)
theory System_Trust
  imports Vault_Ca IntCert_Controller ClientCA_Controller Vault_Pki_Schedules
begin

text \<open>
  The purpose of the whole system: what the Secrets hold verifies.  A client that presents the key
  pair of its Secret is trusted by a service that trusts the CA of the InternalClientCA's Secret, and a
  service that presents the key pair of its Secret is trusted by a client that trusts sip-root-ca.
\<close>

subsection \<open>Client certificates\<close>

lemma ca_Reconcile_cas:
  "all_paths (ca_Reconcile req) (\<lambda>t out. \<forall>c. EvGetIntClientCA req (Inr c) \<in> set t \<longrightarrow> out = Returned None \<longrightarrow>
     (\<exists>cert. (filter on_cas t = [EvAsk (PkiReadCertCaChain (ca_mount c)) (Inr cert)] \<or>
              filter on_cas t = [EvAsk (PkiGenerateRoot (ca_mount c) ''internal'' (root_request c)) (Inr cert)]) \<and>
        ((\<forall>st. replay st t = st(clientca_key c \<mapsto> wanted_ca_entries c cert)) \<or>
         (\<exists>ns e. EvGetSecret ns ''vault-root-token'' (Inl e) \<in> set t))))"
  by (auto simp: ca_reconcile_defs root_request_def on_cas_def split: sum.splits option.splits)

lemma Reconcile_cas:
  "all_paths (Reconcile req) (\<lambda>t out. \<forall>c m ro q resp. EvGetIntCert req (Inr c) \<in> set t \<longrightarrow>
     EvIssue m ro q (Inr resp) \<in> set t \<longrightarrow> out = Returned None \<longrightarrow>
     filter on_cas t = [EvIssue m ro q (Inr resp)] \<and> (m, ro) = issuing_role c \<and>
     (\<not> is_client c \<longrightarrow> Resp_CaChain resp \<noteq> []) \<and>
     written_keys t = {intcert_key c})"
  by (auto simp: reconcile_defs issuing_role_def on_cas_def secret_cert_def go_index_def split: sum.splits option.splits)

text \<open>C8: once the controller of the client CAs has successfully reconciled an InternalClientCA, with no
  failed read of the root token (after one, an empty CA is stored), and the controller of the certificates
  has later, in another Secret, successfully issued a client certificate whose issuer reference names that
  CA, the certificate in the Secret of the client is signed by the CA certificate in the Secret of the
  InternalClientCA, as long as nothing replaced the CA of the mount or overwrote that Secret in between: a service that trusts the one accepts the other.\<close>

theorem client_secret_verifies:
  assumes "accepts (ca_Reconcile ca_req) t1 (Returned None)" and "EvGetIntClientCA ca_req (Inr ca) \<in> set t1"
    and "\<And>ns err. EvGetSecret ns ''vault-root-token'' (Inl err) \<notin> set t1"
    and "list_all (\<lambda>e. \<forall>cert. new_ca e \<noteq> Some (ca_mount ca, cert)) u" and "clientca_key ca \<notin> written_keys u"
    and "accepts (Reconcile req) t2 (Returned None)" and "EvGetIntCert req (Inr c) \<in> set t2" and "is_client c"
    and "EvIssue m ro q (Inr resp) \<in> set t2"
    and "Reference (Issuer (Spec_Certificate (IntCert_Spec c))) =
      CA_CN (CA_Subject (CA_Spec_Certificate (ClientCA_Spec ca))) @ ''-ca''"
    and "intcert_key c \<noteq> clientca_key ca" and "ca_conform signs v (t1 @ u @ t2)"
  shows "\<exists>root leaf pair.
    replay st (t1 @ u @ t2) (clientca_key ca) = Some [CA_CertName (CA_Spec_Secret (ClientCA_Spec ca)) \<mapsto> root] \<and>
    replay st (t1 @ u @ t2) (intcert_key c) = Some pair \<and>
    pair (CertName (Spec_Secret (IntCert_Spec c))) = Some leaf \<and> signs root leaf"
proof -
  obtain root where cas: "filter on_cas t1 = [EvAsk (PkiReadCertCaChain (ca_mount ca)) (Inr root)] \<or>
      filter on_cas t1 = [EvAsk (PkiGenerateRoot (ca_mount ca) ''internal'' (root_request ca)) (Inr root)]"
    and st1: "\<And>st. replay st t1 = st(clientca_key ca \<mapsto> wanted_ca_entries ca root)"
    using all_paths_accepts [OF ca_Reconcile_cas assms(1)] assms(2,3) by blast
  from all_paths_accepts [OF Reconcile_cas assms(6)] assms(7,9)
  have issue: "filter on_cas t2 = [EvIssue m ro q (Inr resp)]" "(m, ro) = issuing_role c"
    and keys: "written_keys t2 = {intcert_key c}" by blast+
  have st2: "replay st t2 = st(intcert_key c \<mapsto> wanted_entries c resp)" for st
    using all_paths_accepts [OF Reconcile_contents assms(6)] assms(7,9) by blast
  have m: "m = ca_mount ca" using issue(2) assms(8,10) by (simp add: issuing_role_def ca_mount_def)
  let ?v = "replay_cas v t1"
  have "ca_conform signs v (filter on_cas t1)" using assms(12) by (simp add: ca_conform_filter)
  with cas have "replay_cas v (filter on_cas t1) (ca_mount ca) = Some root" by auto
  then have "?v (ca_mount ca) = Some root" by (simp add: replay_cas_filter)
  then have "replay_cas ?v u (ca_mount ca) = Some root" using ca_kept [OF assms(4)] by simp
  moreover have "ca_conform signs (replay_cas ?v u) (filter on_cas t2)"
    using assms(12) by (simp add: ca_conform_filter)
  ultimately have "signs root (Resp_Certificate resp)" using issue(1) m by simp
  moreover have "replay st (t1 @ u @ t2) (clientca_key ca) = Some (wanted_ca_entries ca root)"
    using replay_frame [of "clientca_key ca" u] assms(5,11) by (auto simp: st1 st2)
  ultimately show ?thesis
    using assms(8) by (intro exI [of _ root] exI [of _ "Resp_Certificate resp"] exI [of _ "wanted_entries c resp"])
      (simp add: st2 wanted_ca_entries_def wanted_entries_def)
qed

text \<open>A Vault in which every CA signs exactly what carries its name.\<close>

definition sample_signs :: "string \<Rightarrow> string \<Rightarrow> bool" where
  "sample_signs ca cert \<longleftrightarrow> (ca, cert) \<in> {(''CA'', ''C''), (''C'', ''I''), (''I'', ''L'')}"

theorem client_secret_verifies_witness:
  "\<exists>root pair. replay Map.empty (enabled_run sample_ca {clientCAPath sample_ca} ''CA'' @ sample_run True)
      (''sip'', ''casec'') = Some [''ca.pem'' \<mapsto> root] \<and>
    replay Map.empty (enabled_run sample_ca {clientCAPath sample_ca} ''CA'' @ sample_run True)
      (''sip'', ''sec'') = Some pair \<and> (\<exists>leaf. pair ''tls.crt'' = Some leaf \<and> sample_signs root leaf)"
proof -
  let ?t1 = "enabled_run sample_ca {clientCAPath sample_ca} ''CA''" and ?t2 = "sample_run True"
  have t1: "accepts (ca_Reconcile (''sip'', ''ca'')) ?t1 (Returned None)"
    by (rule accepts_enabled_run) simp
  have conf: "ca_conform sample_signs [ca_mount sample_ca \<mapsto> ''CA''] (filter on_cas (?t1 @ [] @ ?t2))"
    by (simp add: enabled_run_def sample_run_def on_cas_def sample_signs_def record_defs ca_mount_def)
  from client_secret_verifies [OF t1 _ _ _ _ accepts_sample_run _ _ _ _ _
      conf [unfolded ca_conform_filter], of sample_ca "sample_cr True"
      "''sip-client-ca/sp-ca''" "''client-ca''" "issue_req ''sp''" sample_resp Map.empty]
  show ?thesis
    by (simp add: enabled_run_def sample_run_def record_defs empty_meta_def)
qed

subsection \<open>Server certificates\<close>

lemma root_cas:
  "all_paths (enablePKIRootCA v) (\<lambda>t out. out = Returned () \<longrightarrow>
     (\<exists>root. filter on_cas t = [EvAsk (PkiGenerateRoot ''sip-root-ca'' ''internal'' root_generate_request) (Inr root)]))"
  by (auto simp: enablePKIRootCA_def pki_defs rootCAPath_def on_cas_def split: option.split sum.split)

definition interm_ca_calls :: "string \<Rightarrow> string \<Rightarrow> event list" where
  "interm_ca_calls csr interm =
     [EvAsk (PkiRootSignIntermediate ''sip-root-ca'' (interm_sign_request csr)) (Inr interm),
      EvDo (PkiSetSignedIntermediate ''sip-interm-ca'' interm) None]"

lemma interm_cas:
  "all_paths (enablePKIIntermCA v) (\<lambda>t out. out \<noteq> Exited 0 \<and> (out = Returned () \<longrightarrow>
     (\<exists>csr interm. filter on_cas t = interm_ca_calls csr interm)))"
  by (auto simp: enablePKIIntermCA_def pki_defs rootCAPath_def intermCAPath_def on_cas_def interm_ca_calls_def
      split: option.split sum.split)

lemma pki_init_no_cas: "each_call (\<lambda>e. \<not> on_cas e) pki_init"
  by (auto simp: pki_init_def read_namespace_def Let_def on_cas_def split: option.split sum.split)

lemma persist_no_cas: "each_call (\<lambda>e. \<not> on_cas e) (persist_root_ca x)"
  by (auto simp: persist_root_ca_def set_err_def on_cas_def split: prod.split option.split sum.split)

text \<open>The calls on CAs of a job that made both mounts.\<close>

definition fresh_pki :: "event list \<Rightarrow> string \<Rightarrow> string \<Rightarrow> bool" where
  "fresh_pki t root interm \<longleftrightarrow> (\<exists>csr. filter on_cas t =
     EvAsk (PkiGenerateRoot ''sip-root-ca'' ''internal'' root_generate_request) (Inr root) # interm_ca_calls csr interm)"

lemma pki_rest_cas:
  assumes "''sip-root-ca/'' \<notin> mounts" and "''sip-interm-ca/'' \<notin> mounts"
  shows "all_paths (pki_rest mounts v) (\<lambda>t out. out = Exited 0 \<longrightarrow> (\<exists>root interm. fresh_pki t root interm))"
proof -
  have root: "all_paths (enablePKIRootCA v) (\<lambda>t out. out \<noteq> Exited 0 \<and> (out = Returned () \<longrightarrow>
      (\<exists>root. filter on_cas t = [EvAsk (PkiGenerateRoot ''sip-root-ca'' ''internal'' root_generate_request) (Inr root)])))"
    using root_cas root_runs by (simp add: all_paths_conj)
  have interm: "all_paths (bind (enablePKIIntermCA v) (\<lambda>_. Exit 0 :: unit prog)) (\<lambda>t out. out = Exited 0 \<longrightarrow>
      (\<exists>csr interm. filter on_cas t = interm_ca_calls csr interm))"
    by (rule all_paths_bindI [OF interm_cas]) auto
  have "all_paths (bind (enablePKIRootCA v) (\<lambda>_. bind (enablePKIIntermCA v) (\<lambda>_. Exit 0 :: unit prog)))
      (\<lambda>t out. out = Exited 0 \<longrightarrow> (\<exists>root interm. fresh_pki t root interm))"
    by (rule all_paths_bindI [OF root], rule all_paths_mono [OF interm]) (auto simp: fresh_pki_def, blast)
  with assms show ?thesis by simp
qed

lemma pki_fresh:
  assumes "pki_execs ms p" and "exit_code p = Some 0" and "EvListMounts (Inr mounts) \<in> set (all_calls ms)"
    and "''sip-root-ca/'' \<notin> mounts" and "''sip-interm-ca/'' \<notin> mounts"
  obtains root interm where "fresh_pki (all_calls ms) root interm"
proof -
  from pki_exit_0 [OF assms(1,2)] obtain out where acc: "accepts pki_job (calls_of 0 ms) out"
    and out: "out = Exited 0 \<or> out = Returned ()" by blast
  from pki_exit_0_rest [OF acc out] obtain t0 v mounts' u where
    t: "calls_of 0 ms = t0 @ EvListMounts (Inr mounts') # u"
    and once: "list_all (\<lambda>e. \<forall>r. e \<noteq> EvListMounts r) (t0 @ u)" and u: "accepts (pki_rest mounts' v) u out"
    and t0: "accepts pki_init t0 (Returned v)" .
  have "\<not> pki_harmless (EvListMounts (Inr mounts))" by (simp add: pki_harmless_def)
  from pki_main_made [OF assms(1,3) this] once have eq: "mounts' = mounts" by (auto simp: t list_all_iff)
  with all_paths_accepts [OF pki_rest_runs u] out have "out = Exited 0" by auto
  with all_paths_accepts [OF pki_rest_cas u] assms(4,5) eq obtain root interm where
    r: "fresh_pki u root interm" by blast
  have "filter on_cas t0 = []"
    using always_accepts [OF pki_init_no_cas t0] by (simp add: list_all_iff filter_empty_conv)
  with r have "fresh_pki (calls_of 0 ms) root interm" by (auto simp: t fresh_pki_def on_cas_def)
  moreover have "filter on_cas (all_calls ms) = filter on_cas (calls_of 0 ms)"
  proof (rule filter_main_calls)
    fix i e assume e: "Act i e \<in> set ms" "i \<noteq> 0"
    from Act_in_range [OF assms(1) e(1)] e(2) pki_goroutine [OF assms(1)] obtain ns cert where
      "steps (persist_root_ca (ns, cert)) (calls_of i ms) = Some (threads p ! i)" by blast
    from always_steps [OF persist_no_cas this] e(1) show "\<not> on_cas e"
      by (auto simp: list_all_iff in_calls_of_iff)
  qed
  ultimately show thesis using that by (simp add: fresh_pki_def)
qed

text \<open>C9: after a PKI job that found both mounts new has ended with code 0, and if its goroutine had returned
  by then, having read from the shared variable only what it stored itself (\<^verbatim>\<open>main\<close> waits for neither),
  a Secret other than sip-root-ca in which the controller later issues a server certificate holds a chain
  that verifies: the leaf is signed by the intermediate certificate behind it, and that one by the
  certificate in sip-root-ca, which the clients trust, as long as nothing replaced the intermediate CA or overwrote
  sip-root-ca in between.\<close>

theorem server_secret_verifies:
  assumes "pki_execs ms p" and "exit_code p = Some 0"
    and "EvListMounts (Inr mounts) \<in> set (all_calls ms)"
    and "''sip-root-ca/'' \<notin> mounts" and "''sip-interm-ca/'' \<notin> mounts"
    and "0 < i" and "i < length (threads p)" and "ended (threads p ! i) = Some (Returned ())"
    and "undisturbed (calls_of i ms)" and "conforms st (all_calls ms)"
    and "list_all (\<lambda>e. \<forall>cert. new_ca e \<noteq> Some (''sip-interm-ca'', cert)) u"
    and "''sip-root-ca'' \<notin> snd ` written_keys u"
    and "accepts (Reconcile req) t (Returned None)" and "EvGetIntCert req (Inr c) \<in> set t"
    and "\<not> is_client c" and "EvIssue m ro q (Inr resp) \<in> set t" and "secret_of c \<noteq> ''sip-root-ca''"
    and "ca_conform signs v (all_calls ms @ u @ t)"
  shows "\<exists>ns trusted root pair leaf interm.
    replay st (all_calls ms @ u @ t) (ns, ''sip-root-ca'') = Some trusted \<and> trusted ''ca.pem'' = Some root \<and>
    replay st (all_calls ms @ u @ t) (intcert_key c) = Some pair \<and>
    pair (CertName (Spec_Secret (IntCert_Spec c))) = Some (leaf @ newline @ interm) \<and>
    signs root interm \<and> signs interm leaf"
proof -
  obtain root interm where fresh: "fresh_pki (all_calls ms) root interm" by (rule pki_fresh [OF assms(1-5)])
  obtain ns cert trusted where
    gen: "EvAsk (PkiGenerateRoot ''sip-root-ca'' ''internal'' root_generate_request) (Inr cert) \<in> set (all_calls ms)"
    and trusted: "replay st (all_calls ms) (ns, ''sip-root-ca'') = Some trusted" "trusted ''ca.pem'' = Some cert"
    using root_certificate_in_secret [OF assms(1,6-10)] by blast
  from gen have "EvAsk (PkiGenerateRoot ''sip-root-ca'' ''internal'' root_generate_request) (Inr cert) \<in>
      set (filter on_cas (all_calls ms))" by (simp add: on_cas_def)
  moreover from fresh obtain csr where "filter on_cas (all_calls ms) =
      EvAsk (PkiGenerateRoot ''sip-root-ca'' ''internal'' root_generate_request) (Inr root) # interm_ca_calls csr interm"
    unfolding fresh_pki_def by blast
  ultimately have cert: "cert = root" by (simp only:) (simp add: interm_ca_calls_def)
  from all_paths_accepts [OF Reconcile_cas assms(13)] assms(14,16)
  have issue: "filter on_cas t = [EvIssue m ro q (Inr resp)]" "(m, ro) = issuing_role c" "Resp_CaChain resp \<noteq> []"
    and keys: "written_keys t = {intcert_key c}" using assms(15) by blast+
  have st2: "replay st t = st(intcert_key c \<mapsto> wanted_entries c resp)" for st
    using all_paths_accepts [OF Reconcile_contents assms(13)] assms(14,16) by blast
  have m: "m = ''sip-interm-ca''" using issue(2) assms(15) by (simp add: issuing_role_def)
  let ?v = "replay_cas v (all_calls ms)"
  have "ca_conform signs v (filter on_cas (all_calls ms))" using assms(18) by (simp add: ca_conform_filter)
  with fresh have "signs root interm" "replay_cas v (filter on_cas (all_calls ms)) ''sip-interm-ca'' = Some interm"
    by (auto simp: fresh_pki_def interm_ca_calls_def)
  note made = this
  then have "replay_cas ?v u ''sip-interm-ca'' = Some interm"
    using ca_kept [OF assms(11)] by (simp add: replay_cas_filter)
  moreover have "ca_conform signs (replay_cas ?v u) (filter on_cas t)"
    using assms(18) by (simp add: ca_conform_filter)
  ultimately have leaf: "signs interm (Resp_Certificate resp)" "hd (Resp_CaChain resp) = interm"
    using issue(1,3) m by auto
  have "(ns, ''sip-root-ca'') \<notin> written_keys u" using assms(12) by force
  then have "replay st (all_calls ms @ u @ t) (ns, ''sip-root-ca'') = Some trusted"
    using replay_frame [of "(ns, ''sip-root-ca'')" u] trusted(1) assms(17) by (auto simp: st2)
  with made(1) leaf trusted(2) cert assms(15) show ?thesis
    by (intro exI [of _ ns] exI [of _ trusted] exI [of _ root] exI [of _ "wanted_entries c resp"]
        exI [of _ "Resp_Certificate resp"] exI [of _ interm]) (simp add: st2 wanted_entries_def)
qed

text \<open>A certificate issued by the intermediate CA of the sample schedule of the PKI job.\<close>

definition server_run :: "event list" where
  "server_run = (let resp = sample_resp\<lparr>Resp_Certificate := ''L'', Resp_CaChain := [''I'']\<rparr>;
       s = secret_literal (sample_cr False) resp (''L'' @ newline @ ''I'') in
     [EvGetIntCert (''sip'', ''cr'') (Inr (sample_cr False)),
      EvGetSecret ''sip'' ''sec'' (Inl (StatusError NotFound [])),
      EvIssue ''sip-interm-ca'' ''interm-ca'' (issue_req ''sp'') (Inr resp),
      EvDo (SetControllerReference (IntCert_Meta (sample_cr False)) s) None,
      EvDo (CreateSecret ''sip'' (set_owner ''InternalCertificate'' (IntCert_Meta (sample_cr False)) s)) None])"

lemma accepts_server_run: "accepts (Reconcile (''sip'', ''cr'')) server_run (Returned None)"
  by (simp add: server_run_def reconcile_defs record_defs secret_cert_def go_index_def)

theorem server_secret_verifies_witness:
  "\<exists>ns trusted root pair leaf interm.
    replay Map.empty (all_calls pki_good @ server_run) (ns, ''sip-root-ca'') = Some trusted \<and>
    trusted ''ca.pem'' = Some root \<and>
    replay Map.empty (all_calls pki_good @ server_run) (''sip'', ''sec'') = Some pair \<and>
    pair ''tls.crt'' = Some (leaf @ newline @ interm) \<and> sample_signs root interm \<and> sample_signs interm leaf"
proof -
  obtain c where c: "pki_execs pki_good c" "exit_code c = Some 0" "length (threads c) = 2"
    "ended (threads c ! 1) = Some (Returned ())" using pki_good_exec by blast
  have lists: "EvListMounts (Inr {}) \<in> set (all_calls pki_good)" by (simp add: pki_good_def pki_head_def)
  have run: "EvGetIntCert (''sip'', ''cr'') (Inr (sample_cr False)) \<in> set server_run"
    "\<not> is_client (sample_cr False)"
    "EvIssue ''sip-interm-ca'' ''interm-ca'' (issue_req ''sp'')
      (Inr (sample_resp\<lparr>Resp_Certificate := ''L'', Resp_CaChain := [''I'']\<rparr>)) \<in> set server_run"
    "secret_of (sample_cr False) \<noteq> ''sip-root-ca''"
    by (simp_all add: server_run_def sample_cr_def Let_def)
  have conf: "ca_conform sample_signs Map.empty (filter on_cas (all_calls pki_good @ [] @ server_run))"
    by (simp add: pki_good_def pki_head_def root_head_def interm_events_def interm_chain_def root_role_call_def
        no_patch_def server_run_def Let_def on_cas_def sample_signs_def record_defs)
  have "0 < (1::nat)" "1 < length (threads c)" using c(3) by simp_all
  from server_secret_verifies [OF c(1,2) lists _ _ this c(4) undisturbed_pki_good conforms_pki_good _ _
      accepts_server_run run conf [unfolded ca_conform_filter]]
  show ?thesis by (simp add: sample_cr_def)
qed

end
