(* ===== verification/File_Store.thy ===== *)
theory File_Store
  imports Go_Paths
begin

text \<open>
  The abstract specification of the files a program reads and writes: \<open>fs_run fs t fs'\<close> says
  that the replies in \<open>t\<close> are replies a file system can give that holds \<open>fs\<close> and is used by
  no one else, and that it holds \<open>fs'\<close> afterwards.  Any call may fail; a failed write may have
  written a part.
\<close>

type_synonym files = "string \<rightharpoonup> string"

definition file_event :: "event \<Rightarrow> bool" where
  "file_event e \<longleftrightarrow>
     (case e of
        EvDo a r \<Rightarrow> (case a of FileCreate f \<Rightarrow> True | FileWrite f s \<Rightarrow> True | WriteFile f s m \<Rightarrow> True | _ \<Rightarrow> False)
      | EvAsk q r \<Rightarrow> (case q of ReadFile f \<Rightarrow> True | _ \<Rightarrow> False)
      | _ \<Rightarrow> False)"

inductive fs_step :: "files \<Rightarrow> event \<Rightarrow> files \<Rightarrow> bool" where
  created: "fs_step fs (EvDo (FileCreate f) None) (fs(f \<mapsto> []))"
| not_created: "fs_step fs (EvDo (FileCreate f) (Some e)) fs"
| appended: "fs f = Some c \<Longrightarrow> fs_step fs (EvDo (FileWrite f s) None) (fs(f \<mapsto> c @ s))"
| not_appended: "fs f = Some c \<Longrightarrow> fs_step fs (EvDo (FileWrite f s) (Some e)) (fs(f \<mapsto> c @ take n s))"
| replaced: "fs_step fs (EvDo (WriteFile f s m) None) (fs(f \<mapsto> s))"
| not_replaced: "fs' = fs \<or> fs' = fs(f \<mapsto> take n s) \<Longrightarrow> fs_step fs (EvDo (WriteFile f s m) (Some e)) fs'"
| readable: "fs f = Some c \<Longrightarrow> fs_step fs (EvAsk (ReadFile f) (Inr c)) fs"
| not_readable: "fs_step fs (EvAsk (ReadFile f) (Inl e)) fs"
| other_event: "\<not> file_event e \<Longrightarrow> fs_step fs e fs"

inductive fs_run :: "files \<Rightarrow> event list \<Rightarrow> files \<Rightarrow> bool" where
  fs_done: "fs_run fs [] fs"
| fs_next: "fs_step fs e fs1 \<Longrightarrow> fs_run fs1 t fs2 \<Longrightarrow> fs_run fs (e # t) fs2"

inductive_simps fs_run_Nil [simp]: "fs_run fs [] fs'"
inductive_simps fs_run_Cons: "fs_run fs (e # t) fs'"

inductive_simps fs_step_calls:
  "fs_step fs (EvDo (FileCreate f) r) fs'"
  "fs_step fs (EvDo (FileWrite f s) r) fs'"
  "fs_step fs (EvDo (WriteFile f s m) r) fs'"
  "fs_step fs (EvAsk (ReadFile f) qr) fs'"

inductive_simps fs_step_any: "fs_step fs e fs'"

lemma fs_step_simps [simp]:
  "fs_step fs (EvDo (FileCreate f) None) fs' \<longleftrightarrow> fs' = fs(f \<mapsto> [])"
  "fs_step fs (EvDo (FileWrite f s) None) fs' \<longleftrightarrow> (\<exists>c. fs f = Some c \<and> fs' = fs(f \<mapsto> c @ s))"
  "fs_step fs (EvDo (WriteFile f s m) None) fs' \<longleftrightarrow> fs' = fs(f \<mapsto> s)"
  "fs_step fs (EvAsk (ReadFile f) (Inr c)) fs' \<longleftrightarrow> fs f = Some c \<and> fs' = fs"
  by (auto simp: fs_step_calls file_event_def)

lemma fs_step_other: "\<not> file_event e \<Longrightarrow> fs_step fs e fs' \<longleftrightarrow> fs' = fs"
  by (auto simp: file_event_def fs_step_any)

lemma fs_step_other_calls [simp]:
  "fs_step fs (EvDo (FileClose f) r) fs' \<longleftrightarrow> fs' = fs"
  "fs_step fs (EvAsk (EcdsaGenerateKey c) qr) fs' \<longleftrightarrow> fs' = fs"
  "fs_step fs (EvAsk (MarshalECPrivateKey k) qr) fs' \<longleftrightarrow> fs' = fs"
  "fs_step fs (EvAsk (ParseECPrivateKey b) qr) fs' \<longleftrightarrow> fs' = fs"
  "fs_step fs (EvAsk (X509CreateCertificate tm p pub k) qr) fs' \<longleftrightarrow> fs' = fs"
  "fs_step fs (EvAsk (X509CreateCertificateRequest n pub k) qr) fs' \<longleftrightarrow> fs' = fs"
  "fs_step fs (EvRandInt m ri) fs' \<longleftrightarrow> fs' = fs"
  "fs_step fs (EvParseCertificate b pc) fs' \<longleftrightarrow> fs' = fs"
  "fs_step fs (EvNow tm0) fs' \<longleftrightarrow> fs' = fs"
  by (rule fs_step_other; simp add: file_event_def)+

lemma fs_run_append:
  "fs_run fs (s @ t) fs' \<longleftrightarrow> (\<exists>fs1. fs_run fs s fs1 \<and> fs_run fs1 t fs')"
  by (induction s arbitrary: fs) (auto simp: fs_run_Cons)

lemma fs_run_append_elim:
  assumes "fs_run fs (s @ t) fs'"
  obtains fs1 where "fs_run fs s fs1" and "fs_run fs1 t fs'"
  using assms by (auto simp: fs_run_append)

end
