(* ===== verification/Pem_Decode.thy ===== *)
theory Pem_Decode
  imports Go_Pem "HOL-Library.Sublist"
begin

text \<open>
  \<^verbatim>\<open>pem.Decode\<close> of the Go library: it finds the next PEM block in its input and returns it with
  what follows, or nothing with the whole input.  The search restarts behind a block that is
  malformed, so the loop is a recursion on the length of what is left.  The headers of a block
  are only counted, no caller reads them.  The main result is the round trip: decoding what
  \<open>EncodeToMemory\<close> wrote, whatever follows it, gives back type and bytes and the rest.
\<close>

subsection \<open>Bytes\<close>

definition cr_char :: char where "cr_char = CHR 0x0D"
definition tab_char :: char where "tab_char = CHR 0x09"

definition is_blank :: "char \<Rightarrow> bool" where
  "is_blank c \<longleftrightarrow> c = CHR '' '' \<or> c = tab_char"

definition trim_right :: "string \<Rightarrow> string" where
  "trim_right s = rev (dropWhile is_blank (rev s))"

text \<open>\<^verbatim>\<open>bytes.Index\<close> and \<^verbatim>\<open>bytes.Cut\<close>.\<close>

fun bytes_Index :: "string \<Rightarrow> string \<Rightarrow> nat option" where
  "bytes_Index [] sep = (if sep = [] then Some 0 else None)"
| "bytes_Index (c # s) sep =
     (if prefix sep (c # s) then Some 0 else map_option Suc (bytes_Index s sep))"

definition bytes_Cut :: "string \<Rightarrow> string \<Rightarrow> (string \<times> string) option" where
  "bytes_Cut s sep = map_option (\<lambda>i. (take i s, drop (i + length sep) s)) (bytes_Index s sep)"

lemma bytes_Index_length: "bytes_Index s sep = Some i \<Longrightarrow> i + length sep \<le> length s"
  by (induction s arbitrary: i) (auto split: if_splits dest: prefix_length_le)

lemma bytes_Index_skip:
  assumes "b \<notin> set s" and "b \<noteq> a" and "sep = a # b # sep'"
  shows "bytes_Index (s @ sep @ r) sep = Some (length s)"
  using assms
proof (induction s)
  case (Cons c s)
  then have "\<not> prefix sep ((c # s) @ sep @ r)" by (cases s) auto
  with Cons show ?case by simp
qed simp

text \<open>The first line and the rest, without the line end and the blanks before it.\<close>

definition getLine :: "string \<Rightarrow> string \<times> string" where
  "getLine data =
     (let line = takeWhile (\<lambda>c. c \<noteq> newline_char) data;
          rest = drop (Suc (length line)) data;
          line' = (if length line < length data \<and> line \<noteq> [] \<and> last line = cr_char
                   then butlast line else line)
      in (trim_right line', rest))"

lemma getLine_shorter: "data \<noteq> [] \<Longrightarrow> length (snd (getLine data)) < length data"
  by (cases data) (auto simp: getLine_def Let_def)

lemma getLine_le: "length (snd (getLine data)) \<le> length data"
  by (simp add: getLine_def Let_def)

lemma takeWhile_line: "newline_char \<notin> set s \<Longrightarrow> takeWhile (\<lambda>c. c \<noteq> newline_char) (s @ newline_char # r) = s"
  by (induction s) auto

lemma getLine_newline:
  assumes "newline_char \<notin> set s" and "s = [] \<or> \<not> is_blank (last s) \<and> last s \<noteq> cr_char"
  shows "getLine (s @ newline_char # r) = (s, r)"
proof -
  have "takeWhile (\<lambda>c. c \<noteq> newline_char) (s @ newline_char # r) = s"
    using assms(1) by (rule takeWhile_line)
  moreover have "trim_right s = s"
    using assms(2) by (cases s rule: rev_cases) (auto simp: trim_right_def)
  ultimately show ?thesis using assms(2) by (auto simp: getLine_def Let_def)
qed

text \<open>The line of a text is part of what precedes the first line end.\<close>

lemma set_getLine: "set (fst (getLine data)) \<subseteq> set (takeWhile (\<lambda>c. c \<noteq> newline_char) data)"
  by (auto simp: getLine_def Let_def trim_right_def
      dest: set_dropWhileD [of _ is_blank "rev _", unfolded set_rev, THEN in_set_butlastD]
        set_dropWhileD [of _ is_blank "rev _", unfolded set_rev])

subsection \<open>Base64\<close>

text \<open>\<^verbatim>\<open>base64.StdEncoding.Decode\<close>: line ends are skipped, padding ends the input.\<close>

definition is_sextet :: "char \<Rightarrow> bool" where
  "is_sextet c \<longleftrightarrow> c \<in> set base64_alphabet"

fun decode_quanta :: "string \<Rightarrow> nat list option" where
  "decode_quanta [] = Some []"
| "decode_quanta (w # x # y # z # cs) =
     (let a = unsextet w * 4 + unsextet x div 16;
          b = unsextet x mod 16 * 16 + unsextet y div 4;
          c = unsextet y mod 4 * 64 + unsextet z
      in if \<not> (is_sextet w \<and> is_sextet x) then None
         else if y = CHR ''='' then (if z = CHR ''='' \<and> cs = [] then Some [a] else None)
         else if \<not> is_sextet y then None
         else if z = CHR ''='' then (if cs = [] then Some [a, b] else None)
         else if \<not> is_sextet z then None
         else map_option (\<lambda>bs. a # b # c # bs) (decode_quanta cs))"
| "decode_quanta _ = None"

definition std_Decode :: "string \<Rightarrow> string option" where
  "std_Decode s =
     map_option (map char_of) (decode_quanta (filter (\<lambda>c. c \<noteq> newline_char \<and> c \<noteq> cr_char) s))"

lemma is_sextet_sextet [simp]: "is_sextet (sextet n)"
  by (simp add: is_sextet_def sextet_in)

lemma decode_quanta_base64: "list_all (\<lambda>b. b < 256) bs \<Longrightarrow> decode_quanta (base64 bs) = Some bs"
proof (induction bs rule: base64.induct)
  case (2 a)
  then show ?case using bytes_of_sextets(1) [of a 0 0] by (simp add: Let_def)
next
  case (3 a b)
  then have "a < 256" "b < 256" "(0::nat) < 256" by simp_all
  note two = bytes_of_sextets [OF this, unfolded div_0 add_0_right]
  show ?case
    by (simp only: base64.simps decode_quanta.simps Let_def unsextet_sextet sextet_no_pad if_False
        is_sextet_sextet two) simp
next
  case (4 a b c bs)
  then show ?case using bytes_of_sextets [of a b c] by (simp add: Let_def)
qed simp

subsection \<open>Blocks\<close>

record pem_block =
  Block_Type :: string
  Block_Bytes :: string

definition pemStart :: string where "pemStart = newline_char # ''-----BEGIN ''"
definition pemEnd :: string where "pemEnd = newline_char # ''-----END ''"
definition pemEndOfLine :: string where "pemEndOfLine = ''-----''"

text \<open>Behind the next begin marker.\<close>

definition skip_begin :: "string \<Rightarrow> string option" where
  "skip_begin rest =
     (if prefix (tl pemStart) rest then Some (drop (length pemStart - 1) rest)
      else map_option snd (bytes_Cut rest pemStart))"

lemma skip_begin_shorter: "skip_begin rest = Some rest' \<Longrightarrow> length rest' < length rest"
  by (auto simp: skip_begin_def bytes_Cut_def pemStart_def dest!: bytes_Index_length
      dest: prefix_length_le split: if_splits)

text \<open>Behind the headers, and whether there were any; \<^term>\<open>None\<close> at the end of the input.\<close>

function skip_headers :: "bool \<Rightarrow> string \<Rightarrow> (bool \<times> string) option" where
  "skip_headers h rest =
     (if rest = [] then None
      else if CHR '':'' \<in> set (fst (getLine rest)) then skip_headers True (snd (getLine rest))
      else Some (h, rest))"
  by pat_completeness auto
termination by (relation "measure (length \<circ> snd)") (auto intro: getLine_shorter)

declare skip_headers.simps [simp del]

lemma skip_headers_le: "skip_headers h rest = Some (h', rest') \<Longrightarrow> length rest' \<le> length rest"
proof (induction h rest rule: skip_headers.induct)
  case (1 h rest)
  then show ?case
    using getLine_le [of rest] by (auto simp: skip_headers.simps [of h rest] split: if_splits)
qed

text \<open>The end marker with the type, and the bytes before it; \<^term>\<open>None\<close> is \<^verbatim>\<open>continue\<close>.\<close>

definition find_end :: "bool \<Rightarrow> string \<Rightarrow> (nat \<times> nat) option" where
  "find_end h rest =
     (if \<not> h \<and> prefix (tl pemEnd) rest then Some (0, length pemEnd - 1)
      else map_option (\<lambda>i. (i, i + length pemEnd)) (bytes_Index rest pemEnd))"

definition decode_body :: "string \<Rightarrow> bool \<Rightarrow> string \<Rightarrow> (string \<times> string) option" where
  "decode_body typ h rest =
     (case find_end h rest of None \<Rightarrow> None | Some (endIndex, endTrailerIndex) \<Rightarrow>
      let endTrailer = drop endTrailerIndex rest;
          endTrailerLen = length typ + length pemEndOfLine
      in if length endTrailer < endTrailerLen then None
         else if \<not> prefix typ (take endTrailerLen endTrailer) \<or>
                 \<not> suffix pemEndOfLine (take endTrailerLen endTrailer) then None
         else if fst (getLine (drop endTrailerLen endTrailer)) \<noteq> [] then None
         else map_option
           (\<lambda>bs. (bs, snd (getLine (drop (endIndex + length pemEnd - 1) rest))))
           (std_Decode (filter (\<lambda>c. \<not> is_blank c) (take endIndex rest))))"

lemma decode_body_le: "decode_body typ h rest = Some (bs, rest') \<Longrightarrow> length rest' \<le> length rest"
  by (auto simp: decode_body_def Let_def intro!: order_trans [OF getLine_le]
      split: option.splits if_splits)

function decode_from :: "string \<Rightarrow> (pem_block \<times> string) option" where
  "decode_from rest =
     (case skip_begin rest of None \<Rightarrow> None | Some rest1 \<Rightarrow>
      case getLine rest1 of (typeLine, rest2) \<Rightarrow>
      if \<not> suffix pemEndOfLine typeLine then decode_from rest2
      else
        let typ = take (length typeLine - length pemEndOfLine) typeLine in
        case skip_headers False rest2 of None \<Rightarrow> None | Some (h, rest3) \<Rightarrow>
        case decode_body typ h rest3 of
          None \<Rightarrow> decode_from rest3
        | Some (bs, rest4) \<Rightarrow> Some (\<lparr>Block_Type = typ, Block_Bytes = bs\<rparr>, rest4))"
  by pat_completeness auto
termination
proof (relation "measure length", goal_cases)
  case 1
  show ?case by simp
next
  case (2 rest rest1 typeLine rest2)
  then have "snd (getLine rest1) = rest2" by (metis snd_conv)
  with 2 show ?case using skip_begin_shorter [of rest rest1] getLine_le [of rest1] by simp
next
  case (3 rest rest1 typeLine rest2 ty hr h rest3)
  then have "snd (getLine rest1) = rest2" by (metis snd_conv)
  with 3 show ?case
    using skip_begin_shorter [of rest rest1] getLine_le [of rest1]
      skip_headers_le [of False rest2 h rest3] by simp
qed

declare decode_from.simps [simp del]

definition Decode :: "string \<Rightarrow> pem_block option \<times> string" where
  "Decode data = (case decode_from data of None \<Rightarrow> (None, data) | Some (b, rest) \<Rightarrow> (Some b, rest))"

text \<open>A block that is found uses up input.\<close>

lemma decode_from_shorter: "decode_from rest = Some (b, rest') \<Longrightarrow> length rest' < length rest"
proof (induction rest rule: decode_from.induct)
  case (1 rest)
  then obtain rest1 where rest1: "skip_begin rest = Some rest1"
    by (auto simp: decode_from.simps [of rest] split: option.splits)
  obtain typeLine rest2 where rest2: "getLine rest1 = (typeLine, rest2)" by fastforce
  have small: "length rest2 < length rest"
    using skip_begin_shorter [OF rest1] getLine_le [of rest1] rest2 by simp
  show ?case
  proof (cases "suffix pemEndOfLine typeLine")
    case False
    with 1(3) rest1 rest2 have "decode_from rest2 = Some (b, rest')"
      by (simp add: decode_from.simps [of rest])
    with 1(1) rest1 rest2 False small show ?thesis by (metis less_trans)
  next
    case True
    with 1(3) rest1 rest2 obtain h rest3 where rest3: "skip_headers False rest2 = Some (h, rest3)"
      by (auto simp: decode_from.simps [of rest] Let_def split: option.splits)
    let ?ty = "take (length typeLine - length pemEndOfLine) typeLine"
    have le: "length rest3 < length rest" using skip_headers_le [OF rest3] small by simp
    show ?thesis
    proof (cases "decode_body ?ty h rest3")
      case None
      with 1(3) rest1 rest2 rest3 True have "decode_from rest3 = Some (b, rest')"
        by (simp add: decode_from.simps [of rest])
      with 1(2) [OF rest1 rest2 [symmetric]] rest3 True None le show ?thesis
        by (metis less_trans)
    next
      case (Some r)
      with 1(3) rest1 rest2 rest3 True have "decode_body ?ty h rest3 = Some (Block_Bytes b, rest')"
        by (auto simp: decode_from.simps [of rest] split: prod.splits)
      with le show ?thesis using decode_body_le by fastforce
    qed
  qed
qed

lemma Decode_shorter: "Decode data = (Some b, rest) \<Longrightarrow> length rest < length data"
  by (auto simp: Decode_def decode_from_shorter split: option.splits)

subsection \<open>Decoding an encoded block\<close>

text \<open>The base64 text uses characters that end no line, mark no header and start no end marker.\<close>

lemma base64_chars: "set (base64 bs) \<subseteq> insert (CHR ''='') (set base64_alphabet)"
  by (induction bs rule: base64.induct) (use sextet_in in auto)

lemma base64_clean:
  "CHR '':'' \<notin> set (base64 bs)" "CHR ''-'' \<notin> set (base64 bs)" "cr_char \<notin> set (base64 bs)"
  "CHR '' '' \<notin> set (base64 bs)" "tab_char \<notin> set (base64 bs)"
  using base64_chars [of bs] by (auto simp: base64_alphabet_def cr_char_def tab_char_def)

lemma set_break_lines: "set (break_lines cs) \<subseteq> insert newline_char (set cs)"
proof (induction cs rule: break_lines.induct)
  case (1 cs)
  then show ?case
    by (subst break_lines.simps) (auto dest: in_set_takeD in_set_dropD)
qed

lemma break_lines_last: "cs \<noteq> [] \<Longrightarrow> \<exists>ls. break_lines cs = ls @ [newline_char]"
proof (induction cs rule: break_lines.induct)
  case (1 cs)
  then show ?case
    by (cases "drop 64 cs = []") (subst (asm) (2) break_lines.simps | subst break_lines.simps, auto)+
qed

text \<open>The types that survive: no line end, and no colon, which would make the end marker of an
  empty block a header.\<close>

definition plain_type :: "string \<Rightarrow> bool" where
  "plain_type typ \<longleftrightarrow> newline_char \<notin> set typ \<and> CHR '':'' \<notin> set typ"

lemma skip_headers_none:
  assumes "rest \<noteq> []" and "CHR '':'' \<notin> set (takeWhile (\<lambda>c. c \<noteq> newline_char) rest)"
  shows "skip_headers h rest = Some (h, rest)"
  using assms set_getLine [of rest] by (subst skip_headers.simps) auto

lemma pemEndOfLine_clean:
  "newline_char \<notin> set pemEndOfLine" "pemEndOfLine \<noteq> []" "last pemEndOfLine = CHR ''-''"
  by (simp_all add: pemEndOfLine_def newline_char_def)

lemma dash_ends_line: "\<not> is_blank (CHR ''-'')" "CHR ''-'' \<noteq> cr_char"
  by (simp_all add: is_blank_def tab_char_def cr_char_def)

lemma getLine_type:
  assumes "plain_type typ"
  shows "getLine (typ @ pemEndOfLine @ newline_char # r) = (typ @ pemEndOfLine, r)"
proof -
  have "newline_char \<notin> set (typ @ pemEndOfLine)"
    using assms pemEndOfLine_clean(1) by (simp add: plain_type_def)
  moreover have "last (typ @ pemEndOfLine) = CHR ''-''" using pemEndOfLine_clean by simp
  ultimately show ?thesis using getLine_newline [of "typ @ pemEndOfLine" r] dash_ends_line by simp
qed

text \<open>The body of a block, up to and with the end marker.\<close>

lemma decode_body_at:
  assumes "find_end h rest = Some (i, j)" and "drop j rest = typ @ pemEndOfLine @ newline_char # r"
    and "getLine (drop (i + length pemEnd - 1) rest) = (x, r)"
    and "std_Decode (filter (\<lambda>c. \<not> is_blank c) (take i rest)) = Some bs"
  shows "decode_body typ h rest = Some (bs, r)"
proof -
  have "length (drop j rest) = length typ + length pemEndOfLine + Suc (length r)"
    by (simp add: assms(2))
  then have "\<not> length (drop j rest) < length typ + length pemEndOfLine" by simp
  with assms(1,3,4) getLine_newline [of "[]" r] show ?thesis
    by (simp add: decode_body_def Let_def suffix_def assms(2) del: length_drop)
qed

lemma decode_body_encoded:
  fixes bytes :: string
  assumes plain: "plain_type typ"
  defines "enc \<equiv> base64 (map of_char bytes)"
  shows "decode_body typ False (break_lines enc @ pem_end typ @ r) = Some (bytes, r)"
proof -
  have clean: "newline_char \<notin> set enc" "cr_char \<notin> set enc" "CHR ''-'' \<notin> set enc"
      "CHR '' '' \<notin> set enc" "tab_char \<notin> set enc"
    using base64_no_newline base64_clean unfolding enc_def by blast+
  have dec: "decode_quanta enc = Some (map of_char bytes)"
    unfolding enc_def by (rule decode_quanta_base64) (simp add: list_all_iff)
  have map_id: "map char_of (map of_char bytes :: nat list) = bytes" by (simp add: comp_def)
  show ?thesis
  proof (cases "enc = []")
    case True
    let ?rest = "pem_end typ @ r"
    have rest: "?rest = ''-----END '' @ typ @ pemEndOfLine @ newline_char # r"
      by (simp add: pem_end_def pemEndOfLine_def)
    have "decode_body typ False ?rest = Some ([], r)"
    proof (rule decode_body_at)
      show "find_end False ?rest = Some (0, 9)" by (simp add: find_end_def rest pemEnd_def)
      show "drop 9 ?rest = typ @ pemEndOfLine @ newline_char # r" by (simp add: rest)
      show "getLine (drop (0 + length pemEnd - 1) ?rest) = (typ @ pemEndOfLine, r)"
        using getLine_type [OF plain, of r] by (simp add: rest pemEnd_def)
      show "std_Decode (filter (\<lambda>c. \<not> is_blank c) (take 0 ?rest)) = Some []"
        by (simp add: std_Decode_def)
    qed
    moreover from True dec have "bytes = []" by simp
    ultimately show ?thesis by (simp add: True)
  next
    case False
    then obtain ls where ls: "break_lines enc = ls @ [newline_char]" using break_lines_last by blast
    have ls_set: "set ls \<subseteq> insert newline_char (set enc)"
      using set_break_lines [of enc] ls by auto
    have "filter (\<lambda>c. c \<noteq> newline_char) (ls @ [newline_char]) = enc"
      using unbreak_lines [OF clean(1)] ls by simp
    then have ls_enc: "filter (\<lambda>c. c \<noteq> newline_char) ls = enc" by simp
    have blanks: "filter (\<lambda>c. \<not> is_blank c) ls = ls"
      using ls_set clean by (auto simp: filter_id_conv is_blank_def newline_char_def tab_char_def)
    have crs: "filter (\<lambda>c. c \<noteq> newline_char \<and> c \<noteq> cr_char) ls = enc"
      unfolding ls_enc [symmetric]
      by (rule filter_cong [OF refl]) (use ls_set clean in \<open>auto simp: newline_char_def cr_char_def\<close>)
    let ?r = "typ @ pemEndOfLine @ newline_char # r"
    let ?rest = "ls @ pemEnd @ ?r"
    have split_text: "break_lines enc @ pem_end typ @ r = ?rest"
      by (simp add: ls pem_end_def pemEnd_def pemEndOfLine_def)
    have dash: "CHR ''-'' \<notin> set ls" using ls_set clean by (auto simp: newline_char_def)
    have "ls \<noteq> []" using ls_enc False by auto
    then have "\<not> prefix (tl pemEnd) ?rest"
      using dash by (cases ls) (auto simp: pemEnd_def)
    moreover have "bytes_Index ?rest pemEnd = Some (length ls)"
      by (rule bytes_Index_skip [OF dash, where a = newline_char]) (simp_all add: pemEnd_def newline_char_def)
    ultimately have found: "find_end False ?rest = Some (length ls, length ls + length pemEnd)"
      by (simp add: find_end_def)
    have end_line: "drop (length ls + length pemEnd - 1) ?rest = ('' '' @ typ) @ pemEndOfLine @ newline_char # r"
      by (simp add: pemEnd_def)
    have "plain_type ('' '' @ typ)" using plain by (simp add: plain_type_def newline_char_def)
    then have "getLine (drop (length ls + length pemEnd - 1) ?rest) = (('' '' @ typ) @ pemEndOfLine, r)"
      unfolding end_line by (rule getLine_type)
    moreover have "std_Decode (filter (\<lambda>c. \<not> is_blank c) (take (length ls) ?rest)) = Some bytes"
      by (simp add: blanks std_Decode_def crs dec map_id)
    ultimately show ?thesis
      unfolding split_text by (intro decode_body_at [OF found]) simp_all
  qed
qed

theorem Decode_EncodeToMemory:
  assumes "plain_type typ"
  shows "Decode (EncodeToMemory typ bytes @ r) = (Some \<lparr>Block_Type = typ, Block_Bytes = bytes\<rparr>, r)"
proof -
  let ?enc = "base64 (map of_char bytes)"
  let ?body = "break_lines ?enc @ pem_end typ @ r"
  have "skip_begin (EncodeToMemory typ bytes @ r) = Some (typ @ pemEndOfLine @ newline_char # ?body)"
    by (simp add: skip_begin_def EncodeToMemory_def pem_begin_def pemStart_def pemEndOfLine_def)
  moreover note getLine_type [OF assms, of ?body]
  moreover have "CHR '':'' \<notin> set (takeWhile (\<lambda>c. c \<noteq> newline_char) ?body)"
  proof (cases "?enc = []")
    case True
    let ?line = "''-----END '' @ typ @ ''-----''"
    have line: "newline_char \<notin> set ?line" "CHR '':'' \<notin> set ?line"
      using assms by (simp_all add: plain_type_def newline_char_def)
    have body: "?body = ?line @ newline_char # r" by (simp add: True pem_end_def)
    show ?thesis unfolding body takeWhile_line [OF line(1)] by (rule line(2))
  next
    case False
    then obtain ls where ls: "break_lines ?enc = ls @ [newline_char]"
      using break_lines_last by blast
    then have "CHR '':'' \<notin> set ls"
      using set_break_lines [of ?enc] base64_clean(1) by (auto simp: newline_char_def)
    then show ?thesis by (auto simp: ls takeWhile_append dest: set_takeWhileD)
  qed
  then have "skip_headers False ?body = Some (False, ?body)"
    by (intro skip_headers_none) (simp_all add: pem_end_def)
  ultimately show ?thesis
    using decode_body_encoded [OF assms, of bytes r]
    by (simp add: Decode_def decode_from.simps [of "EncodeToMemory typ bytes @ r"] suffix_def)
qed

subsection \<open>All blocks of a text\<close>

text \<open>The loop around \<^verbatim>\<open>pem.Decode\<close> that \<^verbatim>\<open>tls.LoadX509KeyPair\<close> and \<^verbatim>\<open>AppendCertsFromPEM\<close> run.\<close>

function pem_blocks :: "string \<Rightarrow> pem_block list" where
  "pem_blocks data = (case Decode data of (None, rest) \<Rightarrow> [] | (Some b, rest) \<Rightarrow> b # pem_blocks rest)"
  by pat_completeness auto
termination by (relation "measure length") (auto intro: Decode_shorter [OF sym])

declare pem_blocks.simps [simp del]

lemma pem_blocks_Nil [simp]: "pem_blocks [] = []"
  by (simp add: pem_blocks.simps [of "[]"] Decode_def decode_from.simps [of "[]"] skip_begin_def
      pemStart_def bytes_Cut_def)

lemma pem_blocks_Encode [simp]:
  "plain_type typ \<Longrightarrow> pem_blocks (EncodeToMemory typ bytes @ r) =
     \<lparr>Block_Type = typ, Block_Bytes = bytes\<rparr> # pem_blocks r"
  by (simp add: pem_blocks.simps [of "EncodeToMemory typ bytes @ r"] Decode_EncodeToMemory)

lemma pem_blocks_one [simp]:
  "plain_type typ \<Longrightarrow> pem_blocks (EncodeToMemory typ bytes) = [\<lparr>Block_Type = typ, Block_Bytes = bytes\<rparr>]"
  using pem_blocks_Encode [where r = "[]"] by simp

end
