(* ===== verification/Mtls_Certs.thy ===== *)
theory Mtls_Certs
  imports File_Store Pem_Decode
begin

text \<open>
  The certificate generator mtls-demo (main.go, root_ca.go, intermediate-ca.go, server.go,
  client.go, util.go): a root CA, an intermediate CA signed by it, a server and a client
  certificate signed by the intermediate CA, and the two chain files, all in ./artifacts.
\<close>

subsection \<open>util.go\<close>

definition serialNumberLimit :: int where
  "serialNumberLimit = push_bit 128 1"

definition generateSerialNumber :: "(go_error + int) prog" where
  "generateSerialNumber =
     RandInt serialNumberLimit (\<lambda>serialNumber.
     case serialNumber of Inl err \<Rightarrow> Ret (Inl err) | Inr n \<Rightarrow> Ret (Inr n))"

definition parsePemCert :: "string \<Rightarrow> (go_error + x509_cert) prog" where
  "parsePemCert file =
     Ask (ReadFile file) (\<lambda>certPem.
     case certPem of Inl _ \<Rightarrow> Exit 1 | Inr certPem \<Rightarrow>
     case fst (Decode certPem) of None \<Rightarrow> Exit 1 | Some blk \<Rightarrow>
     ParseCertificate (Block_Bytes blk) Ret)"

definition parseECKey :: "string \<Rightarrow> (go_error + private_key) prog" where
  "parseECKey file =
     Ask (ReadFile file) (\<lambda>keyPem.
     case keyPem of Inl _ \<Rightarrow> Exit 1 | Inr keyPem \<Rightarrow>
     case fst (Decode keyPem) of None \<Rightarrow> Exit 1 | Some blk \<Rightarrow>
     Ask (ParseECPrivateKey (Block_Bytes blk)) Ret)"

text \<open>The deferred closure of the three writers: a failed close ends the process.\<close>

definition close_file :: "string \<Rightarrow> 'a prog \<Rightarrow> 'a prog" where
  "close_file filename ret =
     Do (FileClose filename) (\<lambda>err. case err of Some _ \<Rightarrow> Exit 1 | None \<Rightarrow> ret)"

definition pem_Encode :: "string \<Rightarrow> string \<Rightarrow> string \<Rightarrow> (go_error option) prog" where
  "pem_Encode filename blockType bytes = Do (FileWrite filename (EncodeToMemory blockType bytes)) Ret"

definition certToFile :: "string \<Rightarrow> string \<Rightarrow> (go_error option) prog" where
  "certToFile cert filename =
     Do (FileCreate filename) (\<lambda>err.
     case err of Some _ \<Rightarrow> Exit 1 | None \<Rightarrow>
     deferred (close_file filename) (pem_Encode filename ''CERTIFICATE'' cert))"

definition KeyToFile :: "any_key \<Rightarrow> string \<Rightarrow> (go_error option) prog" where
  "KeyToFile key filename =
     Do (FileCreate filename) (\<lambda>err.
     case err of Some _ \<Rightarrow> Exit 1 | None \<Rightarrow>
     deferred (close_file filename)
      (case key of
         EcdsaKey k \<Rightarrow>
           Ask (MarshalECPrivateKey k) (\<lambda>keyBytes.
           case keyBytes of Inl _ \<Rightarrow> Exit 1 | Inr keyBytes \<Rightarrow>
           pem_Encode filename ''EC PRIVATE KEY'' keyBytes)
       | OtherKey \<Rightarrow> Ret (Some (PlainError ''unsupported key type''))))"

definition csrToFile :: "string \<Rightarrow> string \<Rightarrow> (go_error option) prog" where
  "csrToFile csr filename =
     Do (FileCreate filename) (\<lambda>err.
     case err of Some _ \<Rightarrow> Exit 1 | None \<Rightarrow>
     deferred (close_file filename) (pem_Encode filename ''CERTIFICATE REQUEST'' csr))"

text \<open>The loop over the intermediate certificates: \<^verbatim>\<open>certChain\<close> is assigned anew in each round.\<close>

fun append_interm :: "string \<Rightarrow> string \<Rightarrow> string list \<Rightarrow> (string \<Rightarrow> (go_error option) prog) \<Rightarrow> (go_error option) prog" where
  "append_interm serverCertPEM certChain [] k = k certChain"
| "append_interm serverCertPEM certChain (intermCert # intermCerts) k =
     Ask (ReadFile intermCert) (\<lambda>intermCert.
     case intermCert of Inl _ \<Rightarrow> Exit 1 | Inr intermCert \<Rightarrow>
     append_interm serverCertPEM (serverCertPEM @ intermCert) intermCerts k)"

definition write_chain :: "string \<Rightarrow> string \<Rightarrow> (go_error option) prog" where
  "write_chain file certChain =
     Do (WriteFile file certChain 384) (\<lambda>err.
     case err of Some _ \<Rightarrow> Exit 1 | None \<Rightarrow> Ret None)"

definition buildServerCertChain :: "string \<Rightarrow> string list \<Rightarrow> (go_error option) prog" where
  "buildServerCertChain serverCert intermCerts =
     Ask (ReadFile serverCert) (\<lambda>serverCertPEM.
     case serverCertPEM of Inl _ \<Rightarrow> Exit 1 | Inr serverCertPEM \<Rightarrow>
     append_interm serverCertPEM [] intermCerts (write_chain ''./artifacts/server-chain.pem''))"

definition buildClientCertChain :: "string \<Rightarrow> string list \<Rightarrow> (go_error option) prog" where
  "buildClientCertChain clientCert intermCerts =
     Ask (ReadFile clientCert) (\<lambda>serverCertPEM.
     case serverCertPEM of Inl _ \<Rightarrow> Exit 1 | Inr serverCertPEM \<Rightarrow>
     append_interm serverCertPEM [] intermCerts (write_chain ''./artifacts/client-chain.pem''))"

subsection \<open>Failing calls\<close>

text \<open>\<^verbatim>\<open>if err != nil { log.Fatalf(...) }\<close> after a call that returns a value or an error, and after
  one that returns an error only.\<close>

definition fatal_or :: "('a \<Rightarrow> 'b prog) \<Rightarrow> go_error + 'a \<Rightarrow> 'b prog" where
  "fatal_or k r = (case r of Inl _ \<Rightarrow> Exit 1 | Inr x \<Rightarrow> k x)"

definition fatal_if :: "'b prog \<Rightarrow> go_error option \<Rightarrow> 'b prog" where
  "fatal_if k err = (case err of Some _ \<Rightarrow> Exit 1 | None \<Rightarrow> k)"

definition panic_or :: "('a \<Rightarrow> 'b prog) \<Rightarrow> go_error + 'a \<Rightarrow> 'b prog" where
  "panic_or k r = (case r of Inl _ \<Rightarrow> Panic | Inr x \<Rightarrow> k x)"

subsection \<open>root_ca.go\<close>

definition pkix_sh :: "string \<Rightarrow> string \<Rightarrow> string \<Rightarrow> pkix_name" where
  "pkix_sh org unit cn =
     \<lparr>Country = [''CN''], Province = [''SH''], Organization = [org], OrganizationalUnit = [unit],
      CommonName = cn\<rparr>"

definition ca_template :: "int \<Rightarrow> go_time \<Rightarrow> go_time \<Rightarrow> x509_cert" where
  "ca_template serialNumber now now' =
     \<lparr>SerialNumber = serialNumber,
      X_Subject = pkix_sh ''sip.com'' ''ca'' ''ca.sip.com'',
      DNSNames = [], IPAddresses = [],
      NotBefore = now, NotAfter = AddDate now' 10,
      X_KeyUsage = KeyUsageCertSign OR KeyUsageCRLSign, X_ExtKeyUsage = [],
      BasicConstraintsValid = True, IsCA = True,
      AuthorityKeyId = ''Private CA'', X_PublicKey = None\<rparr>"

definition genCA :: "unit prog" where
  "genCA =
     Ask (EcdsaGenerateKey ''P-256'') (fatal_or (\<lambda>priv.
     bind generateSerialNumber (fatal_or (\<lambda>serialNumber.
     Now (\<lambda>now. Now (\<lambda>now'.
     let template = ca_template serialNumber now now' in
     Ask (X509CreateCertificate template template (Public priv) priv) (fatal_or (\<lambda>cert.
     bind (certToFile cert ''./artifacts/ca.pem'') (fatal_if
     (bind (KeyToFile (EcdsaKey priv) ''./artifacts/ca-key.pem'') (fatal_if
     (Ret ()))))))))))))"

subsection \<open>intermediate-ca.go\<close>

definition interm_template :: "int \<Rightarrow> go_time \<Rightarrow> go_time \<Rightarrow> x509_cert" where
  "interm_template serialNumber now now' =
     \<lparr>SerialNumber = serialNumber,
      X_Subject = pkix_sh ''intermediate.com'' ''ca'' ''ca.intermediate.com'',
      DNSNames = [], IPAddresses = [],
      NotBefore = now, NotAfter = AddDate now' 5,
      X_KeyUsage = KeyUsageCertSign OR KeyUsageCRLSign, X_ExtKeyUsage = [],
      BasicConstraintsValid = True, IsCA = True,
      AuthorityKeyId = [], X_PublicKey = None\<rparr>"

definition genIntermCSRandCert :: "unit prog" where
  "genIntermCSRandCert =
     Ask (EcdsaGenerateKey ''P-256'') (fatal_or (\<lambda>intermPriv.
     bind generateSerialNumber (fatal_or (\<lambda>serialNumber.
     Now (\<lambda>now. Now (\<lambda>now'.
     let template = interm_template serialNumber now now' in
     bind (parsePemCert ''./artifacts/ca.pem'') (fatal_or (\<lambda>caCert.
     bind (parseECKey ''./artifacts/ca-key.pem'') (fatal_or (\<lambda>caKey.
     Ask (X509CreateCertificateRequest (X_Subject template) (Public intermPriv) intermPriv)
      (fatal_or (\<lambda>intermediateCSR.
     bind (csrToFile intermediateCSR ''./artifacts/intermediate.csr'') (fatal_if
     (Ask (X509CreateCertificate template caCert (Public intermPriv) caKey) (panic_or (\<lambda>cert.
     bind (certToFile cert ''./artifacts/intermediate.pem'') (fatal_if
     (bind (KeyToFile (EcdsaKey intermPriv) ''./artifacts/intermediate-key.pem'') (fatal_if
     (Ret ()))))))))))))))))))))"

subsection \<open>server.go and client.go\<close>

definition server_template :: "int \<Rightarrow> go_time \<Rightarrow> go_time \<Rightarrow> x509_cert" where
  "server_template serialNumber now now' =
     \<lparr>SerialNumber = serialNumber,
      X_Subject = pkix_sh ''server.com'' ''test'' ''test.server.com'',
      DNSNames = [''test.server.com'', ''localhost'', ''service-provider''],
      IPAddresses = [net_IPv4 192 168 60 10, net_IPv4 127 0 0 1, net_IPv6loopback],
      NotBefore = now, NotAfter = AddDate now' 1,
      X_KeyUsage = KeyUsageDigitalSignature, X_ExtKeyUsage = [ExtKeyUsageServerAuth],
      BasicConstraintsValid = False, IsCA = False,
      AuthorityKeyId = [], X_PublicKey = None\<rparr>"

definition genServerCert :: "unit prog" where
  "genServerCert =
     Ask (EcdsaGenerateKey ''P-256'') (fatal_or (\<lambda>serverPriv.
     bind generateSerialNumber (fatal_or (\<lambda>serialNumber.
     Now (\<lambda>now. Now (\<lambda>now'.
     let template = server_template serialNumber now now' in
     Ask (X509CreateCertificateRequest (X_Subject template) (Public serverPriv) serverPriv)
      (fatal_or (\<lambda>serverCSR.
     bind (csrToFile serverCSR ''./artifacts/server.csr'') (fatal_if
     (bind (parsePemCert ''./artifacts/intermediate.pem'') (fatal_or (\<lambda>caCert.
     bind (parseECKey ''./artifacts/intermediate-key.pem'') (fatal_or (\<lambda>caKey.
     Ask (X509CreateCertificate template caCert (Public serverPriv) caKey) (panic_or (\<lambda>serverCert.
     bind (certToFile serverCert ''./artifacts/server.pem'') (fatal_if
     (bind (KeyToFile (EcdsaKey serverPriv) ''./artifacts/server-key.pem'') (fatal_if
     (Ret ()))))))))))))))))))))"

definition client_template :: "int \<Rightarrow> go_time \<Rightarrow> go_time \<Rightarrow> x509_cert" where
  "client_template serialNumber now now' =
     \<lparr>SerialNumber = serialNumber,
      X_Subject = pkix_sh ''client.com'' ''test'' ''test.client.com'',
      DNSNames = [''test.client.com'', ''localhost'', ''service-consumer''],
      IPAddresses = [net_IPv4 192 168 60 20, net_IPv4 127 0 0 1, net_IPv6loopback],
      NotBefore = now, NotAfter = AddDate now' 1,
      X_KeyUsage = KeyUsageDigitalSignature, X_ExtKeyUsage = [ExtKeyUsageClientAuth],
      BasicConstraintsValid = False, IsCA = False,
      AuthorityKeyId = [], X_PublicKey = None\<rparr>"

definition genClientCert :: "unit prog" where
  "genClientCert =
     Ask (EcdsaGenerateKey ''P-256'') (fatal_or (\<lambda>clientPriv.
     bind generateSerialNumber (fatal_or (\<lambda>serialNumber.
     Now (\<lambda>now. Now (\<lambda>now'.
     let template = client_template serialNumber now now' in
     Ask (X509CreateCertificateRequest (X_Subject template) (Public clientPriv) clientPriv)
      (fatal_or (\<lambda>clientCSR.
     bind (csrToFile clientCSR ''./artifacts/client.csr'') (fatal_if
     (bind (parsePemCert ''./artifacts/intermediate.pem'') (fatal_or (\<lambda>caCert.
     bind (parseECKey ''./artifacts/intermediate-key.pem'') (fatal_or (\<lambda>caKey.
     Ask (X509CreateCertificate template caCert (Public clientPriv) caKey) (panic_or (\<lambda>clientCert.
     bind (certToFile clientCert ''./artifacts/client.pem'') (fatal_if
     (bind (KeyToFile (EcdsaKey clientPriv) ''./artifacts/client-key.pem'') (fatal_if
     (Ret ()))))))))))))))))))))"

subsection \<open>main.go\<close>

definition mtls_main :: "unit prog" where
  "mtls_main =
     bind genCA (\<lambda>_.
     bind genIntermCSRandCert (\<lambda>_.
     bind genServerCert (\<lambda>_.
     bind (buildServerCertChain ''./artifacts/server.pem'' [''./artifacts/intermediate.pem'']) (\<lambda>err.
     case err of Some _ \<Rightarrow> Ret () | None \<Rightarrow>
     bind genClientCert (\<lambda>_.
     bind (buildClientCertChain ''./artifacts/client.pem'' [''./artifacts/intermediate.pem'']) (\<lambda>err.
     case err of Some _ \<Rightarrow> Ret () | None \<Rightarrow> Ret ()))))))"

end
