(* ===== verification/Mtls_Chain.thy ===== *)
theory Mtls_Chain
  imports Mtls_Certs
begin

text \<open>
  What the certificate generator of mtls-demo makes: the signatures form the chain root,
  intermediate, leaf; the files hold them; validity periods are nested; serial numbers are in
  range; and the first failing call ends the program.
\<close>

subsection \<open>What a run did\<close>

definition signature_of :: "event \<Rightarrow> (x509_cert \<times> x509_cert \<times> public_key \<times> private_key \<times> string) option" where
  "signature_of e =
     (case e of EvAsk q r \<Rightarrow>
        (case q of X509CreateCertificate tm p pub k \<Rightarrow>
           (case r of Inl _ \<Rightarrow> None | Inr der \<Rightarrow> Some (tm, p, pub, k, der))
         | _ \<Rightarrow> None)
      | _ \<Rightarrow> None)"

definition key_bytes_of :: "event \<Rightarrow> (private_key \<times> string) option" where
  "key_bytes_of e =
     (case e of EvAsk q r \<Rightarrow>
        (case q of MarshalECPrivateKey k \<Rightarrow> (case r of Inl _ \<Rightarrow> None | Inr b \<Rightarrow> Some (k, b)) | _ \<Rightarrow> None)
      | _ \<Rightarrow> None)"

definition clock_of :: "event \<Rightarrow> go_time option" where
  "clock_of e = (case e of EvNow a \<Rightarrow> Some a | _ \<Rightarrow> None)"

definition serial_of :: "event \<Rightarrow> int option" where
  "serial_of e = (case e of EvRandInt m r \<Rightarrow> (case r of Inl _ \<Rightarrow> None | Inr n \<Rightarrow> Some n) | _ \<Rightarrow> None)"

abbreviation "signatures t \<equiv> List.map_filter signature_of t"
abbreviation "key_bytes t \<equiv> List.map_filter key_bytes_of t"
abbreviation "clocks t \<equiv> List.map_filter clock_of t"
abbreviation "serials t \<equiv> List.map_filter serial_of t"

lemmas trace_of_defs = signature_of_def key_bytes_of_def clock_of_def serial_of_def

lemmas file_defs = certToFile_def KeyToFile_def csrToFile_def close_file_def pem_Encode_def
  parsePemCert_def parseECKey_def generateSerialNumber_def fatal_or_def fatal_if_def panic_or_def

abbreviation "cert_pem \<equiv> EncodeToMemory ''CERTIFICATE''"
abbreviation "key_pem \<equiv> EncodeToMemory ''EC PRIVATE KEY''"
abbreviation "csr_pem \<equiv> EncodeToMemory ''CERTIFICATE REQUEST''"

definition root_made :: "event list \<Rightarrow> files \<Rightarrow> files \<Rightarrow> bool" where
  "root_made t fs fs' \<longleftrightarrow> (\<exists>n a b k der kb.
     serials t = [n] \<and> clocks t = [a, b] \<and> key_bytes t = [(k, kb)] \<and>
     signatures t = [(ca_template n a b, ca_template n a b, Public k, k, der)] \<and>
     fs' = fs(''./artifacts/ca.pem'' \<mapsto> cert_pem der, ''./artifacts/ca-key.pem'' \<mapsto> key_pem kb))"

lemma genCA_makes:
  "all_paths genCA (\<lambda>t out. \<forall>fs fs'. out = Returned () \<longrightarrow> fs_run fs t fs' \<longrightarrow> root_made t fs fs')"
  by (auto simp: genCA_def file_defs all_paths_bind all_paths_deferred Let_def fs_run_Cons
      root_made_def trace_of_defs List.map_filter_simps
      split: sum.split option.split)


lemma plain_types [simp]:
  "plain_type ''CERTIFICATE''" "plain_type ''EC PRIVATE KEY''" "plain_type ''CERTIFICATE REQUEST''"
  by (simp_all add: plain_type_def newline_char_def)

lemma Decode_pem [simp]:
  "plain_type typ \<Longrightarrow> Decode (EncodeToMemory typ bytes) = (Some \<lparr>Block_Type = typ, Block_Bytes = bytes\<rparr>, [])"
  using Decode_EncodeToMemory [where r = "[]"] by simp

definition issued :: "(int \<Rightarrow> go_time \<Rightarrow> go_time \<Rightarrow> x509_cert) \<Rightarrow> string \<Rightarrow> string \<Rightarrow> string \<Rightarrow>
    string \<Rightarrow> string \<Rightarrow> event list \<Rightarrow> files \<Rightarrow> files \<Rightarrow> bool" where
  "issued template csrFile certFile keyFile d kb t fs fs' \<longleftrightarrow> (\<exists>n a b c ck k der kb' csr.
     serials t = [n] \<and> clocks t = [a, b] \<and> key_bytes t = [(k, kb')] \<and>
     signatures t = [(template n a b, c, Public k, ck, der)] \<and>
     EvParseCertificate d (Inr c) \<in> set t \<and> EvAsk (ParseECPrivateKey kb) (Inr ck) \<in> set t \<and>
     fs' = fs(csrFile \<mapsto> csr_pem csr, certFile \<mapsto> cert_pem der, keyFile \<mapsto> key_pem kb'))"

lemma genIntermCSRandCert_makes:
  "all_paths genIntermCSRandCert (\<lambda>t out. \<forall>fs fs' d kb. out = Returned () \<longrightarrow>
     fs ''./artifacts/ca.pem'' = Some (cert_pem d) \<longrightarrow> fs ''./artifacts/ca-key.pem'' = Some (key_pem kb) \<longrightarrow>
     fs_run fs t fs' \<longrightarrow>
     issued interm_template ''./artifacts/intermediate.csr'' ''./artifacts/intermediate.pem''
       ''./artifacts/intermediate-key.pem'' d kb t fs fs')"
  by (auto simp: genIntermCSRandCert_def file_defs all_paths_bind all_paths_deferred Let_def fs_run_Cons
      issued_def trace_of_defs List.map_filter_simps
      split: sum.split option.split)

lemma genServerCert_makes:
  "all_paths genServerCert (\<lambda>t out. \<forall>fs fs' d kb. out = Returned () \<longrightarrow>
     fs ''./artifacts/intermediate.pem'' = Some (cert_pem d) \<longrightarrow>
     fs ''./artifacts/intermediate-key.pem'' = Some (key_pem kb) \<longrightarrow> fs_run fs t fs' \<longrightarrow>
     issued server_template ''./artifacts/server.csr'' ''./artifacts/server.pem''
       ''./artifacts/server-key.pem'' d kb t fs fs')"
  by (auto simp: genServerCert_def file_defs all_paths_bind all_paths_deferred Let_def fs_run_Cons
      issued_def trace_of_defs List.map_filter_simps
      split: sum.split option.split)

lemma genClientCert_makes:
  "all_paths genClientCert (\<lambda>t out. \<forall>fs fs' d kb. out = Returned () \<longrightarrow>
     fs ''./artifacts/intermediate.pem'' = Some (cert_pem d) \<longrightarrow>
     fs ''./artifacts/intermediate-key.pem'' = Some (key_pem kb) \<longrightarrow> fs_run fs t fs' \<longrightarrow>
     issued client_template ''./artifacts/client.csr'' ''./artifacts/client.pem''
       ''./artifacts/client-key.pem'' d kb t fs fs')"
  by (auto simp: genClientCert_def file_defs all_paths_bind all_paths_deferred Let_def fs_run_Cons
      issued_def trace_of_defs List.map_filter_simps
      split: sum.split option.split)


definition chained :: "string \<Rightarrow> string \<Rightarrow> event list \<Rightarrow> files \<Rightarrow> files \<Rightarrow> bool" where
  "chained leafFile chainFile t fs fs' \<longleftrightarrow> (\<exists>leaf interm.
     serials t = [] \<and> clocks t = [] \<and> key_bytes t = [] \<and> signatures t = [] \<and>
     fs leafFile = Some leaf \<and> fs ''./artifacts/intermediate.pem'' = Some interm \<and>
     fs' = fs(chainFile \<mapsto> leaf @ interm))"

lemma buildServerCertChain_makes:
  "all_paths (buildServerCertChain leafFile [''./artifacts/intermediate.pem'']) (\<lambda>t out. \<forall>r.
     out = Returned r \<longrightarrow> r = None \<and> (\<forall>fs fs'. fs_run fs t fs' \<longrightarrow>
       chained leafFile ''./artifacts/server-chain.pem'' t fs fs'))"
  by (auto simp: buildServerCertChain_def write_chain_def fs_run_Cons chained_def
      trace_of_defs List.map_filter_simps split: sum.split option.split)

lemma buildClientCertChain_makes:
  "all_paths (buildClientCertChain leafFile [''./artifacts/intermediate.pem'']) (\<lambda>t out. \<forall>r.
     out = Returned r \<longrightarrow> r = None \<and> (\<forall>fs fs'. fs_run fs t fs' \<longrightarrow>
       chained leafFile ''./artifacts/client-chain.pem'' t fs fs'))"
  by (auto simp: buildClientCertChain_def write_chain_def fs_run_Cons chained_def
      trace_of_defs List.map_filter_simps split: sum.split option.split)

lemma accepts_bind_Returned:
  assumes "accepts (bind p f) t (Returned y)"
  obtains t1 t2 x where "t = t1 @ t2" and "accepts p t1 (Returned x)" and "accepts (f x) t2 (Returned y)"
  using accepts_bindD [OF assms] by blast

text \<open>The six stages of a run that returns.\<close>

lemma mtls_stages:
  assumes run: "accepts mtls_main t (Returned ())" and fs: "fs_run fs t fs'"
  obtains t1 t2 t3 t4 t5 t6 fs1 fs2 fs3 fs4 fs5 d kb di kbi where
    "t = t1 @ t2 @ t3 @ t4 @ t5 @ t6"
    "root_made t1 fs fs1" "fs1 ''./artifacts/ca.pem'' = Some (cert_pem d)"
    "fs1 ''./artifacts/ca-key.pem'' = Some (key_pem kb)"
    "issued interm_template ''./artifacts/intermediate.csr'' ''./artifacts/intermediate.pem''
       ''./artifacts/intermediate-key.pem'' d kb t2 fs1 fs2"
    "fs2 ''./artifacts/intermediate.pem'' = Some (cert_pem di)"
    "fs2 ''./artifacts/intermediate-key.pem'' = Some (key_pem kbi)"
    "issued server_template ''./artifacts/server.csr'' ''./artifacts/server.pem''
       ''./artifacts/server-key.pem'' di kbi t3 fs2 fs3"
    "chained ''./artifacts/server.pem'' ''./artifacts/server-chain.pem'' t4 fs3 fs4"
    "issued client_template ''./artifacts/client.csr'' ''./artifacts/client.pem''
       ''./artifacts/client-key.pem'' di kbi t5 fs4 fs5"
    "chained ''./artifacts/client.pem'' ''./artifacts/client-chain.pem'' t6 fs5 fs'"
proof -
  from run obtain t1 t2 t3 t4 u err where t: "t = t1 @ t2 @ t3 @ t4 @ u"
    and 1: "accepts genCA t1 (Returned ())"
    and 2: "accepts genIntermCSRandCert t2 (Returned ())"
    and 3: "accepts genServerCert t3 (Returned ())"
    and 4: "accepts (buildServerCertChain ''./artifacts/server.pem'' [''./artifacts/intermediate.pem''])
      t4 (Returned err)"
    and u: "accepts (case err of Some _ \<Rightarrow> Ret () | None \<Rightarrow>
     bind genClientCert (\<lambda>_.
     bind (buildClientCertChain ''./artifacts/client.pem'' [''./artifacts/intermediate.pem'']) (\<lambda>err.
     case err of Some _ \<Rightarrow> Ret () | None \<Rightarrow> Ret ()))) u (Returned ())"
    unfolding mtls_main_def by (elim accepts_bind_Returned) simp
  have "err = None" using all_paths_accepts [OF buildServerCertChain_makes 4] by simp
  with u obtain t5 t6 u' err' where u': "u = t5 @ t6 @ u'"
    and 5: "accepts genClientCert t5 (Returned ())"
    and 6: "accepts (buildClientCertChain ''./artifacts/client.pem'' [''./artifacts/intermediate.pem''])
      t6 (Returned err')"
    and "accepts (case err' of Some _ \<Rightarrow> Ret () | None \<Rightarrow> Ret ()) u' (Returned ())"
    by (auto elim!: accepts_bind_Returned)
  then have "u' = []" by (auto split: option.splits)
  with t u' have t: "t = t1 @ t2 @ t3 @ t4 @ t5 @ t6" by simp
  with fs obtain fs1 fs2 fs3 fs4 fs5 where r: "fs_run fs t1 fs1" "fs_run fs1 t2 fs2"
      "fs_run fs2 t3 fs3" "fs_run fs3 t4 fs4" "fs_run fs4 t5 fs5" "fs_run fs5 t6 fs'"
    by (auto simp: fs_run_append)
  have s1: "root_made t1 fs fs1" using all_paths_accepts [OF genCA_makes 1] r(1) by simp
  then obtain d kb where ca: "fs1 ''./artifacts/ca.pem'' = Some (cert_pem d)"
      "fs1 ''./artifacts/ca-key.pem'' = Some (key_pem kb)"
    by (auto simp: root_made_def)
  have s2: "issued interm_template ''./artifacts/intermediate.csr'' ''./artifacts/intermediate.pem''
       ''./artifacts/intermediate-key.pem'' d kb t2 fs1 fs2"
    using all_paths_accepts [OF genIntermCSRandCert_makes 2] ca r(2) by simp
  then obtain di kbi where interm: "fs2 ''./artifacts/intermediate.pem'' = Some (cert_pem di)"
      "fs2 ''./artifacts/intermediate-key.pem'' = Some (key_pem kbi)"
    by (auto simp: issued_def)
  have s3: "issued server_template ''./artifacts/server.csr'' ''./artifacts/server.pem''
       ''./artifacts/server-key.pem'' di kbi t3 fs2 fs3"
    using all_paths_accepts [OF genServerCert_makes 3] interm r(3) by simp
  have s4: "chained ''./artifacts/server.pem'' ''./artifacts/server-chain.pem'' t4 fs3 fs4"
    using all_paths_accepts [OF buildServerCertChain_makes 4] r(4) by simp
  from s3 s4 interm have "fs4 ''./artifacts/intermediate.pem'' = Some (cert_pem di)"
      "fs4 ''./artifacts/intermediate-key.pem'' = Some (key_pem kbi)"
    by (auto simp: issued_def chained_def)
  then have s5: "issued client_template ''./artifacts/client.csr'' ''./artifacts/client.pem''
       ''./artifacts/client-key.pem'' di kbi t5 fs4 fs5"
    using all_paths_accepts [OF genClientCert_makes 5] r(5) by simp
  have s6: "chained ''./artifacts/client.pem'' ''./artifacts/client-chain.pem'' t6 fs5 fs'"
    using all_paths_accepts [OF buildClientCertChain_makes 6] r(6) by simp
  from t s1 ca s2 interm s3 s4 s5 s6 show ?thesis by (rule that)
qed

subsection \<open>The chain of signatures\<close>

text \<open>The documented behaviour of crypto/x509 a run relies on: a key that is marshalled and parsed
  is the same key, and a parsed certificate has the subject, the constraints and the public key it
  was made with.\<close>

definition x509_contract :: "event list \<Rightarrow> bool" where
  "x509_contract t \<longleftrightarrow>
     (\<forall>k b k'. EvAsk (MarshalECPrivateKey k) (Inr b) \<in> set t \<longrightarrow>
        EvAsk (ParseECPrivateKey b) (Inr k') \<in> set t \<longrightarrow> k' = k) \<and>
     (\<forall>tm p pub k der c. EvAsk (X509CreateCertificate tm p pub k) (Inr der) \<in> set t \<longrightarrow>
        EvParseCertificate der (Inr c) \<in> set t \<longrightarrow>
        X_Subject c = X_Subject tm \<and> IsCA c = IsCA tm \<and> X_KeyUsage c = X_KeyUsage tm \<and>
        X_PublicKey c = Some pub)"

type_synonym signature = "x509_cert \<times> x509_cert \<times> public_key \<times> private_key \<times> string"

text \<open>Certificate \<open>s\<close> is signed by the key that \<open>i\<close> certifies, names it as its issuer, and \<open>i\<close> may
  sign certificates.\<close>

definition signed_by :: "signature \<Rightarrow> signature \<Rightarrow> bool" where
  "signed_by s i \<longleftrightarrow>
     (case (s, i) of ((tm, p, pub, k, der), (tm', p', pub', k', der')) \<Rightarrow>
        pub' = Public k \<and> X_Subject p = X_Subject tm' \<and> IsCA p \<and> may KeyUsageCertSign p \<and>
        (s = i \<or> X_PublicKey p = Some pub'))"

lemma key_bytes_iff: "(k, b) \<in> set (key_bytes t) \<longleftrightarrow> EvAsk (MarshalECPrivateKey k) (Inr b) \<in> set t"
  by (induction t) (auto simp: List.map_filter_simps key_bytes_of_def split: option.splits event.splits
      query.splits sum.splits)

lemma signatures_iff:
  "(tm, p, pub, k, der) \<in> set (signatures t) \<longleftrightarrow> EvAsk (X509CreateCertificate tm p pub k) (Inr der) \<in> set t"
  by (induction t) (auto simp: List.map_filter_simps signature_of_def split: option.splits event.splits
      query.splits sum.splits)

lemma made_in:
  "set u \<subseteq> set t \<Longrightarrow> s \<in> set (signatures u) \<Longrightarrow> s \<in> set (signatures t)"
  "set u \<subseteq> set t \<Longrightarrow> k \<in> set (key_bytes u) \<Longrightarrow> k \<in> set (key_bytes t)"
  by (auto simp: List.map_filter_def)

lemma template_usage:
  "may KeyUsageCertSign (ca_template n a b)" "may KeyUsageCertSign (interm_template n a b)"
  by (simp_all add: ca_template_def interm_template_def may_def KeyUsageCertSign_def KeyUsageCRLSign_def)

lemma may_eq: "X_KeyUsage c = X_KeyUsage c' \<Longrightarrow> may u c = may u c'"
  by (simp add: may_def)

lemma EncodeToMemory_inject [simp]:
  "plain_type ty \<Longrightarrow> EncodeToMemory ty a = EncodeToMemory ty b \<longleftrightarrow> a = b"
  by (metis Decode_pem fst_conv option.inject pem_block.ext_inject)

definition pki :: "signature list \<Rightarrow> bool" where
  "pki sigs \<longleftrightarrow> (\<exists>root interm server client. sigs = [root, interm, server, client] \<and>
     signed_by root root \<and> signed_by interm root \<and> signed_by server interm \<and> signed_by client interm)"

text \<open>Issued from the files of a certificate of the same run, a certificate is signed by it.\<close>

lemma issued_signed:
  assumes "issued template f1 f2 f3 d kb u fs fs'" and "set u \<subseteq> set t" and contract: "x509_contract t"
    and i: "(tm, p, Public k, k', d) \<in> set (signatures t)" and "(k, kb) \<in> set (key_bytes t)"
    and ca: "IsCA tm" "may KeyUsageCertSign tm"
  obtains n a b c k2 der kb2 csr where
    "signatures u = [(template n a b, c, Public k2, k, der)]" "serials u = [n]" "clocks u = [a, b]"
    "key_bytes u = [(k2, kb2)]" "fs' = fs(f1 \<mapsto> csr_pem csr, f2 \<mapsto> cert_pem der, f3 \<mapsto> key_pem kb2)"
    "signed_by (template n a b, c, Public k2, k, der) (tm, p, Public k, k', d)"
proof -
  from assms(1) obtain n a b c ck k2 der kb2 csr where
    s: "signatures u = [(template n a b, c, Public k2, ck, der)]" "serials u = [n]" "clocks u = [a, b]"
      "key_bytes u = [(k2, kb2)]" "fs' = fs(f1 \<mapsto> csr_pem csr, f2 \<mapsto> cert_pem der, f3 \<mapsto> key_pem kb2)" and
    c: "EvParseCertificate d (Inr c) \<in> set u" and ck: "EvAsk (ParseECPrivateKey kb) (Inr ck) \<in> set u"
    unfolding issued_def by blast
  have made: "EvAsk (X509CreateCertificate tm p (Public k) k') (Inr d) \<in> set t"
    "EvAsk (MarshalECPrivateKey k) (Inr kb) \<in> set t"
    using i assms(5) by (simp_all add: signatures_iff key_bytes_iff)
  have "ck = k" using contract made(2) ck assms(2) unfolding x509_contract_def by blast
  moreover have "X_Subject c = X_Subject tm \<and> IsCA c = IsCA tm \<and> X_KeyUsage c = X_KeyUsage tm \<and>
      X_PublicKey c = Some (Public k)"
    using contract made(1) c assms(2) unfolding x509_contract_def by blast
  ultimately show ?thesis
    using s ca may_eq [of c tm] by (intro that [of n a b c k2 der kb2 csr]) (auto simp: signed_by_def)
qed

lemma issued_frame:
  "issued template f1 f2 f3 d kb u fs fs' \<Longrightarrow> f \<notin> {f1, f2, f3} \<Longrightarrow> fs' f = fs f"
  by (auto simp: issued_def)

lemma chained_frame: "chained leafFile chainFile u fs fs' \<Longrightarrow> f \<noteq> chainFile \<Longrightarrow> fs' f = fs f"
  by (auto simp: chained_def)

lemma chained_quiet:
  "chained leafFile chainFile u fs fs' \<Longrightarrow> serials u = [] \<and> clocks u = [] \<and> key_bytes u = [] \<and> signatures u = []"
  by (auto simp: chained_def)

lemma chained_makes:
  assumes "chained leafFile chainFile u fs fs'" and "fs leafFile = Some leaf"
    and "fs ''./artifacts/intermediate.pem'' = Some interm"
  shows "fs' = fs(chainFile \<mapsto> leaf @ interm)"
  using assms by (auto simp: chained_def)

text \<open>Everything a run that returns has made.\<close>

lemma ca_stages:
  assumes root: "root_made u1 fs fs1" "fs1 ''./artifacts/ca.pem'' = Some (cert_pem d)"
      "fs1 ''./artifacts/ca-key.pem'' = Some (key_pem kb)"
    and interm: "issued interm_template ''./artifacts/intermediate.csr'' ''./artifacts/intermediate.pem''
       ''./artifacts/intermediate-key.pem'' d kb u2 fs1 fs2"
      "fs2 ''./artifacts/intermediate.pem'' = Some (cert_pem di)"
      "fs2 ''./artifacts/intermediate-key.pem'' = Some (key_pem kbi)"
    and sub: "set u1 \<subseteq> set t" "set u2 \<subseteq> set t" and contract: "x509_contract t"
  obtains n1 a1 b1 k1 n2 a2 b2 c2 k2 where
    "serials u1 = [n1]" "clocks u1 = [a1, b1]" "key_bytes u1 = [(k1, kb)]"
    "signatures u1 = [(ca_template n1 a1 b1, ca_template n1 a1 b1, Public k1, k1, d)]"
    "serials u2 = [n2]" "clocks u2 = [a2, b2]" "key_bytes u2 = [(k2, kbi)]"
    "signatures u2 = [(interm_template n2 a2 b2, c2, Public k2, k1, di)]"
    "signed_by (ca_template n1 a1 b1, ca_template n1 a1 b1, Public k1, k1, d)
      (ca_template n1 a1 b1, ca_template n1 a1 b1, Public k1, k1, d)"
    "signed_by (interm_template n2 a2 b2, c2, Public k2, k1, di)
      (ca_template n1 a1 b1, ca_template n1 a1 b1, Public k1, k1, d)"
proof -
  from root obtain n1 a1 b1 k1 where r: "serials u1 = [n1]" "clocks u1 = [a1, b1]" "key_bytes u1 = [(k1, kb)]"
      "signatures u1 = [(ca_template n1 a1 b1, ca_template n1 a1 b1, Public k1, k1, d)]"
    by (auto simp: root_made_def)
  have in_t: "(ca_template n1 a1 b1, ca_template n1 a1 b1, Public k1, k1, d) \<in> set (signatures t)"
      "(k1, kb) \<in> set (key_bytes t)"
    by (rule made_in [OF sub(1)], simp add: r)+
  obtain n2 a2 b2 c2 k2 csr where i:
      "signatures u2 = [(interm_template n2 a2 b2, c2, Public k2, k1, di)]" "serials u2 = [n2]"
      "clocks u2 = [a2, b2]" "key_bytes u2 = [(k2, kbi)]" and
      signed: "signed_by (interm_template n2 a2 b2, c2, Public k2, k1, di)
        (ca_template n1 a1 b1, ca_template n1 a1 b1, Public k1, k1, d)"
    by (rule issued_signed [OF interm(1) sub(2) contract in_t])
      (use interm in \<open>auto simp: ca_template_def template_usage(1) [unfolded ca_template_def]\<close>)
  have "signed_by (ca_template n1 a1 b1, ca_template n1 a1 b1, Public k1, k1, d)
      (ca_template n1 a1 b1, ca_template n1 a1 b1, Public k1, k1, d)"
    using template_usage(1) by (simp add: signed_by_def ca_template_def)
  from that [OF r i(2-4) i(1) this signed] show ?thesis .
qed

text \<open>A leaf issued by the intermediate CA of the same run.\<close>

lemma leaf_stage:
  assumes leaf: "issued template f1 f2 f3 di kbi u fs fs'" and sub: "set u \<subseteq> set t"
    and contract: "x509_contract t"
    and interm: "(interm_template n2 a2 b2, c2, Public k2, k1, di) \<in> set (signatures t)" "(k2, kbi) \<in> set (key_bytes t)"
  obtains n a b c k d kb csr where
    "serials u = [n]" "clocks u = [a, b]" "key_bytes u = [(k, kb)]"
    "signatures u = [(template n a b, c, Public k, k2, d)]"
    "fs' = fs(f1 \<mapsto> csr_pem csr, f2 \<mapsto> cert_pem d, f3 \<mapsto> key_pem kb)"
    "signed_by (template n a b, c, Public k, k2, d) (interm_template n2 a2 b2, c2, Public k2, k1, di)"
  by (rule issued_signed [OF leaf sub contract interm])
    (auto simp: template_usage(2) intro: that, simp add: interm_template_def)

lemma mtls_made:
  assumes run: "accepts mtls_main t (Returned ())" and fs: "fs_run fs t fs'" and contract: "x509_contract t"
  obtains n1 n2 n3 n4 a1 b1 a2 b2 a3 b3 a4 b4 c2 c3 c4 k1 k2 k3 k4 d1 d2 d3 d4 kb1 kb2 kb3 kb4 where
    "serials t = [n1, n2, n3, n4]" "clocks t = [a1, b1, a2, b2, a3, b3, a4, b4]"
    "key_bytes t = [(k1, kb1), (k2, kb2), (k3, kb3), (k4, kb4)]"
    "signatures t =
      [(ca_template n1 a1 b1, ca_template n1 a1 b1, Public k1, k1, d1),
       (interm_template n2 a2 b2, c2, Public k2, k1, d2),
       (server_template n3 a3 b3, c3, Public k3, k2, d3),
       (client_template n4 a4 b4, c4, Public k4, k2, d4)]"
    "pki (signatures t)"
    "fs' ''./artifacts/ca.pem'' = Some (cert_pem d1)"
    "fs' ''./artifacts/server-chain.pem'' = Some (cert_pem d3 @ cert_pem d2)"
    "fs' ''./artifacts/client-chain.pem'' = Some (cert_pem d4 @ cert_pem d2)"
    "fs' ''./artifacts/server-key.pem'' = Some (key_pem kb3)"
    "fs' ''./artifacts/client-key.pem'' = Some (key_pem kb4)"
proof -
  from mtls_stages [OF run fs] obtain t1 t2 t3 t4 t5 t6 fs1 fs2 fs3 fs4 fs5 d kb di kbi where
    t: "t = t1 @ t2 @ t3 @ t4 @ t5 @ t6" and
    1: "root_made t1 fs fs1" "fs1 ''./artifacts/ca.pem'' = Some (cert_pem d)"
      "fs1 ''./artifacts/ca-key.pem'' = Some (key_pem kb)" and
    2: "issued interm_template ''./artifacts/intermediate.csr'' ''./artifacts/intermediate.pem''
       ''./artifacts/intermediate-key.pem'' d kb t2 fs1 fs2"
      "fs2 ''./artifacts/intermediate.pem'' = Some (cert_pem di)"
      "fs2 ''./artifacts/intermediate-key.pem'' = Some (key_pem kbi)" and
    3: "issued server_template ''./artifacts/server.csr'' ''./artifacts/server.pem''
       ''./artifacts/server-key.pem'' di kbi t3 fs2 fs3" and
    4: "chained ''./artifacts/server.pem'' ''./artifacts/server-chain.pem'' t4 fs3 fs4" and
    5: "issued client_template ''./artifacts/client.csr'' ''./artifacts/client.pem''
       ''./artifacts/client-key.pem'' di kbi t5 fs4 fs5" and
    6: "chained ''./artifacts/client.pem'' ''./artifacts/client-chain.pem'' t6 fs5 fs'" .
  have sub: "set t1 \<subseteq> set t" "set t2 \<subseteq> set t" "set t3 \<subseteq> set t" "set t5 \<subseteq> set t" using t by auto
  obtain n1 a1 b1 k1 n2 a2 b2 c2 k2 where ca:
      "serials t1 = [n1]" "clocks t1 = [a1, b1]" "key_bytes t1 = [(k1, kb)]"
      "signatures t1 = [(ca_template n1 a1 b1, ca_template n1 a1 b1, Public k1, k1, d)]"
      "serials t2 = [n2]" "clocks t2 = [a2, b2]" "key_bytes t2 = [(k2, kbi)]"
      "signatures t2 = [(interm_template n2 a2 b2, c2, Public k2, k1, di)]"
    and ca_signed: "signed_by (ca_template n1 a1 b1, ca_template n1 a1 b1, Public k1, k1, d)
        (ca_template n1 a1 b1, ca_template n1 a1 b1, Public k1, k1, d)"
      "signed_by (interm_template n2 a2 b2, c2, Public k2, k1, di)
        (ca_template n1 a1 b1, ca_template n1 a1 b1, Public k1, k1, d)"
    by (rule ca_stages [OF 1 2 sub(1,2) contract])
  have in_t: "(interm_template n2 a2 b2, c2, Public k2, k1, di) \<in> set (signatures t)" "(k2, kbi) \<in> set (key_bytes t)"
    by (simp_all add: t ca)
  obtain n3 a3 b3 c3 k3 d3 kb3 csr3 where server:
      "serials t3 = [n3]" "clocks t3 = [a3, b3]" "key_bytes t3 = [(k3, kb3)]"
      "signatures t3 = [(server_template n3 a3 b3, c3, Public k3, k2, d3)]" and
      fs3: "fs3 = fs2(''./artifacts/server.csr'' \<mapsto> csr_pem csr3, ''./artifacts/server.pem'' \<mapsto> cert_pem d3,
        ''./artifacts/server-key.pem'' \<mapsto> key_pem kb3)" and
      signed3: "signed_by (server_template n3 a3 b3, c3, Public k3, k2, d3)
        (interm_template n2 a2 b2, c2, Public k2, k1, di)"
    by (rule leaf_stage [OF 3 sub(3) contract in_t])
  obtain n4 a4 b4 c4 k4 d4 kb4 csr4 where client:
      "serials t5 = [n4]" "clocks t5 = [a4, b4]" "key_bytes t5 = [(k4, kb4)]"
      "signatures t5 = [(client_template n4 a4 b4, c4, Public k4, k2, d4)]" and
      fs5: "fs5 = fs4(''./artifacts/client.csr'' \<mapsto> csr_pem csr4, ''./artifacts/client.pem'' \<mapsto> cert_pem d4,
        ''./artifacts/client-key.pem'' \<mapsto> key_pem kb4)" and
      signed4: "signed_by (client_template n4 a4 b4, c4, Public k4, k2, d4)
        (interm_template n2 a2 b2, c2, Public k2, k1, di)"
    by (rule leaf_stage [OF 5 sub(4) contract in_t])
  have fs4: "fs4 = fs3(''./artifacts/server-chain.pem'' \<mapsto> cert_pem d3 @ cert_pem di)"
    by (rule chained_makes [OF 4]) (simp_all add: fs3 2(2))
  have fs': "fs' = fs5(''./artifacts/client-chain.pem'' \<mapsto> cert_pem d4 @ cert_pem di)"
    by (rule chained_makes [OF 6]) (simp_all add: fs5 fs4 fs3 2(2))
  have "fs2 ''./artifacts/ca.pem'' = Some (cert_pem d)" using issued_frame [OF 2(1)] 1(2) by simp
  then have files:
      "fs' ''./artifacts/ca.pem'' = Some (cert_pem d)"
      "fs' ''./artifacts/server-chain.pem'' = Some (cert_pem d3 @ cert_pem di)"
      "fs' ''./artifacts/client-chain.pem'' = Some (cert_pem d4 @ cert_pem di)"
      "fs' ''./artifacts/server-key.pem'' = Some (key_pem kb3)"
      "fs' ''./artifacts/client-key.pem'' = Some (key_pem kb4)"
    by (simp_all add: fs' fs5 fs4 fs3)
  note quiet = chained_quiet [OF 4] chained_quiet [OF 6]
  have traces: "serials t = [n1, n2, n3, n4]" "clocks t = [a1, b1, a2, b2, a3, b3, a4, b4]"
    "key_bytes t = [(k1, kb), (k2, kbi), (k3, kb3), (k4, kb4)]"
    "signatures t =
      [(ca_template n1 a1 b1, ca_template n1 a1 b1, Public k1, k1, d),
       (interm_template n2 a2 b2, c2, Public k2, k1, di),
       (server_template n3 a3 b3, c3, Public k3, k2, d3),
       (client_template n4 a4 b4, c4, Public k4, k2, d4)]"
    by (simp_all add: t ca server client quiet)
  then have "pki (signatures t)" using ca_signed signed3 signed4 by (simp add: pki_def)
  from that [OF traces this files] show ?thesis .
qed

subsection \<open>A run\<close>

text \<open>A run on a fast machine, used where a property needs an example.\<close>

definition sample_time :: go_time where
  "sample_time = GoTime 2025 3 1 0"

definition written :: "string \<Rightarrow> string \<Rightarrow> string \<Rightarrow> event list" where
  "written f blockType bytes =
     [EvDo (FileCreate f) None, EvDo (FileWrite f (EncodeToMemory blockType bytes)) None, EvDo (FileClose f) None]"

definition key_written :: "string \<Rightarrow> string \<Rightarrow> string \<Rightarrow> event list" where
  "key_written f k b =
     [EvDo (FileCreate f) None, EvAsk (MarshalECPrivateKey k) (Inr b),
      EvDo (FileWrite f (key_pem b)) None, EvDo (FileClose f) None]"

definition drawn :: "string \<Rightarrow> int \<Rightarrow> event list" where
  "drawn k n =
     [EvAsk (EcdsaGenerateKey ''P-256'') (Inr k), EvRandInt serialNumberLimit (Inr n),
      EvNow sample_time, EvNow sample_time]"

definition parsed :: "string \<Rightarrow> string \<Rightarrow> string \<Rightarrow> string \<Rightarrow> x509_cert \<Rightarrow> string \<Rightarrow> event list" where
  "parsed f d keyFile b c k =
     [EvAsk (ReadFile f) (Inr (cert_pem d)), EvParseCertificate d (Inr c),
      EvAsk (ReadFile keyFile) (Inr (key_pem b)), EvAsk (ParseECPrivateKey b) (Inr k)]"

definition requested :: "x509_cert \<Rightarrow> string \<Rightarrow> string \<Rightarrow> event list" where
  "requested tm k f =
     EvAsk (X509CreateCertificateRequest (X_Subject tm) (Public k) k) (Inr ''csr'') #
     written f ''CERTIFICATE REQUEST'' ''csr''"

definition sample_ca_cert :: x509_cert where
  "sample_ca_cert = ca_template 1 sample_time sample_time"

definition sample_interm_cert :: x509_cert where
  "sample_interm_cert = interm_template 2 sample_time sample_time"

definition parsed_as :: "x509_cert \<Rightarrow> string \<Rightarrow> x509_cert" where
  "parsed_as tm k = tm\<lparr>X_PublicKey := Some (Public k)\<rparr>"

definition mtls_good :: "event list" where
  "mtls_good =
     drawn ''k1'' 1 @
     EvAsk (X509CreateCertificate sample_ca_cert sample_ca_cert (Public ''k1'') ''k1'') (Inr ''d1'') #
     written ''./artifacts/ca.pem'' ''CERTIFICATE'' ''d1'' @ key_written ''./artifacts/ca-key.pem'' ''k1'' ''b1'' @
     drawn ''k2'' 2 @
     parsed ''./artifacts/ca.pem'' ''d1'' ''./artifacts/ca-key.pem'' ''b1'' (parsed_as sample_ca_cert ''k1'') ''k1'' @
     requested sample_interm_cert ''k2'' ''./artifacts/intermediate.csr'' @
     EvAsk (X509CreateCertificate sample_interm_cert (parsed_as sample_ca_cert ''k1'') (Public ''k2'') ''k1'') (Inr ''d2'') #
     written ''./artifacts/intermediate.pem'' ''CERTIFICATE'' ''d2'' @
     key_written ''./artifacts/intermediate-key.pem'' ''k2'' ''b2'' @
     drawn ''k3'' 3 @
     requested (server_template 3 sample_time sample_time) ''k3'' ''./artifacts/server.csr'' @
     parsed ''./artifacts/intermediate.pem'' ''d2'' ''./artifacts/intermediate-key.pem'' ''b2''
       (parsed_as sample_interm_cert ''k2'') ''k2'' @
     EvAsk (X509CreateCertificate (server_template 3 sample_time sample_time)
       (parsed_as sample_interm_cert ''k2'') (Public ''k3'') ''k2'') (Inr ''d3'') #
     written ''./artifacts/server.pem'' ''CERTIFICATE'' ''d3'' @
     key_written ''./artifacts/server-key.pem'' ''k3'' ''b3'' @
     [EvAsk (ReadFile ''./artifacts/server.pem'') (Inr (cert_pem ''d3'')),
      EvAsk (ReadFile ''./artifacts/intermediate.pem'') (Inr (cert_pem ''d2'')),
      EvDo (WriteFile ''./artifacts/server-chain.pem'' (cert_pem ''d3'' @ cert_pem ''d2'') 384) None] @
     drawn ''k4'' 4 @
     requested (client_template 4 sample_time sample_time) ''k4'' ''./artifacts/client.csr'' @
     parsed ''./artifacts/intermediate.pem'' ''d2'' ''./artifacts/intermediate-key.pem'' ''b2''
       (parsed_as sample_interm_cert ''k2'') ''k2'' @
     EvAsk (X509CreateCertificate (client_template 4 sample_time sample_time)
       (parsed_as sample_interm_cert ''k2'') (Public ''k4'') ''k2'') (Inr ''d4'') #
     written ''./artifacts/client.pem'' ''CERTIFICATE'' ''d4'' @
     key_written ''./artifacts/client-key.pem'' ''k4'' ''b4'' @
     [EvAsk (ReadFile ''./artifacts/client.pem'') (Inr (cert_pem ''d4'')),
      EvAsk (ReadFile ''./artifacts/intermediate.pem'') (Inr (cert_pem ''d2'')),
      EvDo (WriteFile ''./artifacts/client-chain.pem'' (cert_pem ''d4'' @ cert_pem ''d2'') 384) None]"

lemmas mtls_sample_defs = drawn_def parsed_def requested_def written_def key_written_def

lemma accepts_mtls_good: "accepts mtls_main mtls_good (Returned ())"
  by (simp add: mtls_good_def mtls_sample_defs mtls_main_def genCA_def genIntermCSRandCert_def genServerCert_def
      genClientCert_def buildServerCertChain_def buildClientCertChain_def write_chain_def file_defs
      sample_ca_cert_def sample_interm_cert_def Let_def)

lemma fs_run_mtls_good: "\<exists>fs'. fs_run Map.empty mtls_good fs'"
  by (simp add: mtls_good_def mtls_sample_defs fs_run_Cons)

lemma x509_contract_mtls_good: "x509_contract mtls_good"
  by (auto simp: x509_contract_def mtls_good_def mtls_sample_defs parsed_as_def)

lemma clocks_mtls_good: "clocks mtls_good =
    [sample_time, sample_time, sample_time, sample_time, sample_time, sample_time, sample_time, sample_time]"
  by (simp add: mtls_good_def mtls_sample_defs List.map_filter_simps clock_of_def)

subsection \<open>Properties of a run that returns\<close>

text \<open>C12: when the generator returns it has signed exactly four certificates: the root by
  itself, the intermediate by the root, and the server and the client certificate by the
  intermediate; each of them with the key whose public half the issuer's certificate carries, and
  with an issuer that is a CA and may sign certificates.  Only the first two are CAs, and the
  leaves have the server and the client usage.\<close>

theorem mtls_chain:
  assumes "accepts mtls_main t (Returned ())" and "fs_run fs t fs'" and "x509_contract t"
  shows "pki (signatures t) \<and> map (IsCA \<circ> fst) (signatures t) = [True, True, False, False] \<and>
    map (X_ExtKeyUsage \<circ> fst) (signatures t) = [[], [], [ExtKeyUsageServerAuth], [ExtKeyUsageClientAuth]]"
  using assms
  by (rule mtls_made) (simp add: ca_template_def interm_template_def server_template_def client_template_def)

theorem mtls_chain_witness: "pki (signatures mtls_good)"
  using mtls_chain [OF accepts_mtls_good _ x509_contract_mtls_good] fs_run_mtls_good by blast

definition cert_block :: "string \<Rightarrow> pem_block" where
  "cert_block der = \<lparr>Block_Type = ''CERTIFICATE'', Block_Bytes = der\<rparr>"

definition key_block :: "string \<Rightarrow> pem_block" where
  "key_block bytes = \<lparr>Block_Type = ''EC PRIVATE KEY'', Block_Bytes = bytes\<rparr>"

text \<open>C17: what a TLS server or client reads from the files the generator leaves: the chain file
  holds two PEM blocks, the leaf certificate first and then the intermediate certificate, and the key file
  holds one, the bytes of the private key whose public half the leaf carries; the CA file holds
  the root certificate.\<close>

theorem mtls_files:
  assumes "accepts mtls_main t (Returned ())" and "fs_run fs t fs'" and "x509_contract t"
  shows "\<exists>root interm server client k kb k' kb'.
    map (\<lambda>(tm, p, pub, signer, der). (pub, der)) (signatures t) =
      [root, interm, (Public k, server), (Public k', client)] \<and>
    (k, kb) \<in> set (key_bytes t) \<and> (k', kb') \<in> set (key_bytes t) \<and>
    map_option pem_blocks (fs' ''./artifacts/ca.pem'') = Some [cert_block (snd root)] \<and>
    map_option pem_blocks (fs' ''./artifacts/server-chain.pem'') = Some [cert_block server, cert_block (snd interm)] \<and>
    map_option pem_blocks (fs' ''./artifacts/server-key.pem'') = Some [key_block kb] \<and>
    map_option pem_blocks (fs' ''./artifacts/client-chain.pem'') = Some [cert_block client, cert_block (snd interm)] \<and>
    map_option pem_blocks (fs' ''./artifacts/client-key.pem'') = Some [key_block kb']"
  using assms by (rule mtls_made) (auto simp: cert_block_def key_block_def)

theorem mtls_files_witness:
  "\<exists>fs' leaf interm. fs_run Map.empty mtls_good fs' \<and>
    map_option pem_blocks (fs' ''./artifacts/server-chain.pem'') = Some [cert_block leaf, cert_block interm]"
proof -
  obtain fs' where fs': "fs_run Map.empty mtls_good fs'" using fs_run_mtls_good by blast
  with mtls_files [OF accepts_mtls_good fs' x509_contract_mtls_good] show ?thesis by (elim exE conjE) blast
qed

text \<open>C38: when the clock does not go back and the run takes less than four years, the validity
  periods of the generated certificates are nested: an issuer is valid before and longer than what it has signed.\<close>

theorem mtls_validity:
  assumes "accepts mtls_main t (Returned ())" and "fs_run fs t fs'" and "x509_contract t"
    and "sorted (clocks t)" and "year (last (clocks t)) < year (hd (clocks t)) + 4"
  shows "\<exists>root interm server client. map fst (signatures t) = [root, interm, server, client] \<and>
    NotBefore root \<le> NotBefore interm \<and> NotBefore interm \<le> NotBefore server \<and>
    NotBefore interm \<le> NotBefore client \<and> NotBefore server < NotAfter server \<and>
    NotBefore client < NotAfter client \<and> NotAfter server < NotAfter interm \<and>
    NotAfter client < NotAfter interm \<and> NotAfter interm < NotAfter root"
  using assms(1-3)
proof (rule mtls_made)
  fix n1 n2 n3 n4 a1 b1 a2 b2 a3 b3 a4 b4 c2 c3 c4 k1 k2 k3 k4 d1 d2 d3 d4
  assume clocks: "clocks t = [a1, b1, a2, b2, a3, b3, a4, b4]"
    and "signatures t =
      [(ca_template n1 a1 b1, ca_template n1 a1 b1, Public k1, k1, d1),
       (interm_template n2 a2 b2, c2, Public k2, k1, d2),
       (server_template n3 a3 b3, c3, Public k3, k2, d3),
       (client_template n4 a4 b4, c4, Public k4, k2, d4)]"
  moreover have order: "a1 \<le> b1" "b1 \<le> a2" "a2 \<le> b2" "b2 \<le> a3" "a3 \<le> b3" "b3 \<le> a4" "a4 \<le> b4"
    using assms(4) clocks by simp_all
  note years = order [THEN year_mono]
  have "year b4 < year a1 + 4" using assms(5) clocks by simp
  with years have "NotBefore (server_template n3 a3 b3) < NotAfter (server_template n3 a3 b3)"
    "NotBefore (client_template n4 a4 b4) < NotAfter (client_template n4 a4 b4)"
    "NotAfter (server_template n3 a3 b3) < NotAfter (interm_template n2 a2 b2)"
    "NotAfter (client_template n4 a4 b4) < NotAfter (interm_template n2 a2 b2)"
    "NotAfter (interm_template n2 a2 b2) < NotAfter (ca_template n1 a1 b1)"
    by (simp_all add: server_template_def client_template_def interm_template_def ca_template_def
        year_less)
  moreover have "a1 \<le> a2" "a2 \<le> a3" "a2 \<le> a4" using order by simp_all
  then have "NotBefore (ca_template n1 a1 b1) \<le> NotBefore (interm_template n2 a2 b2)"
    "NotBefore (interm_template n2 a2 b2) \<le> NotBefore (server_template n3 a3 b3)"
    "NotBefore (interm_template n2 a2 b2) \<le> NotBefore (client_template n4 a4 b4)"
    by (simp_all add: server_template_def client_template_def interm_template_def ca_template_def)
  ultimately show ?thesis by auto
qed

theorem mtls_validity_witness:
  "\<exists>root interm server client. map fst (signatures mtls_good) = [root, interm, server, client] \<and>
    NotAfter server < NotAfter interm \<and> NotAfter interm < NotAfter root"
proof -
  obtain fs' where fs': "fs_run Map.empty mtls_good fs'" using fs_run_mtls_good by blast
  have "sorted (clocks mtls_good)" "year (last (clocks mtls_good)) < year (hd (clocks mtls_good)) + 4"
    by (simp_all add: clocks_mtls_good)
  from mtls_validity [OF accepts_mtls_good fs' x509_contract_mtls_good this] show ?thesis
    by (elim exE conjE) (intro exI conjI; assumption)
qed

subsection \<open>Serial numbers\<close>

definition in_range :: "event \<Rightarrow> bool" where
  "in_range e \<longleftrightarrow> (\<forall>m n. e = EvRandInt m (Inr n) \<longrightarrow> 0 \<le> n \<and> n < m)"

definition good_serials :: "event list \<Rightarrow> bool" where
  "good_serials t \<longleftrightarrow> (list_all in_range t \<longrightarrow>
     (\<forall>s \<in> set (signatures t). 0 \<le> SerialNumber (fst s) \<and> SerialNumber (fst s) < 2 ^ 128))"

lemma good_serials_append: "good_serials s \<Longrightarrow> good_serials t \<Longrightarrow> good_serials (s @ t)"
  by (auto simp: good_serials_def)

lemma good_serials_Nil [simp]: "good_serials []"
  by (simp add: good_serials_def List.map_filter_simps)

lemmas good_serials_bind = all_paths_bind_closed [where I = good_serials, OF _ _ good_serials_append]

lemma serialNumberLimit: "serialNumberLimit = 2 ^ 128"
  by (simp add: serialNumberLimit_def push_bit_eq_mult)

lemmas gen_serials_defs = good_serials_def file_defs all_paths_bind all_paths_deferred Let_def
  trace_of_defs List.map_filter_simps in_range_def serialNumberLimit ca_template_def interm_template_def
  server_template_def client_template_def

lemma gen_serials_ca: "all_paths genCA (\<lambda>t out. good_serials t)"
  by (auto simp: gen_serials_defs genCA_def split: sum.split option.split)

lemma gen_serials_interm: "all_paths genIntermCSRandCert (\<lambda>t out. good_serials t)"
  by (auto simp: gen_serials_defs genIntermCSRandCert_def split: sum.split option.split)

lemma gen_serials_server: "all_paths genServerCert (\<lambda>t out. good_serials t)"
  by (auto simp: gen_serials_defs genServerCert_def split: sum.split option.split)

lemma gen_serials_client: "all_paths genClientCert (\<lambda>t out. good_serials t)"
  by (auto simp: gen_serials_defs genClientCert_def split: sum.split option.split)

lemma gen_serials_server_chain: "all_paths (buildServerCertChain x [y]) (\<lambda>t out. good_serials t)"
  by (auto simp: gen_serials_defs buildServerCertChain_def write_chain_def split: sum.split option.split)

lemma gen_serials_client_chain: "all_paths (buildClientCertChain x [y]) (\<lambda>t out. good_serials t)"
  by (auto simp: gen_serials_defs buildClientCertChain_def write_chain_def split: sum.split option.split)

lemmas gen_serials = gen_serials_ca gen_serials_interm gen_serials_server gen_serials_client gen_serials_server_chain gen_serials_client_chain

text \<open>Every certificate the generator has signed, however the run ends, has a serial number of at
  most 128 bits, given that the random source keeps to the limit it is asked for.\<close>

theorem mtls_serial_numbers:
  assumes "accepts mtls_main t out" and "list_all in_range t"
  shows "\<forall>s \<in> set (signatures t). 0 \<le> SerialNumber (fst s) \<and> SerialNumber (fst s) < 2 ^ 128"
proof -
  have "all_paths mtls_main (\<lambda>t _. good_serials t)"
    unfolding mtls_main_def
    by (intro good_serials_bind gen_serials)
      (auto intro!: good_serials_bind gen_serials
        split: option.split)
  with assms show ?thesis by (auto simp: good_serials_def dest: all_paths_accepts)
qed

theorem mtls_serial_numbers_witness:
  "list_all (\<lambda>s. 0 \<le> SerialNumber (fst s) \<and> SerialNumber (fst s) < 2 ^ 128) (signatures mtls_good)"
proof -
  have "list_all in_range mtls_good"
    by (simp add: mtls_good_def mtls_sample_defs in_range_def serialNumberLimit)
  then show ?thesis using mtls_serial_numbers [OF accepts_mtls_good] by (simp add: list_all_iff)
qed

subsection \<open>Errors\<close>

definition fatal_at_error :: "event list \<Rightarrow> 'a outcome \<Rightarrow> bool" where
  "fatal_at_error t out \<longleftrightarrow>
     (case out of
        Returned x \<Rightarrow> \<not> list_ex reply_error t
      | Exited n \<Rightarrow> n = 1
      | Panicked \<Rightarrow> t \<noteq> [] \<and> (\<exists>tm p pub k e. last t = EvAsk (X509CreateCertificate tm p pub k) (Inl e)))"

lemma fatal_at_error_simps [simp]:
  "fatal_at_error t (Returned x) \<longleftrightarrow> \<not> list_ex reply_error t"
  "fatal_at_error t (Exited n) \<longleftrightarrow> n = 1"
  by (simp_all add: fatal_at_error_def)

lemma fatal_at_error_bind:
  assumes "all_paths p fatal_at_error" and "\<And>x. all_paths (f x) fatal_at_error"
  shows "all_paths (bind p f) fatal_at_error"
  by (rule all_paths_bindI [OF assms(1)])
    (auto intro!: all_paths_mono [OF assms(2)] simp: fatal_at_error_def split: outcome.splits)

lemmas gen_fatal_defs = fatal_at_error_def file_defs all_paths_bind all_paths_deferred Let_def

lemma gen_fatal_ca: "all_paths genCA fatal_at_error"
  by (auto simp: gen_fatal_defs genCA_def split: sum.split option.split)

lemma gen_fatal_interm: "all_paths genIntermCSRandCert fatal_at_error"
  by (auto simp: gen_fatal_defs genIntermCSRandCert_def split: sum.split option.split)

lemma gen_fatal_server: "all_paths genServerCert fatal_at_error"
  by (auto simp: gen_fatal_defs genServerCert_def split: sum.split option.split)

lemma gen_fatal_client: "all_paths genClientCert fatal_at_error"
  by (auto simp: gen_fatal_defs genClientCert_def split: sum.split option.split)

lemma gen_fatal_server_chain: "all_paths (buildServerCertChain x [y]) fatal_at_error"
  by (auto simp: gen_fatal_defs buildServerCertChain_def write_chain_def split: sum.split option.split)

lemma gen_fatal_client_chain: "all_paths (buildClientCertChain x [y]) fatal_at_error"
  by (auto simp: gen_fatal_defs buildClientCertChain_def write_chain_def split: sum.split option.split)

lemmas gen_fatal = gen_fatal_ca gen_fatal_interm gen_fatal_server gen_fatal_client gen_fatal_server_chain gen_fatal_client_chain

text \<open>The generator returns only if every call it made succeeded; otherwise it exits with code 1,
  or panics right after a certificate could not be created.\<close>

theorem mtls_errors:
  assumes "accepts mtls_main t out"
  shows "case out of Returned x \<Rightarrow> \<not> list_ex reply_error t | Exited n \<Rightarrow> n = 1
    | Panicked \<Rightarrow> t \<noteq> [] \<and> (\<exists>tm p pub k e. last t = EvAsk (X509CreateCertificate tm p pub k) (Inl e))"
proof -
  have "all_paths mtls_main fatal_at_error"
    unfolding mtls_main_def
    by (intro fatal_at_error_bind gen_fatal)
      (auto intro!: fatal_at_error_bind gen_fatal split: option.split)
  with assms show ?thesis using all_paths_accepts fatal_at_error_def by blast
qed

theorem mtls_errors_witness: "\<not> list_ex reply_error mtls_good"
  using mtls_errors [OF accepts_mtls_good] by simp

subsection \<open>The functions of util.go\<close>

text \<open>A key written by \<open>KeyToFile\<close> and read back by \<open>parseECKey\<close> is the same key, and a
  certificate written by \<open>certToFile\<close> reaches the parser with the same bytes.\<close>

theorem key_file_round_trip:
  assumes "accepts (KeyToFile (EcdsaKey k) f) t1 (Returned None)" and "fs_run fs t1 fs1"
    and "accepts (parseECKey f) t2 (Returned (Inr k'))" and "fs_run fs1 t2 fs2" and "x509_contract (t1 @ t2)"
  shows "k' = k"
proof -
  have "all_paths (KeyToFile (EcdsaKey k) f) (\<lambda>t out. \<forall>fs fs'. out = Returned None \<longrightarrow> fs_run fs t fs' \<longrightarrow>
      (\<exists>kb. EvAsk (MarshalECPrivateKey k) (Inr kb) \<in> set t \<and> fs' f = Some (key_pem kb)))"
    by (auto simp: file_defs all_paths_deferred fs_run_Cons split: sum.split option.split)
  from all_paths_accepts [OF this assms(1)] assms(2) obtain kb where
    "EvAsk (MarshalECPrivateKey k) (Inr kb) \<in> set t1" "fs1 f = Some (key_pem kb)" by auto
  moreover have "all_paths (parseECKey f) (\<lambda>t out. \<forall>fs fs' k' kb. out = Returned (Inr k') \<longrightarrow>
      fs_run fs t fs' \<longrightarrow> fs f = Some (key_pem kb) \<longrightarrow> EvAsk (ParseECPrivateKey kb) (Inr k') \<in> set t)"
    by (auto simp: file_defs fs_run_Cons split: sum.split option.split)
  from all_paths_accepts [OF this assms(3)] assms(4)
  have "fs1 f = Some (key_pem kb) \<longrightarrow> EvAsk (ParseECPrivateKey kb) (Inr k') \<in> set t2" for kb by auto
  ultimately show ?thesis using assms(5) unfolding x509_contract_def by auto
qed

theorem key_file_round_trip_witness:
  "accepts (KeyToFile (EcdsaKey ''k'') ''f'') (key_written ''f'' ''k'' ''b'') (Returned None) \<and> ''k'' = ''k''"
proof
  show w: "accepts (KeyToFile (EcdsaKey ''k'') ''f'') (key_written ''f'' ''k'' ''b'') (Returned None)"
    by (simp add: key_written_def file_defs)
  let ?t2 = "[EvAsk (ReadFile ''f'') (Inr (key_pem ''b'')), EvAsk (ParseECPrivateKey ''b'') (Inr ''k'')]"
  have "fs_run Map.empty (key_written ''f'' ''k'' ''b'') [''f'' \<mapsto> key_pem ''b'']"
    by (simp add: key_written_def fs_run_Cons)
  moreover have "accepts (parseECKey ''f'') ?t2 (Returned (Inr ''k''))" by (simp add: file_defs)
  moreover have "fs_run [''f'' \<mapsto> key_pem ''b''] ?t2 [''f'' \<mapsto> key_pem ''b'']" by (simp add: fs_run_Cons)
  moreover have "x509_contract (key_written ''f'' ''k'' ''b'' @ ?t2)"
    by (auto simp: x509_contract_def key_written_def)
  ultimately show "''k'' = ''k''" by (rule key_file_round_trip [OF w])
qed

lemma cert_file_round_trip:
  assumes "accepts (certToFile cert f) t1 (Returned None)" and "fs_run fs t1 fs1"
    and "accepts (parsePemCert f) t2 (Returned r)" and "fs_run fs1 t2 fs2"
  shows "fs1 = fs(f \<mapsto> cert_pem cert) \<and> last t2 = EvParseCertificate cert r"
proof -
  have "all_paths (certToFile cert f) (\<lambda>t out. \<forall>fs fs'. out = Returned None \<longrightarrow> fs_run fs t fs' \<longrightarrow>
      fs' = fs(f \<mapsto> cert_pem cert))"
    by (auto simp: file_defs all_paths_deferred fs_run_Cons split: sum.split option.split)
  from all_paths_accepts [OF this assms(1)] assms(2) have "fs1 = fs(f \<mapsto> cert_pem cert)" by simp
  moreover have "all_paths (parsePemCert f) (\<lambda>t out. \<forall>fs fs' r. out = Returned r \<longrightarrow>
      fs_run fs t fs' \<longrightarrow> fs f = Some (cert_pem cert) \<longrightarrow> last t = EvParseCertificate cert r)"
    by (auto simp: file_defs fs_run_Cons split: sum.split option.split)
  from all_paths_accepts [OF this assms(3)] assms(4)
  have "fs1 f = Some (cert_pem cert) \<longrightarrow> last t2 = EvParseCertificate cert r" by auto
  ultimately show ?thesis by simp
qed

text \<open>The reference definition of a chain file: the leaf followed by all the intermediates.\<close>

definition full_chain :: "files \<Rightarrow> string \<Rightarrow> string list \<Rightarrow> string" where
  "full_chain fs leafFile intermFiles = concat (map (\<lambda>f. case fs f of None \<Rightarrow> [] | Some c \<Rightarrow> c) (leafFile # intermFiles))"

lemma append_interm_makes:
  assumes "accepts (append_interm leaf chain intermFiles k) t (Returned r)" and "fs_run fs t fs'"
  shows "\<exists>cs u. map fs intermFiles = map Some cs \<and> fs_run fs u fs' \<and>
    accepts (k (if cs = [] then chain else leaf @ last cs)) u (Returned r)"
  using assms
proof (induction intermFiles arbitrary: chain t)
  case Nil
  then show ?case by auto
next
  case (Cons f fl)
  then obtain c u where u: "t = EvAsk (ReadFile f) (Inr c) # u"
      "accepts (append_interm leaf (leaf @ c) fl k) u (Returned r)"
    by (cases t) (auto split: option.splits event.splits if_splits sum.splits)
  with Cons.prems have "fs f = Some c" "fs_run fs u fs'" by (auto simp: fs_run_Cons)
  with Cons.IH [OF u(2)] obtain cs u' where "map fs fl = map Some cs" "fs_run fs u' fs'"
      "accepts (k (if cs = [] then leaf @ c else leaf @ last cs)) u' (Returned r)" by blast
  with \<open>fs f = Some c\<close> show ?case
    by (intro exI [of _ "c # cs"] exI [of _ u']) (auto split: if_splits)
qed

lemma write_chain_makes:
  "accepts (write_chain file chain) t (Returned r) \<Longrightarrow> fs_run fs t fs' \<Longrightarrow> r = None \<and> fs' = fs(file \<mapsto> chain)"
proof -
  have "all_paths (write_chain file chain) (\<lambda>t out. \<forall>r fs fs'. out = Returned r \<longrightarrow> fs_run fs t fs' \<longrightarrow>
      r = None \<and> fs' = fs(file \<mapsto> chain))"
    by (auto simp: write_chain_def fs_run_Cons split: option.split)
  from all_paths_accepts [OF this]
  show "accepts (write_chain file chain) t (Returned r) \<Longrightarrow> fs_run fs t fs' \<Longrightarrow> ?thesis" by blast
qed

lemma build_chain_makes:
  assumes "accepts (Ask (ReadFile leafFile) (\<lambda>serverCertPEM.
      case serverCertPEM of Inl _ \<Rightarrow> Exit 1 | Inr serverCertPEM \<Rightarrow>
      append_interm serverCertPEM [] intermFiles (write_chain file))) t (Returned r)"
    and "fs_run fs t fs'"
  obtains leaf cs where "r = None" "fs leafFile = Some leaf" "map fs intermFiles = map Some cs"
    "fs' = fs(file \<mapsto> if cs = [] then [] else leaf @ last cs)"
proof -
  from assms obtain leaf u where "fs leafFile = Some leaf" "fs_run fs u fs'"
      "accepts (append_interm leaf [] intermFiles (write_chain file)) u (Returned r)"
    by (cases t) (auto simp: fs_run_Cons split: option.splits event.splits if_splits sum.splits)
  with append_interm_makes [OF this(3,2)] show ?thesis
    by (auto dest!: write_chain_makes intro: that)
qed

lemma full_chain_Some:
  "fs leafFile = Some leaf \<Longrightarrow> map fs intermFiles = map Some cs \<Longrightarrow>
     full_chain fs leafFile intermFiles = leaf @ concat cs"
proof -
  have "map fs fl = map Some cs \<Longrightarrow> concat (map (\<lambda>f. case fs f of None \<Rightarrow> [] | Some c \<Rightarrow> c) fl) = concat cs" for fl
    by (induction fl arbitrary: cs) auto
  then show "fs leafFile = Some leaf \<Longrightarrow> map fs intermFiles = map Some cs \<Longrightarrow> ?thesis"
    by (simp add: full_chain_def)
qed

text \<open>C39: the loop that builds a chain file agrees with the concatenation of the leaf and all
  intermediate certificates when it is given one intermediate file, as \<open>main\<close> does; given more it keeps
  only the last of them behind the leaf, and given none it writes an empty file.\<close>

theorem chain_file:
  assumes "accepts (buildServerCertChain leafFile intermFiles) t (Returned r)" and "fs_run fs t fs'"
  shows "fs' ''./artifacts/server-chain.pem'' = Some
    (case intermFiles of [] \<Rightarrow> [] | _ # _ \<Rightarrow> full_chain fs leafFile [last intermFiles])"
proof -
  obtain leaf cs where
    cs: "fs leafFile = Some leaf" "map fs intermFiles = map Some cs"
      "fs' = fs(''./artifacts/server-chain.pem'' \<mapsto> if cs = [] then [] else leaf @ last cs)"
    using build_chain_makes [OF assms(1) [unfolded buildServerCertChain_def] assms(2)] by metis
  show ?thesis
  proof (cases intermFiles rule: rev_cases)
    case Nil
    with cs show ?thesis by simp
  next
    case (snoc fl f)
    with cs(2) obtain cs' c where "cs = cs' @ [c]" "fs f = Some c"
      by (cases cs rule: rev_cases) auto
    with cs snoc show ?thesis
      using full_chain_Some [of fs leafFile leaf "[f]" "[c]"] by (cases fl) (auto split: list.split)
  qed
qed

theorem chain_file_witness:
  "\<exists>t fs'. accepts (buildServerCertChain ''s'' [''i'', ''j'']) t (Returned None) \<and>
    fs' ''./artifacts/server-chain.pem'' = Some ''SJ''"
proof -
  let ?fs = "[''s'' \<mapsto> ''S'', ''i'' \<mapsto> ''I'', ''j'' \<mapsto> ''J'']"
  let ?t = "[EvAsk (ReadFile ''s'') (Inr ''S''), EvAsk (ReadFile ''i'') (Inr ''I''), EvAsk (ReadFile ''j'') (Inr ''J''),
     EvDo (WriteFile ''./artifacts/server-chain.pem'' ''SJ'' 384) None]"
  let ?fs' = "?fs(''./artifacts/server-chain.pem'' \<mapsto> ''SJ'')"
  have run: "accepts (buildServerCertChain ''s'' [''i'', ''j'']) ?t (Returned None)"
    by (simp add: buildServerCertChain_def write_chain_def)
  have fs: "fs_run ?fs ?t ?fs'" by (simp add: fs_run_Cons)
  have "full_chain ?fs ''s'' [last [''i'', ''j'']] = ''SJ''" by (simp add: full_chain_def)
  with chain_file [OF run fs] have "?fs' ''./artifacts/server-chain.pem'' = Some ''SJ''" by (simp only: list.case)
  with run show ?thesis by blast
qed

end
