(* ===== verification/Mtls_Services.thy ===== *)
theory Mtls_Services
  imports Go_Proc Mtls_Certs
begin

text \<open>
  The demo services mtls-demo/service-provider/main.go and mtls-demo/service-consumer/main.go.
  The provider serves three ports: plain HTTP, TLS, and TLS that requires a client certificate,
  the first two from goroutines.  The consumer calls them in turn, for ever; its loop is cut
  after a number of rounds, and the properties hold for every number.
\<close>

subsection \<open>The provider\<close>

definition VersionTLS12 :: "16 word" where "VersionTLS12 = 0x0303"

definition plain_server :: http_server where
  "plain_server = \<lparr>Addr = '':8080'', Routes = [(''/'', ''no tls'')], Transport = Plain\<rparr>"

definition serve_plain :: "unit prog" where
  "serve_plain =
     Do (SetTrustedProxies [''127.0.0.1'']) (\<lambda>err.
     case err of Some _ \<Rightarrow> Ret () | None \<Rightarrow>
     Do (Serve plain_server) (\<lambda>_. Ret ()))"

definition tls_server :: http_server where
  "tls_server =
     \<lparr>Addr = '':8088'', Routes = [(''/tls'', ''tls'')],
      Transport = TLSFiles ''./keypair/tls.crt'' ''./keypair/tls.key''\<rparr>"

definition serve_tls :: "unit prog" where
  "serve_tls =
     Do (SetTrustedProxies [''127.0.0.1'']) (\<lambda>err.
     case err of Some _ \<Rightarrow> Ret () | None \<Rightarrow>
     Do (Serve tls_server) (\<lambda>_. Ret ()))"

definition mtls_tlsConfig :: "string \<Rightarrow> string \<Rightarrow> tls_config" where
  "mtls_tlsConfig caCert cert =
     zero_tls_config\<lparr>ClientCAs := Some [caCert], ClientAuth_Mode := RequireAndVerifyClientCert,
       MinVersion := VersionTLS12, Certificates := [cert]\<rparr>"

definition mtls_server :: "string \<Rightarrow> string \<Rightarrow> http_server" where
  "mtls_server caCert cert =
     \<lparr>Addr = '':8089'', Routes = [(''/mtls'', ''mtls'')],
      Transport = TLSConfigured (mtls_tlsConfig caCert cert)\<rparr>"

definition provider_main :: "unit prog" where
  "provider_main =
     Do (SetTrustedProxies [''127.0.0.1'']) (\<lambda>err.
     case err of Some _ \<Rightarrow> Ret () | None \<Rightarrow>
     Go ServePlain
     (Go ServeTLS
     (Ask (ReadFile ''./ca/client-ca.pem'') (\<lambda>caCert.
     case caCert of Inl _ \<Rightarrow> Exit 1 | Inr caCert \<Rightarrow>
     Ask (LoadX509KeyPair ''./keypair/tls.crt'' ''./keypair/tls.key'') (\<lambda>cert.
     case cert of Inl _ \<Rightarrow> Exit 1 | Inr cert \<Rightarrow>
     Do (Serve (mtls_server caCert cert)) (\<lambda>err.
     case err of Some _ \<Rightarrow> Exit 1 | None \<Rightarrow> Ret ()))))))"

fun provider_body :: "goroutine \<Rightarrow> unit prog" where
  "provider_body ServePlain = serve_plain"
| "provider_body ServeTLS = serve_tls"
| "provider_body _ = Ret ()"

text \<open>What a server answers to a GET request for a path it has a route for.\<close>

definition answer :: "http_server \<Rightarrow> string \<Rightarrow> string option" where
  "answer s path = map_of (Routes s) path"

subsection \<open>The consumer\<close>

definition client_config :: "string \<Rightarrow> string list \<Rightarrow> tls_config" where
  "client_config caCert keyPairs = zero_tls_config\<lparr>RootCAs := Some [caCert], Certificates := keyPairs\<rparr>"

definition httpNoTLS :: "(go_error option) prog" where
  "httpNoTLS =
     Ask (HttpGet None ''http://service-provider:8080/'') (\<lambda>r.
     case r of Inl _ \<Rightarrow> Exit 1 | Inr r \<Rightarrow>
     Ask (ReadAll r) (\<lambda>body.
     deferred (\<lambda>ret. Do (CloseBody r) (\<lambda>err. case err of Some _ \<Rightarrow> Exit 1 | None \<Rightarrow> ret))
      (case body of Inl _ \<Rightarrow> Exit 1 | Inr _ \<Rightarrow> Ret None)))"

definition httpsTLS :: "(go_error option) prog" where
  "httpsTLS =
     Ask (ReadFile ''./ca/ca.pem'') (\<lambda>caCert.
     case caCert of Inl _ \<Rightarrow> Exit 1 | Inr caCert \<Rightarrow>
     Ask (HttpGet (Some (client_config caCert [])) ''https://service-provider:8088/tls'') (\<lambda>resp.
     case resp of Inl _ \<Rightarrow> Exit 1 | Inr resp \<Rightarrow>
     Ask (ReadAll resp) (\<lambda>body.
     case body of Inl _ \<Rightarrow> Exit 1 | Inr _ \<Rightarrow> Ret None)))"

definition httpsMTLS :: "(go_error option) prog" where
  "httpsMTLS =
     Ask (ReadFile ''./ca/ca.pem'') (\<lambda>caCert.
     case caCert of Inl _ \<Rightarrow> Exit 1 | Inr caCert \<Rightarrow>
     Ask (LoadX509KeyPair ''./keypair/tls.crt'' ''./keypair/tls.key'') (\<lambda>keyPair.
     case keyPair of Inl _ \<Rightarrow> Exit 1 | Inr keyPair \<Rightarrow>
     Ask (HttpGet (Some (client_config caCert [keyPair])) ''https://service-provider:8089/mtls'') (\<lambda>resp.
     case resp of Inl _ \<Rightarrow> Exit 1 | Inr resp \<Rightarrow>
     Ask (ReadAll resp) (\<lambda>body.
     case body of Inl _ \<Rightarrow> Exit 1 | Inr _ \<Rightarrow> Ret None))))"

text \<open>One round of the loop of \<^verbatim>\<open>main\<close>, and the program cut after \<open>n\<close> rounds.\<close>

definition consumer_round :: "unit prog" where
  "consumer_round =
     bind httpNoTLS (\<lambda>_.
     Sleep 3
     (bind httpsTLS (\<lambda>err.
      case err of Some _ \<Rightarrow> Exit 1 | None \<Rightarrow>
      Sleep 3
      (bind httpsMTLS (\<lambda>err.
       case err of Some _ \<Rightarrow> Exit 1 | None \<Rightarrow>
       Sleep 3 (Ret ()))))))"

fun consumer :: "nat \<Rightarrow> unit prog" where
  "consumer 0 = Ret ()"
| "consumer (Suc n) = bind consumer_round (\<lambda>_. consumer n)"

lemmas provider_defs = provider_main_def serve_plain_def serve_tls_def
lemmas consumer_defs = consumer_round_def httpNoTLS_def httpsTLS_def httpsMTLS_def

subsection \<open>The provider: only the third server answers /mtls\<close>

lemma always_next: "always p I \<Longrightarrow> steps p t = Some (Do a k) \<Longrightarrow> I (t @ [EvDo a r])"
  using always_steps [of p I "t @ [EvDo a r]" "k r"] by (simp add: steps_append)

definition known_server :: "event list \<Rightarrow> http_server \<Rightarrow> bool" where
  "known_server t s \<longleftrightarrow> s = plain_server \<or> s = tls_server \<or>
     (\<exists>caCert cert. s = mtls_server caCert cert \<and>
        EvAsk (ReadFile ''./ca/client-ca.pem'') (Inr caCert) \<in> set t \<and>
        EvAsk (LoadX509KeyPair ''./keypair/tls.crt'' ''./keypair/tls.key'') (Inr cert) \<in> set t)"

lemma provider_serves:
  "always provider_main (\<lambda>t. \<forall>s r. EvDo (Serve s) r \<in> set t \<longrightarrow> known_server t s)"
  "always (provider_body g) (\<lambda>t. \<forall>s r. EvDo (Serve s) r \<in> set t \<longrightarrow> known_server t s)"
  by (auto simp: provider_defs known_server_def split: option.split sum.split)
    (cases g; auto simp: provider_defs known_server_def split: option.split)

lemma provider_running:
  assumes "exec provider_body (start provider_main) ms = Some c" and "i < length (threads c)"
    and "threads c ! i = Do (Serve s) k"
  shows "known_server (calls_of i ms) s"
proof -
  from exec_goroutine [OF assms(1,2)] assms(3)
  have "\<exists>p. (p = provider_main \<or> (\<exists>g. p = provider_body g)) \<and> steps p (calls_of i ms) = Some (Do (Serve s) k)"
    by metis
  then obtain p where "p = provider_main \<or> (\<exists>g. p = provider_body g)"
    and st: "steps p (calls_of i ms) = Some (Do (Serve s) k)" by blast
  then have "always p (\<lambda>t. \<forall>s r. EvDo (Serve s) r \<in> set t \<longrightarrow> known_server t s)"
    using provider_serves by auto
  from always_next [OF this st, of None] show ?thesis by (auto simp: known_server_def)
qed

text \<open>The provider started up to where it serves its third port.\<close>

definition provider_up :: "string \<Rightarrow> move list" where
  "provider_up ca =
     [Act 0 (EvDo (SetTrustedProxies [''127.0.0.1'']) None), Act 0 (EvGo ServePlain), Act 0 (EvGo ServeTLS),
      Act 0 (EvAsk (ReadFile ''./ca/client-ca.pem'') (Inr ca)),
      Act 0 (EvAsk (LoadX509KeyPair ''./keypair/tls.crt'' ''./keypair/tls.key'') (Inr ''pair''))]"

lemma provider_up:
  "\<exists>c k. exec provider_body (start provider_main) (provider_up ca) = Some c \<and> 0 < length (threads c) \<and>
     threads c ! 0 = Do (Serve (mtls_server ca ''pair'')) k"
  by (simp add: start_def shared_effect_def provider_main_def provider_up_def)

text \<open>C26: at any moment of any interleaving, a server of the provider that is being served and has
  an answer for /mtls requires and verifies client certificates against exactly the CA certificate
  read from ./ca/client-ca.pem, over TLS 1.2 at least; no server without TLS has an answer for /mtls or /tls.\<close>

theorem provider_mtls:
  assumes "exec provider_body (start provider_main) ms = Some c" and "i < length (threads c)"
    and "threads c ! i = Do (Serve s) k"
  shows "(answer s ''/mtls'' \<noteq> None \<longrightarrow> (\<exists>caCert cfg. Transport s = TLSConfigured cfg \<and>
      ClientAuth_Mode cfg = RequireAndVerifyClientCert \<and> ClientCAs cfg = Some [caCert] \<and>
      VersionTLS12 \<le> MinVersion cfg \<and>
      EvAsk (ReadFile ''./ca/client-ca.pem'') (Inr caCert) \<in> set (all_calls ms))) \<and>
    (Transport s = Plain \<longrightarrow> answer s ''/mtls'' = None \<and> answer s ''/tls'' = None)"
  using provider_running [OF assms] calls_of_subset [of _ i ms]
  by (auto simp: known_server_def answer_def plain_server_def tls_server_def mtls_server_def mtls_tlsConfig_def
      zero_tls_config_def)

theorem provider_mtls_witness:
  "\<exists>c k cfg. exec provider_body (start provider_main) (provider_up ''CA'') = Some c \<and>
    threads c ! 0 = Do (Serve (mtls_server ''CA'' ''pair'')) k \<and>
    Transport (mtls_server ''CA'' ''pair'') = TLSConfigured cfg \<and> ClientAuth_Mode cfg = RequireAndVerifyClientCert"
proof -
  from provider_up [of "''CA''"] obtain c k where c: "exec provider_body (start provider_main) (provider_up ''CA'') = Some c"
      "0 < length (threads c)" "threads c ! 0 = Do (Serve (mtls_server ''CA'' ''pair'')) k" by blast
  have "answer (mtls_server ''CA'' ''pair'') ''/mtls'' \<noteq> None" by (simp add: answer_def mtls_server_def)
  with provider_mtls [OF c] obtain cfg where "Transport (mtls_server ''CA'' ''pair'') = TLSConfigured cfg"
      "ClientAuth_Mode cfg = RequireAndVerifyClientCert" by blast
  with c(1,3) show ?thesis by blast
qed

text \<open>Without a CA file of that name no mutual TLS: the provider exits, and its other servers with it.\<close>

lemma provider_needs_client_ca:
  assumes "accepts provider_main t out" and "EvAsk (ReadFile ''./ca/client-ca.pem'') (Inl e) \<in> set t"
  shows "out = Exited 1"
proof -
  have "all_paths provider_main (\<lambda>t out. \<forall>e. EvAsk (ReadFile ''./ca/client-ca.pem'') (Inl e) \<in> set t \<longrightarrow> out = Exited 1)"
    by (auto simp: provider_main_def split: option.split sum.split)
  from all_paths_accepts [OF this assms(1)] assms(2) show ?thesis by blast
qed

subsection \<open>The consumer\<close>

definition get_of :: "event \<Rightarrow> string option" where
  "get_of e =
     (case e of EvAsk q r \<Rightarrow>
        (case q of HttpGet cfg url \<Rightarrow> (case r of Inl _ \<Rightarrow> None | Inr resp \<Rightarrow> Some url) | _ \<Rightarrow> None)
      | _ \<Rightarrow> None)"

definition is_close :: "event \<Rightarrow> bool" where
  "is_close e \<longleftrightarrow> (\<exists>resp. e = EvDo (CloseBody resp) None)"

abbreviation "answered t \<equiv> List.map_filter get_of t"
abbreviation "closed t \<equiv> filter is_close t"

definition provider_urls :: "string list" where
  "provider_urls =
     [''http://service-provider:8080/'', ''https://service-provider:8088/tls'',
      ''https://service-provider:8089/mtls'']"

definition rounds_made :: "nat \<Rightarrow> event list \<Rightarrow> unit outcome \<Rightarrow> bool" where
  "rounds_made n t out \<longleftrightarrow>
     (if list_ex reply_error t then out = Exited 1
      else out = Returned () \<and> answered t = concat (replicate n provider_urls) \<and> length (closed t) = n)"

lemma consumer_round_makes: "all_paths consumer_round (rounds_made 1)"
  by (auto simp: rounds_made_def consumer_defs all_paths_bind all_paths_deferred provider_urls_def
      List.map_filter_simps get_of_def is_close_def split: option.split sum.split)

lemma consumer_makes: "all_paths (consumer n) (rounds_made n)"
proof (induction n)
  case 0
  show ?case by (simp add: rounds_made_def List.map_filter_simps)
next
  case (Suc n)
  show ?case unfolding consumer.simps
    by (rule all_paths_bindI [OF consumer_round_makes])
      (auto intro!: all_paths_mono [OF Suc.IH] simp: rounds_made_def split: if_splits)
qed

text \<open>The consumer's loop never ends by itself: for every number of rounds, a run in which no call
  fails goes through all of them, calling the three ports of the provider in turn, and a run in which a call fails
  ends with exit code 1.\<close>

theorem consumer_loop:
  assumes "accepts (consumer n) t out"
  shows "if list_ex reply_error t then out = Exited 1
    else out = Returned () \<and> answered t = concat (replicate n provider_urls)"
  using all_paths_accepts [OF consumer_makes assms] by (simp add: rounds_made_def split: if_splits)

text \<open>A round in which everything succeeds, the CA certificate being \<open>ca\<close>.\<close>

definition good_round :: "string \<Rightarrow> event list" where
  "good_round ca =
     [EvAsk (HttpGet None ''http://service-provider:8080/'') (Inr ''r1''), EvAsk (ReadAll ''r1'') (Inr ''no tls''),
      EvDo (CloseBody ''r1'') None, EvSleep 3,
      EvAsk (ReadFile ''./ca/ca.pem'') (Inr ca),
      EvAsk (HttpGet (Some (client_config ca [])) ''https://service-provider:8088/tls'') (Inr ''r2''),
      EvAsk (ReadAll ''r2'') (Inr ''tls''), EvSleep 3,
      EvAsk (ReadFile ''./ca/ca.pem'') (Inr ca),
      EvAsk (LoadX509KeyPair ''./keypair/tls.crt'' ''./keypair/tls.key'') (Inr ''pair''),
      EvAsk (HttpGet (Some (client_config ca [''pair''])) ''https://service-provider:8089/mtls'') (Inr ''r3''),
      EvAsk (ReadAll ''r3'') (Inr ''mtls''), EvSleep 3]"

abbreviation "one_round \<equiv> good_round ''CA''"

lemma accepts_one_round: "accepts (consumer 1) (good_round ca) (Returned ())"
  by (simp add: good_round_def consumer_defs)

lemma no_error_one_round: "\<not> list_ex reply_error one_round"
  by (simp add: good_round_def)

theorem consumer_loop_witness: "answered one_round = provider_urls"
  using consumer_loop [OF accepts_one_round] no_error_one_round by simp

text \<open>Of the three responses of a round only that of the plain request is closed: after \<open>n\<close> rounds
  \<open>3 * n\<close> responses were received and \<open>n\<close> of them closed.\<close>

theorem consumer_leaks:
  assumes "accepts (consumer n) t (Returned ())"
  shows "length (answered t) = 3 * n \<and> length (closed t) = n"
proof -
  have "length (concat (replicate n provider_urls)) = 3 * n"
    by (induction n) (simp_all add: provider_urls_def)
  then show ?thesis
    using all_paths_accepts [OF consumer_makes assms] by (simp add: rounds_made_def split: if_splits)
qed

theorem consumer_leaks_witness: "length (answered one_round) = 3 * 1 \<and> length (closed one_round) = 1"
  by (rule consumer_leaks [OF accepts_one_round])

subsection \<open>The consumer's requests\<close>

definition url_host :: "string \<Rightarrow> string" where
  "url_host url = takeWhile (\<lambda>c. c \<noteq> CHR '':'' \<and> c \<noteq> CHR ''/'') (drop 2 (dropWhile (\<lambda>c. c \<noteq> CHR ''/'') url))"

definition good_get :: "event list \<Rightarrow> tls_config option \<Rightarrow> string \<Rightarrow> bool" where
  "good_get t cfg url \<longleftrightarrow>
     url_host url = ''service-provider'' \<and>
     (take 6 url = ''https:'' \<longrightarrow> (\<exists>caCert keyPairs. cfg = Some (client_config caCert keyPairs) \<and>
        EvAsk (ReadFile ''./ca/ca.pem'') (Inr caCert) \<in> set t \<and>
        (url = ''https://service-provider:8089/mtls'' \<longrightarrow> (\<exists>pair. keyPairs = [pair] \<and>
           EvAsk (LoadX509KeyPair ''./keypair/tls.crt'' ''./keypair/tls.key'') (Inr pair) \<in> set t))))"

definition good_request :: "event list \<Rightarrow> event \<Rightarrow> bool" where
  "good_request t e \<longleftrightarrow>
     (case e of EvAsk q r \<Rightarrow> (case q of HttpGet cfg url \<Rightarrow> good_get t cfg url | _ \<Rightarrow> True) | _ \<Rightarrow> True)"

definition good_requests :: "event list \<Rightarrow> bool" where
  "good_requests t \<longleftrightarrow> list_all (good_request t) t"

lemma client_config_inject [simp]: "client_config a b = client_config c d \<longleftrightarrow> a = c \<and> b = d"
  by (auto simp: client_config_def zero_tls_config_def)

lemma good_get_mono: "good_get s cfg url \<Longrightarrow> set s \<subseteq> set t \<Longrightarrow> good_get t cfg url"
  by (auto simp: good_get_def)

lemma good_request_mono: "good_request s e \<Longrightarrow> set s \<subseteq> set t \<Longrightarrow> good_request t e"
  by (auto simp: good_request_def good_get_mono split: event.splits query.splits)

lemma good_requests_append: "good_requests s \<Longrightarrow> good_requests t \<Longrightarrow> good_requests (s @ t)"
  unfolding good_requests_def list_all_iff using good_request_mono [of _ _ "s @ t"] by auto

lemma good_requests_Nil [simp]: "good_requests []"
  by (simp add: good_requests_def)

lemma good_request_other [simp]:
  "good_request t (EvDo a ar)" "good_request t (EvSleep k)" "good_request t (EvAsk (ReadAll x) r)"
  "good_request t (EvAsk (ReadFile x) r)" "good_request t (EvAsk (LoadX509KeyPair x y) r)"
  by (simp_all add: good_request_def)

lemma url_hosts:
  "url_host ''http://service-provider:8080/'' = ''service-provider''"
  "url_host ''https://service-provider:8088/tls'' = ''service-provider''"
  "url_host ''https://service-provider:8089/mtls'' = ''service-provider''"
  by (simp_all add: url_host_def)

lemma good_request_gets [simp]:
  "good_request t (EvAsk (HttpGet None ''http://service-provider:8080/'') r)"
  "EvAsk (ReadFile ''./ca/ca.pem'') (Inr ca) \<in> set t \<Longrightarrow>
     good_request t (EvAsk (HttpGet (Some (client_config ca [])) ''https://service-provider:8088/tls'') r)"
  "EvAsk (ReadFile ''./ca/ca.pem'') (Inr ca) \<in> set t \<Longrightarrow>
     EvAsk (LoadX509KeyPair ''./keypair/tls.crt'' ''./keypair/tls.key'') (Inr pair) \<in> set t \<Longrightarrow>
     good_request t (EvAsk (HttpGet (Some (client_config ca [pair])) ''https://service-provider:8089/mtls'') r)"
  by (auto simp: good_request_def good_get_def url_hosts)

lemma consumer_round_requests: "all_paths consumer_round (\<lambda>t _. good_requests t)"
  by (auto simp: consumer_defs all_paths_bind all_paths_deferred good_requests_def
      split: option.split sum.split)

lemma consumer_gets:
  assumes "accepts (consumer n) t out" and "EvAsk (HttpGet cfg url) r \<in> set t"
  shows "good_get t cfg url"
proof -
  have "all_paths (consumer n) (\<lambda>t _. good_requests t)"
    by (induction n)
      (auto intro!: all_paths_bind_closed [where I = good_requests, OF consumer_round_requests _ good_requests_append])
  from all_paths_accepts [OF this assms(1)] have "good_requests t" .
  with assms(2) have "good_request t (EvAsk (HttpGet cfg url) r)" by (auto simp: good_requests_def list_all_iff)
  then show ?thesis by (simp add: good_request_def)
qed

text \<open>The consumer sends every request to the host service-provider, a name the generated server
  certificate carries; over HTTPS it trusts exactly the CA certificate it has read, and it
  presents its key pair to the port that requires one.\<close>

theorem consumer_requests:
  assumes "accepts (consumer n) t out" and "EvAsk (HttpGet cfg url) r \<in> set t"
  shows "url_host url \<in> set (DNSNames (server_template serial now now')) \<and>
    (take 6 url = ''https:'' \<longrightarrow> (\<exists>caCert. RootCAs (the cfg) = Some [caCert] \<and>
       EvAsk (ReadFile ''./ca/ca.pem'') (Inr caCert) \<in> set t)) \<and>
    (url = ''https://service-provider:8089/mtls'' \<longrightarrow> (\<exists>pair. Certificates (the cfg) = [pair] \<and>
       EvAsk (LoadX509KeyPair ''./keypair/tls.crt'' ''./keypair/tls.key'') (Inr pair) \<in> set t))"
  using consumer_gets [OF assms] by (auto simp: good_get_def server_template_def client_config_def)

theorem consumer_requests_witness:
  "\<exists>caCert. EvAsk (ReadFile ''./ca/ca.pem'') (Inr caCert) \<in> set one_round"
proof -
  have "EvAsk (HttpGet (Some (client_config ''CA'' [])) ''https://service-provider:8088/tls'') (Inr ''r2'') \<in> set one_round"
    by (simp add: good_round_def)
  from consumer_requests [OF accepts_one_round this, of 1 "GoTime 2025 1 1 0" "GoTime 2025 1 1 0",
      THEN conjunct2, THEN conjunct1] show ?thesis by simp blast
qed

end
