(* ===== verification/Mtls_Handshake.thy ===== *)
theory Mtls_Handshake
  imports Mtls_Chain Mtls_Services
begin

text \<open>
  The mutual TLS connection of the demo: the generator writes the files, service-provider and
  service-consumer read them from where they are mounted, and the connection is made.  Of Go's
  crypto/tls and crypto/x509 this needs the pair of certificate and key (\<open>X509KeyPair\<close>),
  the verification of a chain (\<open>x509_Verify\<close>) and what the two sides of a handshake check
  (\<open>tls_handshake\<close>).  The certificates that exist are the signatures of the generator.
\<close>

subsection \<open>Verifying a chain\<close>

abbreviation der :: "signature \<Rightarrow> string" where
  "der s \<equiv> snd (snd (snd (snd s)))"

definition cert_of :: "signature list \<Rightarrow> string \<Rightarrow> signature option" where
  "cert_of known d = find (\<lambda>s. der s = d) known"

definition valid_at :: "go_time \<Rightarrow> signature \<Rightarrow> bool" where
  "valid_at now s \<longleftrightarrow> NotBefore (fst s) \<le> now \<and> now \<le> NotAfter (fst s)"

text \<open>A certificate without extended usages may be used for anything.\<close>

definition usage_ok :: "ext_key_usage \<Rightarrow> signature \<Rightarrow> bool" where
  "usage_ok u s \<longleftrightarrow> X_ExtKeyUsage (fst s) = [] \<or> u \<in> set (X_ExtKeyUsage (fst s))"

definition acceptable :: "go_time \<Rightarrow> ext_key_usage \<Rightarrow> signature \<Rightarrow> bool" where
  "acceptable now u s \<longleftrightarrow> valid_at now s \<and> usage_ok u s"

text \<open>A path from a certificate over at most \<open>n - 1\<close> intermediates of the pool to one of the roots.\<close>

fun verify_path :: "signature list \<Rightarrow> string list \<Rightarrow> string list \<Rightarrow> go_time \<Rightarrow> ext_key_usage \<Rightarrow> nat \<Rightarrow> signature \<Rightarrow> bool" where
  "verify_path known roots pool now u 0 c = False"
| "verify_path known roots pool now u (Suc n) c \<longleftrightarrow> acceptable now u c \<and>
     (list_ex (\<lambda>d. case cert_of known d of None \<Rightarrow> False | Some r \<Rightarrow> signed_by c r \<and> acceptable now u r) roots \<or>
      list_ex (\<lambda>d. case cert_of known d of None \<Rightarrow> False | Some i \<Rightarrow>
        signed_by c i \<and> verify_path known roots pool now u n i) pool)"

text \<open>The first certificate of a chain is the leaf, the others are the pool of intermediates.\<close>

definition x509_Verify :: "signature list \<Rightarrow> string list \<Rightarrow> go_time \<Rightarrow> ext_key_usage \<Rightarrow> string option \<Rightarrow> string list \<Rightarrow> bool" where
  "x509_Verify known roots now u host chain =
     (case chain of [] \<Rightarrow> False | d # pool \<Rightarrow>
      case cert_of known d of None \<Rightarrow> False | Some leaf \<Rightarrow>
        (case host of None \<Rightarrow> True | Some h \<Rightarrow> h \<in> set (DNSNames (fst leaf))) \<and>
        verify_path known roots pool now u (Suc (length pool)) leaf)"

subsection \<open>Key pairs and the handshake\<close>

definition pem_certs :: "string \<Rightarrow> string list" where
  "pem_certs pem = map Block_Bytes (filter (\<lambda>b. Block_Type b = ''CERTIFICATE'') (pem_blocks pem))"

type_synonym tls_certificate = "string list \<times> private_key"

text \<open>\<^verbatim>\<open>tls.X509KeyPair\<close>: the certificates of the one text, the key of the other, which must belong to
  the first certificate.  The marshalled keys that exist are given with their keys.\<close>

definition X509KeyPair :: "signature list \<Rightarrow> (private_key \<times> string) list \<Rightarrow> string \<Rightarrow> string \<Rightarrow> tls_certificate option" where
  "X509KeyPair known keys certPem keyPem =
     (case pem_certs certPem of [] \<Rightarrow> None | d # rest \<Rightarrow>
      case find (\<lambda>b. Block_Type b = ''EC PRIVATE KEY'') (pem_blocks keyPem) of None \<Rightarrow> None | Some b \<Rightarrow>
      case find (\<lambda>x. snd x = Block_Bytes b) keys of None \<Rightarrow> None | Some (k, _) \<Rightarrow>
      case cert_of known d of None \<Rightarrow> None | Some (tm, p, pub, s, _) \<Rightarrow>
        if pub = Public k then Some (d # rest, k) else None)"

definition pool_of :: "string list option \<Rightarrow> string list" where
  "pool_of pool = (case pool of None \<Rightarrow> [] | Some pems \<Rightarrow> concat (map pem_certs pems))"

text \<open>What the two sides check: the client that the server's chain leads to one of its root CAs and
  names the host, the server, if it asks for a certificate, that the client's chain leads to one of its
  client CAs.  \<open>load_c\<close> and \<open>load_s\<close> give the key pairs the configurations hold.\<close>

definition tls_handshake :: "signature list \<Rightarrow> (string \<Rightarrow> tls_certificate option) \<Rightarrow> (string \<Rightarrow> tls_certificate option) \<Rightarrow>
    go_time \<Rightarrow> string \<Rightarrow> tls_config \<Rightarrow> tls_config \<Rightarrow> bool" where
  "tls_handshake known load_c load_s now host ccfg scfg \<longleftrightarrow>
     MinVersion scfg \<le> 0x0304 \<and>
     (case Certificates scfg of [] \<Rightarrow> False | pair # _ \<Rightarrow>
        (case load_s pair of None \<Rightarrow> False | Some (chain, key) \<Rightarrow>
           x509_Verify known (pool_of (RootCAs ccfg)) now ExtKeyUsageServerAuth (Some host) chain)) \<and>
     (ClientAuth_Mode scfg = RequireAndVerifyClientCert \<longrightarrow>
        (case Certificates ccfg of [] \<Rightarrow> False | pair # _ \<Rightarrow>
           (case load_c pair of None \<Rightarrow> False | Some (chain, key) \<Rightarrow>
              x509_Verify known (pool_of (ClientCAs scfg)) now ExtKeyUsageClientAuth None chain)))"

subsection \<open>The files where they are mounted\<close>

text \<open>What a service reads is what is in its files, and a key pair it loads is made from them.\<close>

definition reads_files :: "signature list \<Rightarrow> (private_key \<times> string) list \<Rightarrow> (string \<Rightarrow> tls_certificate option) \<Rightarrow> files \<Rightarrow>
    event list \<Rightarrow> bool" where
  "reads_files known keys loaded fs t \<longleftrightarrow>
     (\<forall>f c. EvAsk (ReadFile f) (Inr c) \<in> set t \<longrightarrow> fs f = Some c) \<and>
     (\<forall>cf kf pair. EvAsk (LoadX509KeyPair cf kf) (Inr pair) \<in> set t \<longrightarrow>
        (\<exists>cert key. fs cf = Some cert \<and> fs kf = Some key \<and> loaded pair = X509KeyPair known keys cert key))"

text \<open>A deployment that puts the generated files where a service reads them: the CA certificate under
  the name the service uses, its own chain and key as \<^verbatim>\<open>tls.crt\<close> and \<^verbatim>\<open>tls.key\<close>.  The provider's CA file is
  \<^verbatim>\<open>client-ca.pem\<close>, the certName of the sample InternalClientCA; the compose file and the manifests
  of the repository only provide \<^verbatim>\<open>ca.pem\<close>, with which the provider ends (\<open>provider_needs_client_ca\<close>).\<close>

definition mounted :: "files \<Rightarrow> string \<Rightarrow> string \<Rightarrow> string \<Rightarrow> files \<Rightarrow> bool" where
  "mounted out caFile chainFile keyFile fs \<longleftrightarrow> fs caFile = out ''./artifacts/ca.pem'' \<and>
     fs ''./keypair/tls.crt'' = out chainFile \<and> fs ''./keypair/tls.key'' = out keyFile"

text \<open>DER is an encoding: what is marshalled can be told from the result.\<close>

definition der_injective :: "event list \<Rightarrow> bool" where
  "der_injective t \<longleftrightarrow>
     (\<forall>s \<in> set (signatures t). \<forall>s' \<in> set (signatures t). snd (snd (snd (snd s))) = snd (snd (snd (snd s'))) \<longrightarrow>
        X_Subject (fst s) = X_Subject (fst s')) \<and>
     (\<forall>x \<in> set (key_bytes t). \<forall>y \<in> set (key_bytes t). snd x = snd y \<longrightarrow> fst x = fst y)"

lemma find_unique:
  assumes "x \<in> set xs" and "P x" and "\<And>y. y \<in> set xs \<Longrightarrow> P y \<Longrightarrow> y = x"
  shows "find P xs = Some x"
proof (cases "find P xs")
  case None
  with assms(1,2) show ?thesis by (auto simp: find_None_iff)
next
  case (Some y)
  then have "y \<in> set xs" "P y" by (auto simp: find_Some_iff)
  with assms(3) Some show ?thesis by simp
qed

text \<open>The four certificates have different subjects.\<close>

lemma four_subjects:
  "inj_on (\<lambda>s. X_Subject (fst s)) (set [(ca_template n1 a1 b1, r1), (interm_template n2 a2 b2, r2),
     (server_template n3 a3 b3, r3), (client_template n4 a4 b4, r4)])"
proof -
  have "X_Subject (ca_template n1 a1 b1) = pkix_sh ''sip.com'' ''ca'' ''ca.sip.com''"
    "X_Subject (interm_template n2 a2 b2) = pkix_sh ''intermediate.com'' ''ca'' ''ca.intermediate.com''"
    "X_Subject (server_template n3 a3 b3) = pkix_sh ''server.com'' ''test'' ''test.server.com''"
    "X_Subject (client_template n4 a4 b4) = pkix_sh ''client.com'' ''test'' ''test.client.com''"
    by (simp_all add: ca_template_def interm_template_def server_template_def client_template_def)
  then show ?thesis by (simp add: inj_on_def pkix_sh_def)
qed

text \<open>A run of the generator, seen from its results: what Go's libraries make of the four
  certificates and of the files.\<close>

lemma generated:
  assumes gen: "accepts mtls_main t (Returned ())" "fs_run fs t out" "x509_contract t" and inj: "der_injective t"
  obtains root interm server client ks kc sk ck where
    "set (signatures t) = {root, interm, server, client}"
    "cert_of (signatures t) (der root) = Some root" "cert_of (signatures t) (der interm) = Some interm"
    "cert_of (signatures t) (der server) = Some server" "cert_of (signatures t) (der client) = Some client"
    "signed_by interm root" "signed_by server interm" "signed_by client interm"
    "X_ExtKeyUsage (fst root) = []" "X_ExtKeyUsage (fst interm) = []"
    "X_ExtKeyUsage (fst server) = [ExtKeyUsageServerAuth]" "X_ExtKeyUsage (fst client) = [ExtKeyUsageClientAuth]"
    "''service-provider'' \<in> set (DNSNames (fst server))"
    "out ''./artifacts/ca.pem'' = Some (cert_pem (der root))"
    "out ''./artifacts/server-chain.pem'' = Some (cert_pem (der server) @ cert_pem (der interm))"
    "out ''./artifacts/client-chain.pem'' = Some (cert_pem (der client) @ cert_pem (der interm))"
    "out ''./artifacts/server-key.pem'' = Some (key_pem sk)" "out ''./artifacts/client-key.pem'' = Some (key_pem ck)"
    "X509KeyPair (signatures t) (key_bytes t) (cert_pem (der server) @ cert_pem (der interm)) (key_pem sk) =
       Some ([der server, der interm], ks)"
    "X509KeyPair (signatures t) (key_bytes t) (cert_pem (der client) @ cert_pem (der interm)) (key_pem ck) =
       Some ([der client, der interm], kc)"
proof (rule mtls_made [OF gen])
  fix n1 n2 n3 n4 a1 b1 a2 b2 a3 b3 a4 b4 and c2 c3 c4 :: x509_cert
    and k1 k2 k3 k4 d1 d2 d3 d4 kb1 kb2 kb3 kb4 :: string
  let ?root = "(ca_template n1 a1 b1, ca_template n1 a1 b1, Public k1, k1, d1)"
  let ?interm = "(interm_template n2 a2 b2, c2, Public k2, k1, d2)"
  let ?server = "(server_template n3 a3 b3, c3, Public k3, k2, d3)"
  let ?client = "(client_template n4 a4 b4, c4, Public k4, k2, d4)"
  assume keys: "key_bytes t = [(k1, kb1), (k2, kb2), (k3, kb3), (k4, kb4)]"
    and sigs: "signatures t = [?root, ?interm, ?server, ?client]" and pki: "pki (signatures t)"
    and files: "out ''./artifacts/ca.pem'' = Some (cert_pem d1)"
      "out ''./artifacts/server-chain.pem'' = Some (cert_pem d3 @ cert_pem d2)"
      "out ''./artifacts/client-chain.pem'' = Some (cert_pem d4 @ cert_pem d2)"
      "out ''./artifacts/server-key.pem'' = Some (key_pem kb3)"
      "out ''./artifacts/client-key.pem'' = Some (key_pem kb4)"
  have subjects: "s = s'" if "s \<in> set (signatures t)" "s' \<in> set (signatures t)" "der s = der s'" for s s'
  proof -
    from inj that have "X_Subject (fst s) = X_Subject (fst s')" unfolding der_injective_def by blast
    moreover have "inj_on (\<lambda>s. X_Subject (fst s)) (set (signatures t))"
      unfolding sigs by (rule four_subjects)
    ultimately show ?thesis using that(1,2) unfolding inj_on_def by blast
  qed
  have cert: "cert_of (signatures t) (der s) = Some s" if "s \<in> set (signatures t)" for s
    unfolding cert_of_def by (rule find_unique [OF that refl]) (rule subjects [OF _ that])
  have key: "find (\<lambda>x. snd x = snd y) (key_bytes t) = Some y" if "y \<in> set (key_bytes t)" for y
  proof (rule find_unique [OF that])
    fix x assume "x \<in> set (key_bytes t)" "snd x = snd y"
    moreover from this that inj have "fst x = fst y" unfolding der_injective_def by blast
    ultimately show "x = y" by (simp add: prod_eq_iff)
  qed simp
  have certs: "cert_of (signatures t) d1 = Some ?root" "cert_of (signatures t) d2 = Some ?interm"
      "cert_of (signatures t) d3 = Some ?server" "cert_of (signatures t) d4 = Some ?client"
    using cert [of ?root] cert [of ?interm] cert [of ?server] cert [of ?client] by (simp_all add: sigs)
  have "find (\<lambda>x. snd x = kb3) (key_bytes t) = Some (k3, kb3)" "find (\<lambda>x. snd x = kb4) (key_bytes t) = Some (k4, kb4)"
    using key [of "(k3, kb3)"] key [of "(k4, kb4)"] by (simp_all add: keys)
  with certs(3,4) have pairs:
    "X509KeyPair (signatures t) (key_bytes t) (cert_pem d3 @ cert_pem d2) (key_pem kb3) = Some ([d3, d2], k3)"
    "X509KeyPair (signatures t) (key_bytes t) (cert_pem d4 @ cert_pem d2) (key_pem kb4) = Some ([d4, d2], k4)"
    by (simp_all add: X509KeyPair_def pem_certs_def)
  have all: "set (signatures t) = {?root, ?interm, ?server, ?client}" by (simp add: sigs)
  have signed: "signed_by ?interm ?root" "signed_by ?server ?interm" "signed_by ?client ?interm"
    using pki unfolding sigs pki_def by blast+
  have leaves: "X_ExtKeyUsage (ca_template n1 a1 b1) = []" "X_ExtKeyUsage (interm_template n2 a2 b2) = []"
    "X_ExtKeyUsage (server_template n3 a3 b3) = [ExtKeyUsageServerAuth]"
    "X_ExtKeyUsage (client_template n4 a4 b4) = [ExtKeyUsageClientAuth]"
    "''service-provider'' \<in> set (DNSNames (server_template n3 a3 b3))"
    by (simp_all add: ca_template_def interm_template_def server_template_def client_template_def)
  show thesis
    by (rule that [of ?root ?interm ?server ?client kb3 kb4 k3 k4]) (simp_all add: all certs signed leaves files pairs)
qed

subsection \<open>The connection of the demo\<close>

text \<open>A leaf sent with its intermediate verifies against the root that signed the intermediate.\<close>

lemma verify_two:
  assumes "cert_of known (der leaf) = Some leaf" "cert_of known (der interm) = Some interm"
    "cert_of known (der root) = Some root" "signed_by leaf interm" "signed_by interm root"
    "acceptable now u leaf" "acceptable now u interm" "acceptable now u root"
    "\<And>h. host = Some h \<Longrightarrow> h \<in> set (DNSNames (fst leaf))"
  shows "x509_Verify known [der root] now u host [der leaf, der interm]"
  using assms by (simp add: x509_Verify_def numeral_2_eq_2 split: option.split)

text \<open>What a service has read of the mounted files is what the generator wrote.\<close>

lemma mounted_reads:
  assumes "reads_files known keys loaded fs t" and "mounted out caFile chainFile keyFile fs"
    and "EvAsk (ReadFile caFile) (Inr ca) \<in> set t"
    and "EvAsk (LoadX509KeyPair ''./keypair/tls.crt'' ''./keypair/tls.key'') (Inr pair) \<in> set t"
    and "out ''./artifacts/ca.pem'' = Some ca'" and "out chainFile = Some chain" and "out keyFile = Some key"
  shows "ca = ca'" "loaded pair = X509KeyPair known keys chain key"
proof -
  from assms(1,3) have "fs caFile = Some ca" unfolding reads_files_def by blast
  with assms(2,5) show "ca = ca'" by (simp add: mounted_def)
  from assms(1,4) obtain chain' key' where "fs ''./keypair/tls.crt'' = Some chain'"
      "fs ''./keypair/tls.key'' = Some key'" "loaded pair = X509KeyPair known keys chain' key'"
    unfolding reads_files_def by blast
  with assms(2,6,7) show "loaded pair = X509KeyPair known keys chain key" by (simp add: mounted_def)
qed

lemma pool_of_one [simp]: "pool_of (Some [cert_pem d]) = [d]"
  by (simp add: pool_of_def pem_certs_def)

lemma config_sels [simp]:
  "RootCAs (client_config ca pairs) = Some [ca]" "Certificates (client_config ca pairs) = pairs"
  "ClientCAs (mtls_tlsConfig ca pair) = Some [ca]" "Certificates (mtls_tlsConfig ca pair) = [pair]"
  "ClientAuth_Mode (mtls_tlsConfig ca pair) = RequireAndVerifyClientCert"
  "MinVersion (mtls_tlsConfig ca pair) = VersionTLS12"
  by (simp_all add: client_config_def mtls_tlsConfig_def zero_tls_config_def)

text \<open>C18: the files of one run of the generator, put where the services read them, make the demo's mutual TLS
  work: whenever the provider serves its /mtls route, in any interleaving of its servers, and the
  consumer, in any round, calls it, both sides accept each other's certificates as long as all four are valid; the
  server's leads over the intermediate CA to the root the client trusts and names the requested host, and the client's
  leads to the root in the server's client CA pool.\<close>

theorem mtls_handshake:
  assumes "accepts mtls_main t (Returned ())" and "fs_run fs t out" and "x509_contract t" and "der_injective t"
    and valid: "list_all (valid_at now) (signatures t)"
    and pmount: "mounted out ''./ca/client-ca.pem'' ''./artifacts/server-chain.pem'' ''./artifacts/server-key.pem'' pfs"
    and cmount: "mounted out ''./ca/ca.pem'' ''./artifacts/client-chain.pem'' ''./artifacts/client-key.pem'' cfs"
    and provider: "exec provider_body (start provider_main) ms = Some p" "i < length (threads p)"
      "threads p ! i = Do (Serve s) k"
    and route: "answer s ''/mtls'' \<noteq> None"
    and preads: "reads_files (signatures t) (key_bytes t) load_s pfs (all_calls ms)"
    and consumer: "accepts (consumer n) u r" "EvAsk (HttpGet cfg ''https://service-provider:8089/mtls'') resp \<in> set u"
    and creads: "reads_files (signatures t) (key_bytes t) load_c cfs u"
  shows "\<exists>scfg. Transport s = TLSConfigured scfg \<and>
    tls_handshake (signatures t) load_c load_s now (url_host ''https://service-provider:8089/mtls'') (the cfg) scfg"
proof -
  from generated [OF assms(1-4)] obtain root interm server client ks kc sk ck where
    all: "set (signatures t) = {root, interm, server, client}" and
    known: "cert_of (signatures t) (der root) = Some root" "cert_of (signatures t) (der interm) = Some interm"
      "cert_of (signatures t) (der server) = Some server" "cert_of (signatures t) (der client) = Some client" and
    signed: "signed_by interm root" "signed_by server interm" "signed_by client interm" and
    usages: "X_ExtKeyUsage (fst root) = []" "X_ExtKeyUsage (fst interm) = []"
      "X_ExtKeyUsage (fst server) = [ExtKeyUsageServerAuth]" "X_ExtKeyUsage (fst client) = [ExtKeyUsageClientAuth]" and
    host: "''service-provider'' \<in> set (DNSNames (fst server))" and
    files: "out ''./artifacts/ca.pem'' = Some (cert_pem (der root))"
      "out ''./artifacts/server-chain.pem'' = Some (cert_pem (der server) @ cert_pem (der interm))"
      "out ''./artifacts/client-chain.pem'' = Some (cert_pem (der client) @ cert_pem (der interm))"
      "out ''./artifacts/server-key.pem'' = Some (key_pem sk)" "out ''./artifacts/client-key.pem'' = Some (key_pem ck)" and
    pairs: "X509KeyPair (signatures t) (key_bytes t) (cert_pem (der server) @ cert_pem (der interm)) (key_pem sk) =
       Some ([der server, der interm], ks)"
      "X509KeyPair (signatures t) (key_bytes t) (cert_pem (der client) @ cert_pem (der interm)) (key_pem ck) =
       Some ([der client, der interm], kc)" .
  from valid all have ok: "acceptable now ExtKeyUsageServerAuth x" if "x \<in> {root, interm, server}" for x
    using that usages by (auto simp: acceptable_def usage_ok_def list_all_iff)
  from valid all have ok': "acceptable now ExtKeyUsageClientAuth x" if "x \<in> {root, interm, client}" for x
    using that usages by (auto simp: acceptable_def usage_ok_def list_all_iff)
  from provider_running [OF provider] route obtain ca pair where s: "s = mtls_server ca pair" and
    sread: "EvAsk (ReadFile ''./ca/client-ca.pem'') (Inr ca) \<in> set (all_calls ms)"
    "EvAsk (LoadX509KeyPair ''./keypair/tls.crt'' ''./keypair/tls.key'') (Inr pair) \<in> set (all_calls ms)"
    using calls_of_subset [of _ i ms] by (auto simp: known_server_def answer_def plain_server_def tls_server_def)
  have server: "ca = cert_pem (der root)" "load_s pair = Some ([der server, der interm], ks)"
    using mounted_reads [OF preads pmount sread files(1,2,4)] pairs(1) by simp_all
  from consumer_gets [OF consumer] obtain ca' pair' where cfg: "cfg = Some (client_config ca' [pair'])" and
    cread: "EvAsk (ReadFile ''./ca/ca.pem'') (Inr ca') \<in> set u"
    "EvAsk (LoadX509KeyPair ''./keypair/tls.crt'' ''./keypair/tls.key'') (Inr pair') \<in> set u"
    by (auto simp: good_get_def)
  have client: "ca' = cert_pem (der root)" "load_c pair' = Some ([der client, der interm], kc)"
    using mounted_reads [OF creads cmount cread files(1,3,5)] pairs(2) by simp_all
  have "tls_handshake (signatures t) load_c load_s now ''service-provider'' (client_config ca' [pair']) (mtls_tlsConfig ca pair)"
    using server client host
    by (auto simp: tls_handshake_def VersionTLS12_def intro!: verify_two known signed ok ok')
  then show ?thesis by (simp add: s cfg mtls_server_def url_hosts)
qed

text \<open>The sample run of the generator, mounted.\<close>

lemma mtls_good_made:
  "signatures mtls_good =
     [(sample_ca_cert, sample_ca_cert, Public ''k1'', ''k1'', ''d1''),
      (sample_interm_cert, parsed_as sample_ca_cert ''k1'', Public ''k2'', ''k1'', ''d2''),
      (server_template 3 sample_time sample_time, parsed_as sample_interm_cert ''k2'', Public ''k3'', ''k2'', ''d3''),
      (client_template 4 sample_time sample_time, parsed_as sample_interm_cert ''k2'', Public ''k4'', ''k2'', ''d4'')]"
  "key_bytes mtls_good = [(''k1'', ''b1''), (''k2'', ''b2''), (''k3'', ''b3''), (''k4'', ''b4'')]"
  by (simp_all add: mtls_good_def mtls_sample_defs List.map_filter_simps signature_of_def key_bytes_of_def)

lemma der_injective_mtls_good: "der_injective mtls_good"
  by (simp add: der_injective_def mtls_good_made)

lemma valid_mtls_good: "list_all (valid_at sample_time) (signatures mtls_good)"
  by (simp add: mtls_good_made valid_at_def sample_ca_cert_def sample_interm_cert_def ca_template_def interm_template_def
      server_template_def client_template_def sample_time_def less_eq_go_time_def time_key_def)

definition mounted_files :: "files \<Rightarrow> string \<Rightarrow> string \<Rightarrow> string \<Rightarrow> files" where
  "mounted_files out caFile chainFile keyFile = Map.empty(caFile := out ''./artifacts/ca.pem'',
     ''./keypair/tls.crt'' := out chainFile, ''./keypair/tls.key'' := out keyFile)"

lemma mtls_good_files:
  assumes "fs_run Map.empty mtls_good out"
  shows "out ''./artifacts/ca.pem'' = Some (cert_pem ''d1'') \<and>
    out ''./artifacts/server-chain.pem'' = Some (cert_pem ''d3'' @ cert_pem ''d2'') \<and>
    out ''./artifacts/client-chain.pem'' = Some (cert_pem ''d4'' @ cert_pem ''d2'') \<and>
    out ''./artifacts/server-key.pem'' = Some (key_pem ''b3'') \<and>
    out ''./artifacts/client-key.pem'' = Some (key_pem ''b4'')"
  using assms by (simp add: mtls_good_def mtls_sample_defs fs_run_Cons)

theorem mtls_handshake_witness:
  "\<exists>load_c load_s scfg. Transport (mtls_server (cert_pem ''d1'') ''pair'') = TLSConfigured scfg \<and>
    tls_handshake (signatures mtls_good) load_c load_s sample_time ''service-provider''
      (client_config (cert_pem ''d1'') [''pair'']) scfg"
proof -
  from fs_run_mtls_good obtain out where out: "fs_run Map.empty mtls_good out" by blast
  note made = mtls_good_files [OF out]
  let ?pair = "X509KeyPair (signatures mtls_good) (key_bytes mtls_good)"
  let ?pfs = "mounted_files out ''./ca/client-ca.pem'' ''./artifacts/server-chain.pem'' ''./artifacts/server-key.pem''"
  let ?cfs = "mounted_files out ''./ca/ca.pem'' ''./artifacts/client-chain.pem'' ''./artifacts/client-key.pem''"
  let ?load_s = "\<lambda>_. ?pair (cert_pem ''d3'' @ cert_pem ''d2'') (key_pem ''b3'')"
  let ?load_c = "\<lambda>_. ?pair (cert_pem ''d4'' @ cert_pem ''d2'') (key_pem ''b4'')"
  from provider_up [of "cert_pem ''d1''"] obtain p k where p: "exec provider_body (start provider_main) (provider_up (cert_pem ''d1'')) = Some p"
      "0 < length (threads p)" "threads p ! 0 = Do (Serve (mtls_server (cert_pem ''d1'') ''pair'')) k" by blast
  have reads: "reads_files (signatures mtls_good) (key_bytes mtls_good) ?load_s ?pfs (all_calls (provider_up (cert_pem ''d1'')))"
      "reads_files (signatures mtls_good) (key_bytes mtls_good) ?load_c ?cfs (good_round (cert_pem ''d1''))"
    using made by (auto simp: reads_files_def provider_up_def good_round_def mounted_files_def)
  have mounts: "mounted out ''./ca/client-ca.pem'' ''./artifacts/server-chain.pem'' ''./artifacts/server-key.pem'' ?pfs"
      "mounted out ''./ca/ca.pem'' ''./artifacts/client-chain.pem'' ''./artifacts/client-key.pem'' ?cfs"
    by (simp_all add: mounted_def mounted_files_def)
  have route: "answer (mtls_server (cert_pem ''d1'') ''pair'') ''/mtls'' \<noteq> None" by (simp add: answer_def mtls_server_def)
  have get: "EvAsk (HttpGet (Some (client_config (cert_pem ''d1'') [''pair''])) ''https://service-provider:8089/mtls'')
      (Inr ''r3'') \<in> set (good_round (cert_pem ''d1''))" by (simp add: good_round_def)
  from mtls_handshake [OF accepts_mtls_good out x509_contract_mtls_good der_injective_mtls_good valid_mtls_good mounts p
      route reads(1) accepts_one_round get reads(2)]
  show ?thesis unfolding url_hosts option.sel by blast
qed

end
