(* ===== verification/Go_Memory.thy ===== *)
theory Go_Memory
  imports Sip_Prelude
begin

text \<open>
  Go's memory as far as copying an API object needs it: variables reached through pointers,
  arrays that slices share, and the memory the metadata of an object refers to, which only
  apimachinery reads and writes (\<open>cells\<close>).  New memory is always appended, so an address is never
  used twice.  A panic (nil or an index out of range) is \<open>None\<close>.
\<close>

subsection \<open>Variables, arrays and slices\<close>

datatype go_ptr = Var nat | Elem nat nat

record slice =
  Slice_Arr :: nat
  Slice_Off :: nat
  Slice_Len :: nat

record ('a, 'l, 'c) memory =
  vars :: "'a list"
  arrays :: "'a list list"
  list_vars :: "'l list"
  cells :: "'c list"

fun load :: "go_ptr \<Rightarrow> ('a, 'l, 'c) memory \<Rightarrow> 'a option" where
  "load (Var i) m = go_index (vars m) i"
| "load (Elem a i) m = (case go_index (arrays m) a of None \<Rightarrow> None | Some xs \<Rightarrow> go_index xs i)"

fun put :: "go_ptr \<Rightarrow> 'a \<Rightarrow> ('a, 'l, 'c) memory \<Rightarrow> ('a, 'l, 'c) memory" where
  "put (Var i) x m = m\<lparr>vars := (vars m)[i := x]\<rparr>"
| "put (Elem a i) x m = m\<lparr>arrays := (arrays m)[a := (arrays m ! a)[i := x]]\<rparr>"

text \<open>An assignment through the pointer \<^verbatim>\<open>out\<close> of a value made from what \<^verbatim>\<open>in\<close> and \<^verbatim>\<open>out\<close> point to.\<close>

definition assign :: "('a \<Rightarrow> 'a \<Rightarrow> 'a) \<Rightarrow> go_ptr \<Rightarrow> go_ptr \<Rightarrow> ('a, 'l, 'c) memory \<Rightarrow> ('a, 'l, 'c) memory option" where
  "assign f inp out m =
     (case load inp m of None \<Rightarrow> None | Some i \<Rightarrow>
      case load out m of None \<Rightarrow> None | Some j \<Rightarrow> Some (put out (f i j) m))"

text \<open>The same with a part that a function of apimachinery copies.\<close>

type_synonym ('o, 'c) copier = "'o \<Rightarrow> 'c list \<Rightarrow> 'o \<times> 'c list"

definition assign_copy :: "('o, 'c) copier \<Rightarrow> ('a \<Rightarrow> 'o) \<Rightarrow> ('o \<Rightarrow> 'a \<Rightarrow> 'a) \<Rightarrow>
    go_ptr \<Rightarrow> go_ptr \<Rightarrow> ('a, 'l, 'c) memory \<Rightarrow> ('a, 'l, 'c) memory option" where
  "assign_copy copy part set_part inp out m =
     (case load inp m of None \<Rightarrow> None | Some i \<Rightarrow>
      case load out m of None \<Rightarrow> None | Some j \<Rightarrow>
      (let (v, cs) = copy (part i) (cells m) in Some (put out (set_part v j) (m\<lparr>cells := cs\<rparr>))))"

text \<open>Statements one after the other.\<close>

definition seq :: "('m \<Rightarrow> 'm option) \<Rightarrow> ('m \<Rightarrow> 'm option) \<Rightarrow> 'm \<Rightarrow> 'm option" where
  "seq f g m = (case f m of None \<Rightarrow> None | Some m' \<Rightarrow> g m')"

text \<open>The generated \<^verbatim>\<open>DeepCopy\<close>: nil for nil, otherwise a new variable that \<^verbatim>\<open>DeepCopyInto\<close> fills.\<close>

type_synonym ('a, 'l, 'c) copy_into =
  "go_ptr \<Rightarrow> go_ptr \<Rightarrow> ('a, 'l, 'c) memory \<Rightarrow> ('a, 'l, 'c) memory option"

definition new_copy :: "'a \<Rightarrow> ('a, 'l, 'c) copy_into \<Rightarrow> go_ptr option \<Rightarrow> ('a, 'l, 'c) memory \<Rightarrow>
    (go_ptr option \<times> ('a, 'l, 'c) memory) option" where
  "new_copy zero into inp m =
     (case inp of None \<Rightarrow> Some (None, m) | Some p \<Rightarrow>
       (let out = Var (length (vars m)) in
        map_option (\<lambda>m'. (Some out, m')) (into p out (m\<lparr>vars := vars m @ [zero]\<rparr>))))"

lemma load_put_same [simp]: "load p m = Some y \<Longrightarrow> load p (put p x m) = Some x"
  by (cases p) (auto simp: go_index_def split: option.splits if_splits)

lemma load_put_other [simp]:
  assumes "p \<noteq> q"
  shows "load p (put q x m) = load p m"
proof (cases q)
  case (Var i)
  with assms show ?thesis by (cases p) (auto simp: go_index_def)
next
  case (Elem a i)
  show ?thesis
  proof (cases "a < length (arrays m)")
    case True
    with assms Elem show ?thesis
      by (cases p) (auto simp: go_index_def nth_list_update split: if_splits)
  qed (cases p; simp add: Elem list_update_beyond)
qed

lemma load_cells [simp]: "load p (m\<lparr>cells := cs\<rparr>) = load p m"
  by (cases p) simp_all

lemma put_put [simp]: "put p x (put p y m) = put p x m"
proof (cases p)
  case (Elem a i)
  then show ?thesis by (cases "a < length (arrays m)") (simp_all add: list_update_beyond)
qed simp

lemma put_parts [simp]:
  "cells (put p x m) = cells m" "list_vars (put p x m) = list_vars m"
  "put p x (m\<lparr>cells := cs\<rparr>) = (put p x m)\<lparr>cells := cs\<rparr>"
  by (cases p; simp)+

lemma load_new_var [simp]:
  "load (Var (length (vars m))) (m\<lparr>vars := vars m @ [x]\<rparr>) = Some x"
  by (simp add: go_index_def)

lemma load_old [simp]:
  "load p m = Some y \<Longrightarrow> load p (m\<lparr>vars := vars m @ [x]\<rparr>) = Some y"
  by (cases p) (auto simp: go_index_def nth_append split: if_splits)

lemma load_not_new: "load p m = Some y \<Longrightarrow> p \<noteq> Var (length (vars m))"
  by (auto simp: go_index_def)

lemma seq_Some [simp]: "f m = Some m' \<Longrightarrow> seq f g m = g m'"
  by (simp add: seq_def)

lemma assign_Some [simp]:
  "load inp m = Some i \<Longrightarrow> load out m = Some j \<Longrightarrow> assign f inp out m = Some (put out (f i j) m)"
  by (simp add: assign_def)

subsection \<open>Lists of objects\<close>

record type_meta =
  TM_Kind :: string
  TM_APIVersion :: string

record 'm list_obj =
  List_TypeMeta :: type_meta
  List_Meta :: 'm
  Items :: "slice option"

type_synonym ('a, 'm, 'c) list_memory = "('a, 'm list_obj, 'c) memory"

definition list_assign :: "('m list_obj \<Rightarrow> 'm list_obj \<Rightarrow> 'm list_obj) \<Rightarrow> nat \<Rightarrow> nat \<Rightarrow>
    ('a, 'm, 'c) list_memory \<Rightarrow> ('a, 'm, 'c) list_memory option" where
  "list_assign f inp out m =
     (case go_index (list_vars m) inp of None \<Rightarrow> None | Some i \<Rightarrow>
      case go_index (list_vars m) out of None \<Rightarrow> None | Some j \<Rightarrow> Some (m\<lparr>list_vars := (list_vars m)[out := f i j]\<rparr>))"

definition list_assign_meta :: "('m, 'c) copier \<Rightarrow> nat \<Rightarrow> nat \<Rightarrow>
    ('a, 'm, 'c) list_memory \<Rightarrow> ('a, 'm, 'c) list_memory option" where
  "list_assign_meta copy inp out m =
     (case go_index (list_vars m) inp of None \<Rightarrow> None | Some i \<Rightarrow>
      case go_index (list_vars m) out of None \<Rightarrow> None | Some j \<Rightarrow>
      (let (v, cs) = copy (List_Meta i) (cells m)
       in Some (m\<lparr>list_vars := (list_vars m)[out := j\<lparr>List_Meta := v\<rparr>], cells := cs\<rparr>)))"

text \<open>\<^verbatim>\<open>make([]T, n)\<close>, assigned to the items of a list.\<close>

definition make_items :: "'a \<Rightarrow> nat \<Rightarrow> nat \<Rightarrow> ('a, 'm, 'c) list_memory \<Rightarrow> ('a, 'm, 'c) list_memory option" where
  "make_items zero out n m =
     (case go_index (list_vars m) out of None \<Rightarrow> None | Some j \<Rightarrow>
      Some (m\<lparr>arrays := arrays m @ [replicate n zero],
        list_vars := (list_vars m)[out :=
          j\<lparr>Items := Some \<lparr>Slice_Arr = length (arrays m), Slice_Off = 0, Slice_Len = n\<rparr>\<rparr>]\<rparr>))"

text \<open>The address \<^verbatim>\<open>&(*items)[i]\<close>, where \<^verbatim>\<open>items\<close> points to the items of a list.\<close>

definition item_ptr :: "nat \<Rightarrow> nat \<Rightarrow> ('a, 'm, 'c) list_memory \<Rightarrow> go_ptr option" where
  "item_ptr l i m =
     (case go_index (list_vars m) l of None \<Rightarrow> None | Some j \<Rightarrow>
      case Items j of None \<Rightarrow> None | Some s \<Rightarrow>
      if i < Slice_Len s then Some (Elem (Slice_Arr s) (Slice_Off s + i)) else None)"

definition copy_item :: "('a, 'm list_obj, 'c) copy_into \<Rightarrow> nat \<Rightarrow> nat \<Rightarrow> nat \<Rightarrow>
    ('a, 'm, 'c) list_memory \<Rightarrow> ('a, 'm, 'c) list_memory option" where
  "copy_item into inp out i m =
     (case item_ptr inp i m of None \<Rightarrow> None | Some p \<Rightarrow>
      case item_ptr out i m of None \<Rightarrow> None | Some q \<Rightarrow> into p q m)"

primrec copy_items :: "('a, 'm list_obj, 'c) copy_into \<Rightarrow> nat \<Rightarrow> nat \<Rightarrow> nat list \<Rightarrow>
    ('a, 'm, 'c) list_memory \<Rightarrow> ('a, 'm, 'c) list_memory option" where
  "copy_items into inp out [] m = Some m"
| "copy_items into inp out (i # is) m =
     (case copy_item into inp out i m of None \<Rightarrow> None | Some m' \<Rightarrow> copy_items into inp out is m')"

text \<open>The generated \<^verbatim>\<open>DeepCopyInto\<close> of a list type.  \<^verbatim>\<open>*out = *in\<close> first shares the items; the length of
  the range is evaluated once, before the loop, and after \<^verbatim>\<open>out\<close> got its new items.\<close>

definition list_DeepCopyInto :: "'a \<Rightarrow> ('m, 'c) copier \<Rightarrow> ('a, 'm list_obj, 'c) copy_into \<Rightarrow> nat \<Rightarrow> nat \<Rightarrow>
    ('a, 'm, 'c) list_memory \<Rightarrow> ('a, 'm, 'c) list_memory option" where
  "list_DeepCopyInto zero copy into inp out =
     seq (list_assign (\<lambda>i j. i) inp out)
     (seq (list_assign (\<lambda>i j. j\<lparr>List_TypeMeta := List_TypeMeta i\<rparr>) inp out)
     (seq (list_assign_meta copy inp out)
     (\<lambda>m. case go_index (list_vars m) inp of None \<Rightarrow> None | Some i \<Rightarrow>
       case Items i of None \<Rightarrow> Some m | Some s \<Rightarrow>
         seq (make_items zero out (Slice_Len s))
           (\<lambda>m'. case go_index (list_vars m') inp of None \<Rightarrow> None | Some i' \<Rightarrow>
              copy_items into inp out [0..<(case Items i' of None \<Rightarrow> 0 | Some s' \<Rightarrow> Slice_Len s')] m') m)))"

definition zero_list :: "'m \<Rightarrow> 'm list_obj" where
  "zero_list zm = \<lparr>List_TypeMeta = \<lparr>TM_Kind = [], TM_APIVersion = []\<rparr>, List_Meta = zm, Items = None\<rparr>"

definition list_DeepCopy :: "'m \<Rightarrow> (nat \<Rightarrow> nat \<Rightarrow> ('a, 'm, 'c) list_memory \<Rightarrow> ('a, 'm, 'c) list_memory option) \<Rightarrow>
    nat option \<Rightarrow> ('a, 'm, 'c) list_memory \<Rightarrow> (nat option \<times> ('a, 'm, 'c) list_memory) option" where
  "list_DeepCopy zm into inp m =
     (case inp of None \<Rightarrow> Some (None, m) | Some p \<Rightarrow>
       (let out = length (list_vars m) in
        map_option (\<lambda>m'. (Some out, m')) (into p out (m\<lparr>list_vars := list_vars m @ [zero_list zm]\<rparr>))))"

end
