(* ===== verification/Deep_Copy.thy ===== *)
theory Deep_Copy
  imports Go_Memory Sip_Types
begin

text \<open>
  The generated deep copies of both operators, api/v1alpha1/zz_generated.deepcopy.go, on the memory
  of \<^verbatim>\<open>Go_Memory\<close>.  The functions of apimachinery that copy \<^verbatim>\<open>ObjectMeta\<close> and \<^verbatim>\<open>ListMeta\<close> are parameters.
\<close>

subsection \<open>internal-cert\<close>

definition Issuer_DeepCopyInto :: "(issuer, 'l, 'c) copy_into" where
  "Issuer_DeepCopyInto inp out = assign (\<lambda>i j. i) inp out"

definition Issuer_DeepCopy :: "go_ptr option \<Rightarrow> (issuer, 'l, 'c) memory \<Rightarrow> (go_ptr option \<times> (issuer, 'l, 'c) memory) option" where
  "Issuer_DeepCopy = new_copy \<lparr>Reference = []\<rparr> Issuer_DeepCopyInto"

definition Subject_DeepCopyInto :: "(subject, 'l, 'c) copy_into" where
  "Subject_DeepCopyInto inp out = assign (\<lambda>i j. i) inp out"

definition Subject_DeepCopy :: "go_ptr option \<Rightarrow> (subject, 'l, 'c) memory \<Rightarrow> (go_ptr option \<times> (subject, 'l, 'c) memory) option" where
  "Subject_DeepCopy = new_copy \<lparr>CN = []\<rparr> Subject_DeepCopyInto"

definition ExtendedKeyUsage_DeepCopyInto :: "(extended_key_usage, 'l, 'c) copy_into" where
  "ExtendedKeyUsage_DeepCopyInto inp out = assign (\<lambda>i j. i) inp out"

definition ExtendedKeyUsage_DeepCopy :: "go_ptr option \<Rightarrow> (extended_key_usage, 'l, 'c) memory \<Rightarrow>
    (go_ptr option \<times> (extended_key_usage, 'l, 'c) memory) option" where
  "ExtendedKeyUsage_DeepCopy =
     new_copy \<lparr>ClientAuth = False, ServerAuth = False\<rparr> ExtendedKeyUsage_DeepCopyInto"

definition Secret_DeepCopyInto :: "(secret_spec, 'l, 'c) copy_into" where
  "Secret_DeepCopyInto inp out = assign (\<lambda>i j. i) inp out"

definition Secret_DeepCopy :: "go_ptr option \<Rightarrow> (secret_spec, 'l, 'c) memory \<Rightarrow>
    (go_ptr option \<times> (secret_spec, 'l, 'c) memory) option" where
  "Secret_DeepCopy = new_copy \<lparr>Secret_Name = [], CertName = [], KeyName = []\<rparr> Secret_DeepCopyInto"

definition zero_certificate :: certificate where
  "zero_certificate = \<lparr>Issuer = \<lparr>Reference = []\<rparr>, Subject = \<lparr>CN = []\<rparr>,
     ExtendedKeyUsage = \<lparr>ClientAuth = False, ServerAuth = False\<rparr>\<rparr>"

definition Certificate_DeepCopyInto :: "(certificate, 'l, 'c) copy_into" where
  "Certificate_DeepCopyInto inp out =
     seq (assign (\<lambda>i j. i) inp out)
     (seq (assign (\<lambda>i j. j\<lparr>Issuer := Issuer i\<rparr>) inp out)
     (seq (assign (\<lambda>i j. j\<lparr>Subject := Subject i\<rparr>) inp out)
     (assign (\<lambda>i j. j\<lparr>ExtendedKeyUsage := ExtendedKeyUsage i\<rparr>) inp out)))"

definition Certificate_DeepCopy :: "go_ptr option \<Rightarrow> (certificate, 'l, 'c) memory \<Rightarrow>
    (go_ptr option \<times> (certificate, 'l, 'c) memory) option" where
  "Certificate_DeepCopy = new_copy zero_certificate Certificate_DeepCopyInto"

definition zero_spec :: internal_certificate_spec where
  "zero_spec = \<lparr>Spec_Certificate = zero_certificate,
     Spec_Secret = \<lparr>Secret_Name = [], CertName = [], KeyName = []\<rparr>\<rparr>"

definition InternalCertificateSpec_DeepCopyInto :: "(internal_certificate_spec, 'l, 'c) copy_into" where
  "InternalCertificateSpec_DeepCopyInto inp out =
     seq (assign (\<lambda>i j. i) inp out)
     (seq (assign (\<lambda>i j. j\<lparr>Spec_Certificate := Spec_Certificate i\<rparr>) inp out)
     (assign (\<lambda>i j. j\<lparr>Spec_Secret := Spec_Secret i\<rparr>) inp out))"

definition InternalCertificateSpec_DeepCopy :: "go_ptr option \<Rightarrow> (internal_certificate_spec, 'l, 'c) memory \<Rightarrow>
    (go_ptr option \<times> (internal_certificate_spec, 'l, 'c) memory) option" where
  "InternalCertificateSpec_DeepCopy = new_copy zero_spec InternalCertificateSpec_DeepCopyInto"

text \<open>The resource as it lies in memory; its metadata refers to further memory.\<close>

record 'o intcert_obj =
  IC_TypeMeta :: type_meta
  IC_ObjectMeta :: 'o
  IC_Spec :: internal_certificate_spec

definition zero_intcert :: "'o \<Rightarrow> 'o intcert_obj" where
  "zero_intcert zo = \<lparr>IC_TypeMeta = \<lparr>TM_Kind = [], TM_APIVersion = []\<rparr>, IC_ObjectMeta = zo, IC_Spec = zero_spec\<rparr>"

definition InternalCertificate_DeepCopyInto :: "('o, 'c) copier \<Rightarrow> ('o intcert_obj, 'l, 'c) copy_into" where
  "InternalCertificate_DeepCopyInto copy inp out =
     seq (assign (\<lambda>i j. i) inp out)
     (seq (assign (\<lambda>i j. j\<lparr>IC_TypeMeta := IC_TypeMeta i\<rparr>) inp out)
     (seq (assign_copy copy IC_ObjectMeta (\<lambda>v j. j\<lparr>IC_ObjectMeta := v\<rparr>) inp out)
     (assign (\<lambda>i j. j\<lparr>IC_Spec := IC_Spec i\<rparr>) inp out)))"

definition InternalCertificate_DeepCopy :: "'o \<Rightarrow> ('o, 'c) copier \<Rightarrow> go_ptr option \<Rightarrow>
    ('o intcert_obj, 'l, 'c) memory \<Rightarrow> (go_ptr option \<times> ('o intcert_obj, 'l, 'c) memory) option" where
  "InternalCertificate_DeepCopy zo copy =
     new_copy (zero_intcert zo) (InternalCertificate_DeepCopyInto copy)"

text \<open>A value of the interface \<^verbatim>\<open>runtime.Object\<close>: nil, or a pointer with its type.  An interface that
  holds a nil pointer is not nil.\<close>

datatype runtime_object = NilObject | PtrObject string "go_ptr option" | ListObject string "nat option"

definition InternalCertificate_DeepCopyObject :: "'o \<Rightarrow> ('o, 'c) copier \<Rightarrow> go_ptr option \<Rightarrow>
    ('o intcert_obj, 'l, 'c) memory \<Rightarrow> (runtime_object \<times> ('o intcert_obj, 'l, 'c) memory) option" where
  "InternalCertificate_DeepCopyObject zo copy inp m =
     (case InternalCertificate_DeepCopy zo copy inp m of None \<Rightarrow> None | Some (c, m') \<Rightarrow>
       Some (if c \<noteq> None then PtrObject ''InternalCertificate'' c else NilObject, m'))"

definition InternalCertificateList_DeepCopyInto ::
    "'o \<Rightarrow> ('o, 'c) copier \<Rightarrow> ('m, 'c) copier \<Rightarrow> nat \<Rightarrow> nat \<Rightarrow>
     ('o intcert_obj, 'm, 'c) list_memory \<Rightarrow> ('o intcert_obj, 'm, 'c) list_memory option" where
  "InternalCertificateList_DeepCopyInto zo copy list_copy =
     list_DeepCopyInto (zero_intcert zo) list_copy (InternalCertificate_DeepCopyInto copy)"

definition InternalCertificateList_DeepCopy ::
    "'o \<Rightarrow> 'm \<Rightarrow> ('o, 'c) copier \<Rightarrow> ('m, 'c) copier \<Rightarrow> nat option \<Rightarrow> ('o intcert_obj, 'm, 'c) list_memory \<Rightarrow>
     (nat option \<times> ('o intcert_obj, 'm, 'c) list_memory) option" where
  "InternalCertificateList_DeepCopy zo zm copy list_copy =
     list_DeepCopy zm (InternalCertificateList_DeepCopyInto zo copy list_copy)"

definition InternalCertificateList_DeepCopyObject ::
    "'o \<Rightarrow> 'm \<Rightarrow> ('o, 'c) copier \<Rightarrow> ('m, 'c) copier \<Rightarrow> nat option \<Rightarrow> ('o intcert_obj, 'm, 'c) list_memory \<Rightarrow>
     (runtime_object \<times> ('o intcert_obj, 'm, 'c) list_memory) option" where
  "InternalCertificateList_DeepCopyObject zo zm copy list_copy inp m =
     (case InternalCertificateList_DeepCopy zo zm copy list_copy inp m of None \<Rightarrow> None | Some (c, m') \<Rightarrow>
       Some (if c \<noteq> None then ListObject ''InternalCertificateList'' c else NilObject, m'))"

subsection \<open>internal-client-ca\<close>

definition CA_Subject_DeepCopyInto :: "(ca_subject, 'l, 'c) copy_into" where
  "CA_Subject_DeepCopyInto inp out = assign (\<lambda>i j. i) inp out"

definition CA_Subject_DeepCopy :: "go_ptr option \<Rightarrow> (ca_subject, 'l, 'c) memory \<Rightarrow>
    (go_ptr option \<times> (ca_subject, 'l, 'c) memory) option" where
  "CA_Subject_DeepCopy = new_copy \<lparr>CA_CN = []\<rparr> CA_Subject_DeepCopyInto"

definition CA_Secret_DeepCopyInto :: "(ca_secret_spec, 'l, 'c) copy_into" where
  "CA_Secret_DeepCopyInto inp out = assign (\<lambda>i j. i) inp out"

definition CA_Secret_DeepCopy :: "go_ptr option \<Rightarrow> (ca_secret_spec, 'l, 'c) memory \<Rightarrow>
    (go_ptr option \<times> (ca_secret_spec, 'l, 'c) memory) option" where
  "CA_Secret_DeepCopy = new_copy \<lparr>CA_Secret_Name = [], CA_CertName = []\<rparr> CA_Secret_DeepCopyInto"

definition CA_Certificate_DeepCopyInto :: "(ca_certificate, 'l, 'c) copy_into" where
  "CA_Certificate_DeepCopyInto inp out =
     seq (assign (\<lambda>i j. i) inp out) (assign (\<lambda>i j. j\<lparr>CA_Subject := CA_Subject i\<rparr>) inp out)"

definition CA_Certificate_DeepCopy :: "go_ptr option \<Rightarrow> (ca_certificate, 'l, 'c) memory \<Rightarrow>
    (go_ptr option \<times> (ca_certificate, 'l, 'c) memory) option" where
  "CA_Certificate_DeepCopy = new_copy \<lparr>CA_Subject = \<lparr>CA_CN = []\<rparr>\<rparr> CA_Certificate_DeepCopyInto"

definition zero_ca_spec :: internal_client_ca_spec where
  "zero_ca_spec = \<lparr>CA_Spec_Certificate = \<lparr>CA_Subject = \<lparr>CA_CN = []\<rparr>\<rparr>,
     CA_Spec_Secret = \<lparr>CA_Secret_Name = [], CA_CertName = []\<rparr>\<rparr>"

definition InternalClientCASpec_DeepCopyInto :: "(internal_client_ca_spec, 'l, 'c) copy_into" where
  "InternalClientCASpec_DeepCopyInto inp out =
     seq (assign (\<lambda>i j. i) inp out)
     (seq (assign (\<lambda>i j. j\<lparr>CA_Spec_Certificate := CA_Spec_Certificate i\<rparr>) inp out)
     (assign (\<lambda>i j. j\<lparr>CA_Spec_Secret := CA_Spec_Secret i\<rparr>) inp out))"

definition InternalClientCASpec_DeepCopy :: "go_ptr option \<Rightarrow> (internal_client_ca_spec, 'l, 'c) memory \<Rightarrow>
    (go_ptr option \<times> (internal_client_ca_spec, 'l, 'c) memory) option" where
  "InternalClientCASpec_DeepCopy = new_copy zero_ca_spec InternalClientCASpec_DeepCopyInto"

record 'o clientca_obj =
  CCA_TypeMeta :: type_meta
  CCA_ObjectMeta :: 'o
  CCA_Spec :: internal_client_ca_spec

definition zero_clientca :: "'o \<Rightarrow> 'o clientca_obj" where
  "zero_clientca zo = \<lparr>CCA_TypeMeta = \<lparr>TM_Kind = [], TM_APIVersion = []\<rparr>, CCA_ObjectMeta = zo, CCA_Spec = zero_ca_spec\<rparr>"

definition InternalClientCA_DeepCopyInto :: "('o, 'c) copier \<Rightarrow> ('o clientca_obj, 'l, 'c) copy_into" where
  "InternalClientCA_DeepCopyInto copy inp out =
     seq (assign (\<lambda>i j. i) inp out)
     (seq (assign (\<lambda>i j. j\<lparr>CCA_TypeMeta := CCA_TypeMeta i\<rparr>) inp out)
     (seq (assign_copy copy CCA_ObjectMeta (\<lambda>v j. j\<lparr>CCA_ObjectMeta := v\<rparr>) inp out)
     (assign (\<lambda>i j. j\<lparr>CCA_Spec := CCA_Spec i\<rparr>) inp out)))"

definition InternalClientCA_DeepCopy :: "'o \<Rightarrow> ('o, 'c) copier \<Rightarrow> go_ptr option \<Rightarrow>
    ('o clientca_obj, 'l, 'c) memory \<Rightarrow> (go_ptr option \<times> ('o clientca_obj, 'l, 'c) memory) option" where
  "InternalClientCA_DeepCopy zo copy = new_copy (zero_clientca zo) (InternalClientCA_DeepCopyInto copy)"

definition InternalClientCA_DeepCopyObject :: "'o \<Rightarrow> ('o, 'c) copier \<Rightarrow> go_ptr option \<Rightarrow>
    ('o clientca_obj, 'l, 'c) memory \<Rightarrow> (runtime_object \<times> ('o clientca_obj, 'l, 'c) memory) option" where
  "InternalClientCA_DeepCopyObject zo copy inp m =
     (case InternalClientCA_DeepCopy zo copy inp m of None \<Rightarrow> None | Some (c, m') \<Rightarrow>
       Some (if c \<noteq> None then PtrObject ''InternalClientCA'' c else NilObject, m'))"

definition InternalClientCAList_DeepCopyInto ::
    "'o \<Rightarrow> ('o, 'c) copier \<Rightarrow> ('m, 'c) copier \<Rightarrow> nat \<Rightarrow> nat \<Rightarrow>
     ('o clientca_obj, 'm, 'c) list_memory \<Rightarrow> ('o clientca_obj, 'm, 'c) list_memory option" where
  "InternalClientCAList_DeepCopyInto zo copy list_copy =
     list_DeepCopyInto (zero_clientca zo) list_copy (InternalClientCA_DeepCopyInto copy)"

definition InternalClientCAList_DeepCopy ::
    "'o \<Rightarrow> 'm \<Rightarrow> ('o, 'c) copier \<Rightarrow> ('m, 'c) copier \<Rightarrow> nat option \<Rightarrow> ('o clientca_obj, 'm, 'c) list_memory \<Rightarrow>
     (nat option \<times> ('o clientca_obj, 'm, 'c) list_memory) option" where
  "InternalClientCAList_DeepCopy zo zm copy list_copy =
     list_DeepCopy zm (InternalClientCAList_DeepCopyInto zo copy list_copy)"

definition InternalClientCAList_DeepCopyObject ::
    "'o \<Rightarrow> 'm \<Rightarrow> ('o, 'c) copier \<Rightarrow> ('m, 'c) copier \<Rightarrow> nat option \<Rightarrow> ('o clientca_obj, 'm, 'c) list_memory \<Rightarrow>
     (runtime_object \<times> ('o clientca_obj, 'm, 'c) list_memory) option" where
  "InternalClientCAList_DeepCopyObject zo zm copy list_copy inp m =
     (case InternalClientCAList_DeepCopy zo zm copy list_copy inp m of None \<Rightarrow> None | Some (c, m') \<Rightarrow>
       Some (if c \<noteq> None then ListObject ''InternalClientCAList'' c else NilObject, m'))"

lemmas deep_copy_defs =
  Issuer_DeepCopyInto_def Subject_DeepCopyInto_def ExtendedKeyUsage_DeepCopyInto_def Secret_DeepCopyInto_def
  Certificate_DeepCopyInto_def InternalCertificateSpec_DeepCopyInto_def
  CA_Subject_DeepCopyInto_def CA_Secret_DeepCopyInto_def CA_Certificate_DeepCopyInto_def
  InternalClientCASpec_DeepCopyInto_def

end
