(* ===== verification/Deep_Copy_Props.thy ===== *)
theory Deep_Copy_Props
  imports Deep_Copy "HOL-Library.Sublist"
begin

text \<open>
  A deep copy has the value of the original and shares no memory with it: what is later written
  to memory that existed before the copy does not change the copy.
\<close>

subsection \<open>Types without references\<close>

definition copies_plainly :: "('a, 'l, 'c) copy_into \<Rightarrow> bool" where
  "copies_plainly into \<longleftrightarrow> (\<forall>p q m x y. load p m = Some x \<longrightarrow> load q m = Some y \<longrightarrow> p \<noteq> q \<longrightarrow>
     into p q m = Some (put q x m))"

lemma copies_plainlyD:
  "copies_plainly into \<Longrightarrow> load p m = Some x \<Longrightarrow> load q m = Some y \<Longrightarrow> p \<noteq> q \<Longrightarrow>
   into p q m = Some (put q x m)"
  unfolding copies_plainly_def by blast

lemma new_copy_plain:
  assumes "copies_plainly into" and "load p m = Some x"
  shows "new_copy zero into (Some p) m = Some (Some (Var (length (vars m))), m\<lparr>vars := vars m @ [x]\<rparr>)"
proof -
  let ?m = "m\<lparr>vars := vars m @ [zero]\<rparr>" and ?q = "Var (length (vars m))"
  have "into p ?q ?m = Some (put ?q x ?m)"
    by (rule copies_plainlyD [OF assms(1) load_old [OF assms(2)] load_new_var load_not_new [OF assms(2)]])
  then show ?thesis by (simp add: new_copy_def)
qed

lemma reference_free_types:
  "copies_plainly Issuer_DeepCopyInto" "copies_plainly Subject_DeepCopyInto"
  "copies_plainly ExtendedKeyUsage_DeepCopyInto" "copies_plainly Secret_DeepCopyInto"
  "copies_plainly Certificate_DeepCopyInto" "copies_plainly InternalCertificateSpec_DeepCopyInto"
  "copies_plainly CA_Subject_DeepCopyInto" "copies_plainly CA_Secret_DeepCopyInto"
  "copies_plainly CA_Certificate_DeepCopyInto" "copies_plainly InternalClientCASpec_DeepCopyInto"
  by (simp_all add: copies_plainly_def deep_copy_defs)

text \<open>The deep copy of a value without references is a new variable with the same value.\<close>

theorem plain_deep_copies:
  "load p m1 = Some x1 \<Longrightarrow> Issuer_DeepCopy (Some p) m1 = Some (Some (Var (length (vars m1))), m1\<lparr>vars := vars m1 @ [x1]\<rparr>)"
  "load p m2 = Some x2 \<Longrightarrow> Subject_DeepCopy (Some p) m2 = Some (Some (Var (length (vars m2))), m2\<lparr>vars := vars m2 @ [x2]\<rparr>)"
  "load p m3 = Some x3 \<Longrightarrow> ExtendedKeyUsage_DeepCopy (Some p) m3 = Some (Some (Var (length (vars m3))), m3\<lparr>vars := vars m3 @ [x3]\<rparr>)"
  "load p m4 = Some x4 \<Longrightarrow> Secret_DeepCopy (Some p) m4 = Some (Some (Var (length (vars m4))), m4\<lparr>vars := vars m4 @ [x4]\<rparr>)"
  "load p m5 = Some x5 \<Longrightarrow> Certificate_DeepCopy (Some p) m5 = Some (Some (Var (length (vars m5))), m5\<lparr>vars := vars m5 @ [x5]\<rparr>)"
  "load p m6 = Some x6 \<Longrightarrow> InternalCertificateSpec_DeepCopy (Some p) m6 = Some (Some (Var (length (vars m6))), m6\<lparr>vars := vars m6 @ [x6]\<rparr>)"
  "load p n1 = Some y1 \<Longrightarrow> CA_Subject_DeepCopy (Some p) n1 = Some (Some (Var (length (vars n1))), n1\<lparr>vars := vars n1 @ [y1]\<rparr>)"
  "load p n2 = Some y2 \<Longrightarrow> CA_Secret_DeepCopy (Some p) n2 = Some (Some (Var (length (vars n2))), n2\<lparr>vars := vars n2 @ [y2]\<rparr>)"
  "load p n3 = Some y3 \<Longrightarrow> CA_Certificate_DeepCopy (Some p) n3 = Some (Some (Var (length (vars n3))), n3\<lparr>vars := vars n3 @ [y3]\<rparr>)"
  "load p n4 = Some y4 \<Longrightarrow> InternalClientCASpec_DeepCopy (Some p) n4 = Some (Some (Var (length (vars n4))), n4\<lparr>vars := vars n4 @ [y4]\<rparr>)"
  by (simp_all add: new_copy_plain reference_free_types Issuer_DeepCopy_def Subject_DeepCopy_def ExtendedKeyUsage_DeepCopy_def
      Secret_DeepCopy_def Certificate_DeepCopy_def InternalCertificateSpec_DeepCopy_def CA_Subject_DeepCopy_def
      CA_Secret_DeepCopy_def CA_Certificate_DeepCopy_def InternalClientCASpec_DeepCopy_def)

subsection \<open>What apimachinery promises\<close>

text \<open>
  The copy of a metadata struct keeps the memory there was, refers only to new memory, and has
  the value of the original; the value depends only on the memory the struct refers to.
\<close>

definition local_value :: "('o \<Rightarrow> nat set) \<Rightarrow> ('c list \<Rightarrow> 'o \<Rightarrow> 'v) \<Rightarrow> bool" where
  "local_value refs val \<longleftrightarrow> (\<forall>x cs ds.
     (\<forall>r \<in> refs x. r < length cs \<and> r < length ds \<and> cs ! r = ds ! r) \<longrightarrow> val cs x = val ds x)"

definition fresh_copy :: "('o \<Rightarrow> nat set) \<Rightarrow> ('c list \<Rightarrow> 'o \<Rightarrow> 'v) \<Rightarrow> 'c list \<Rightarrow> 'c list \<Rightarrow> 'o \<Rightarrow> 'o \<Rightarrow> bool" where
  "fresh_copy refs val cs new x x' \<longleftrightarrow>
     refs x' \<subseteq> {length cs ..< length (cs @ new)} \<and> val (cs @ new) x' = val cs x"

definition deep_copier :: "('o \<Rightarrow> nat set) \<Rightarrow> ('c list \<Rightarrow> 'o \<Rightarrow> 'v) \<Rightarrow> ('o, 'c) copier \<Rightarrow> bool" where
  "deep_copier refs val copy \<longleftrightarrow> local_value refs val \<and>
     (\<forall>x cs. refs x \<subseteq> {..<length cs} \<longrightarrow>
       (\<exists>x' new. copy x cs = (x', cs @ new) \<and> fresh_copy refs val cs new x x'))"

lemma local_valueD:
  "local_value refs val \<Longrightarrow> (\<And>r. r \<in> refs x \<Longrightarrow> r < length cs \<and> r < length ds \<and> cs ! r = ds ! r) \<Longrightarrow>
   val cs x = val ds x"
  unfolding local_value_def by blast

lemma deep_copierD:
  assumes "deep_copier refs val copy" and "refs x \<subseteq> {..<length cs}"
  obtains x' new where "copy x cs = (x', cs @ new)" "fresh_copy refs val cs new x x'"
  using assms unfolding deep_copier_def by blast

lemma deep_copier_local: "deep_copier refs val copy \<Longrightarrow> local_value refs val"
  by (simp add: deep_copier_def)

lemma local_value_append:
  "local_value refs val \<Longrightarrow> refs x \<subseteq> {..<length cs} \<Longrightarrow> val (cs @ new) x = val cs x"
  by (erule local_valueD) (auto simp: nth_append)

lemma fresh_copy_append:
  assumes "local_value refs val" and "fresh_copy refs val cs new x x'"
  shows "fresh_copy refs val cs (new @ ns) x x'"
proof -
  have "refs x' \<subseteq> {..<length (cs @ new)}" using assms(2) by (auto simp: fresh_copy_def)
  with assms show ?thesis
    using local_value_append [of refs val x' "cs @ new" ns] by (auto simp: fresh_copy_def)
qed

lemma fresh_copy_shift:
  assumes "local_value refs val" and "fresh_copy refs val (cs @ old) new x x'" and "refs x \<subseteq> {..<length cs}"
  shows "fresh_copy refs val cs (old @ new) x x'"
  using assms local_value_append [of refs val x cs old] by (auto simp: fresh_copy_def)

subsection \<open>Copies of one object\<close>

definition copies_object :: "('a \<Rightarrow> nat set) \<Rightarrow> ('c list \<Rightarrow> 'a \<Rightarrow> 'v) \<Rightarrow> ('a, 'l, 'c) copy_into \<Rightarrow> bool" where
  "copies_object refs val into \<longleftrightarrow> (\<forall>p q m x y.
     load p m = Some x \<longrightarrow> load q m = Some y \<longrightarrow> p \<noteq> q \<longrightarrow> refs x \<subseteq> {..<length (cells m)} \<longrightarrow>
     (\<exists>x' new. into p q m = Some (put q x' (m\<lparr>cells := cells m @ new\<rparr>)) \<and>
        fresh_copy refs val (cells m) new x x'))"

lemma copies_objectD:
  assumes "copies_object refs val into" and "load p m = Some x" and "load q m = Some y" and "p \<noteq> q"
    and "refs x \<subseteq> {..<length (cells m)}"
  obtains x' new where "into p q m = Some (put q x' (m\<lparr>cells := cells m @ new\<rparr>))"
    "fresh_copy refs val (cells m) new x x'"
  using assms unfolding copies_object_def by blast

definition intcert_refs :: "('o \<Rightarrow> nat set) \<Rightarrow> 'o intcert_obj \<Rightarrow> nat set" where
  "intcert_refs refs x = refs (IC_ObjectMeta x)"

definition intcert_value :: "('c list \<Rightarrow> 'o \<Rightarrow> 'v) \<Rightarrow> 'c list \<Rightarrow> 'o intcert_obj \<Rightarrow>
    type_meta \<times> 'v \<times> internal_certificate_spec" where
  "intcert_value val cs x = (IC_TypeMeta x, val cs (IC_ObjectMeta x), IC_Spec x)"

definition clientca_refs :: "('o \<Rightarrow> nat set) \<Rightarrow> 'o clientca_obj \<Rightarrow> nat set" where
  "clientca_refs refs x = refs (CCA_ObjectMeta x)"

definition clientca_value :: "('c list \<Rightarrow> 'o \<Rightarrow> 'v) \<Rightarrow> 'c list \<Rightarrow> 'o clientca_obj \<Rightarrow>
    type_meta \<times> 'v \<times> internal_client_ca_spec" where
  "clientca_value val cs x = (CCA_TypeMeta x, val cs (CCA_ObjectMeta x), CCA_Spec x)"

lemma local_values:
  "local_value refs val \<Longrightarrow> local_value (intcert_refs refs) (intcert_value val)"
  "local_value refs val \<Longrightarrow> local_value (clientca_refs refs) (clientca_value val)"
  unfolding local_value_def intcert_refs_def intcert_value_def clientca_refs_def clientca_value_def by simp_all

lemma intcert_copies_object:
  assumes "deep_copier refs val copy"
  shows "copies_object (intcert_refs refs) (intcert_value val) (InternalCertificate_DeepCopyInto copy)"
  unfolding copies_object_def
proof (intro allI impI)
  fix p q and m :: "('a intcert_obj, 'l, 'b) memory" and x y
  assume h: "load p m = Some x" "load q m = Some y" "p \<noteq> q" "intcert_refs refs x \<subseteq> {..<length (cells m)}"
  then obtain o' new where c: "copy (IC_ObjectMeta x) (cells m) = (o', cells m @ new)"
      "fresh_copy refs val (cells m) new (IC_ObjectMeta x) o'"
    using deep_copierD [OF assms] unfolding intcert_refs_def by blast
  have "InternalCertificate_DeepCopyInto copy p q m =
      Some (put q (x\<lparr>IC_ObjectMeta := o'\<rparr>) (m\<lparr>cells := cells m @ new\<rparr>))"
    using h c by (simp add: InternalCertificate_DeepCopyInto_def assign_copy_def)
  moreover have "fresh_copy (intcert_refs refs) (intcert_value val) (cells m) new x (x\<lparr>IC_ObjectMeta := o'\<rparr>)"
    using c(2) by (simp add: fresh_copy_def intcert_refs_def intcert_value_def)
  ultimately show "\<exists>x' new. InternalCertificate_DeepCopyInto copy p q m = Some (put q x' (m\<lparr>cells := cells m @ new\<rparr>)) \<and>
      fresh_copy (intcert_refs refs) (intcert_value val) (cells m) new x x'" by blast
qed

lemma clientca_copies_object:
  assumes "deep_copier refs val copy"
  shows "copies_object (clientca_refs refs) (clientca_value val) (InternalClientCA_DeepCopyInto copy)"
  unfolding copies_object_def
proof (intro allI impI)
  fix p q and m :: "('a clientca_obj, 'l, 'b) memory" and x y
  assume h: "load p m = Some x" "load q m = Some y" "p \<noteq> q" "clientca_refs refs x \<subseteq> {..<length (cells m)}"
  then obtain o' new where c: "copy (CCA_ObjectMeta x) (cells m) = (o', cells m @ new)"
      "fresh_copy refs val (cells m) new (CCA_ObjectMeta x) o'"
    using deep_copierD [OF assms] unfolding clientca_refs_def by blast
  have "InternalClientCA_DeepCopyInto copy p q m =
      Some (put q (x\<lparr>CCA_ObjectMeta := o'\<rparr>) (m\<lparr>cells := cells m @ new\<rparr>))"
    using h c by (simp add: InternalClientCA_DeepCopyInto_def assign_copy_def)
  moreover have "fresh_copy (clientca_refs refs) (clientca_value val) (cells m) new x (x\<lparr>CCA_ObjectMeta := o'\<rparr>)"
    using c(2) by (simp add: fresh_copy_def clientca_refs_def clientca_value_def)
  ultimately show "\<exists>x' new. InternalClientCA_DeepCopyInto copy p q m = Some (put q x' (m\<lparr>cells := cells m @ new\<rparr>)) \<and>
      fresh_copy (clientca_refs refs) (clientca_value val) (cells m) new x x'" by blast
qed

subsection \<open>Copies of a list\<close>

definition slice_items :: "'a list list \<Rightarrow> slice \<Rightarrow> 'a list" where
  "slice_items as s = take (Slice_Len s) (drop (Slice_Off s) (as ! Slice_Arr s))"

definition slice_valid :: "'a list list \<Rightarrow> slice \<Rightarrow> bool" where
  "slice_valid as s \<longleftrightarrow> Slice_Arr s < length as \<and> Slice_Off s + Slice_Len s \<le> length (as ! Slice_Arr s)"

lemma length_slice_items: "slice_valid as s \<Longrightarrow> length (slice_items as s) = Slice_Len s"
  by (auto simp: slice_valid_def slice_items_def)

lemma load_item:
  "slice_valid (arrays m) s \<Longrightarrow> k < Slice_Len s \<Longrightarrow>
   load (Elem (Slice_Arr s) (Slice_Off s + k)) m = Some (slice_items (arrays m) s ! k)"
  by (simp add: slice_valid_def slice_items_def go_index_def)

lemma copy_items_snoc:
  "copy_items into inp out (is @ [k]) m =
     (case copy_items into inp out is m of None \<Rightarrow> None | Some m' \<Rightarrow> copy_item into inp out k m')"
  by (induction "is" arbitrary: m) (auto split: option.splits)

text \<open>After \<open>k\<close> rounds of the loop the first \<open>k\<close> new items are copies of the first \<open>k\<close> items.\<close>

lemma copy_items_prefix:
  assumes into: "copies_object refs val into" and loc: "local_value refs val"
    and inp: "go_index (list_vars m) inp = Some li" "Items li = Some s"
    and out: "go_index (list_vars m) out = Some lo"
      "Items lo = Some \<lparr>Slice_Arr = a, Slice_Off = 0, Slice_Len = Slice_Len s\<rparr>"
    and src: "slice_valid (arrays m) s" "Slice_Arr s \<noteq> a"
      "\<forall>x \<in> set (slice_items (arrays m) s). refs x \<subseteq> {..<length (cells m)}"
    and dst: "a < length (arrays m)" "length (arrays m ! a) = Slice_Len s"
    and "k \<le> Slice_Len s"
  shows "\<exists>ys new. copy_items into inp out [0..<k] m =
        Some (m\<lparr>arrays := (arrays m)[a := ys @ drop k (arrays m ! a)], cells := cells m @ new\<rparr>) \<and>
      list_all2 (fresh_copy refs val (cells m) new) (take k (slice_items (arrays m) s)) ys"
  using assms(12)
proof (induction k)
  case 0
  show ?case by (intro exI [of _ "[]"]) simp
next
  case (Suc k)
  let ?xs = "slice_items (arrays m) s" and ?A = "arrays m ! a"
  from Suc obtain ys new where IH:
    "copy_items into inp out [0..<k] m =
       Some (m\<lparr>arrays := (arrays m)[a := ys @ drop k ?A], cells := cells m @ new\<rparr>)"
    "list_all2 (fresh_copy refs val (cells m) new) (take k ?xs) ys" by auto
  let ?m = "m\<lparr>arrays := (arrays m)[a := ys @ drop k ?A], cells := cells m @ new\<rparr>"
  let ?p = "Elem (Slice_Arr s) (Slice_Off s + k)" and ?q = "Elem a k"
  have k: "k < Slice_Len s" "k < length ?xs" using Suc(2) length_slice_items [OF src(1)] by simp_all
  have ys: "length ys = k" using list_all2_lengthD [OF IH(2)] k by simp
  have "load ?p ?m = load ?p m" using src(2) by (simp add: go_index_def)
  then have p: "load ?p ?m = Some (?xs ! k)" using load_item [OF src(1) k(1)] by simp
  have q: "load ?q ?m = Some (?A ! k)" using dst ys k(1) by (simp add: go_index_def nth_append)
  have refs: "refs (?xs ! k) \<subseteq> {..<length (cells m)}" using src(3) k(2) by simp
  obtain x' new' where x': "into ?p ?q ?m = Some (put ?q x' (?m\<lparr>cells := cells ?m @ new'\<rparr>))"
      "fresh_copy refs val (cells ?m) new' (?xs ! k) x'"
    by (rule copies_objectD [OF into p q]) (use src(2) refs in auto)
  have "(ys @ drop k ?A)[k := x'] = (ys @ [x']) @ drop (Suc k) ?A"
    using ys dst(2) k(1) by (simp add: Cons_nth_drop_Suc [symmetric] list_update_append)
  then have "copy_items into inp out [0..<Suc k] m =
      Some (m\<lparr>arrays := (arrays m)[a := (ys @ [x']) @ drop (Suc k) ?A], cells := cells m @ (new @ new')\<rparr>)"
    using IH(1) x'(1) inp out k(1) dst(1) by (simp add: copy_items_snoc copy_item_def item_ptr_def)
  moreover have "list_all2 (fresh_copy refs val (cells m) (new @ new')) (take k ?xs) ys"
    using IH(2) by (rule list_all2_mono) (rule fresh_copy_append [OF loc])
  then have "list_all2 (fresh_copy refs val (cells m) (new @ new')) (take (Suc k) ?xs) (ys @ [x'])"
    using fresh_copy_shift [OF loc _ refs, of new new' x'] x'(2) k(2)
    by (simp add: take_Suc_conv_app_nth list_all2_appendI)
  ultimately show ?case by blast
qed

definition list_value :: "('c list \<Rightarrow> 'm \<Rightarrow> 'w) \<Rightarrow> ('c list \<Rightarrow> 'a \<Rightarrow> 'v) \<Rightarrow> ('a, 'm, 'c) list_memory \<Rightarrow>
    'm list_obj \<Rightarrow> type_meta \<times> 'w \<times> 'v list option" where
  "list_value lval val m l = (List_TypeMeta l, lval (cells m) (List_Meta l),
     map_option (\<lambda>s. map (val (cells m)) (slice_items (arrays m) s)) (Items l))"

definition list_valid :: "('m \<Rightarrow> nat set) \<Rightarrow> ('a \<Rightarrow> nat set) \<Rightarrow> ('a, 'm, 'c) list_memory \<Rightarrow> 'm list_obj \<Rightarrow> bool" where
  "list_valid lrefs refs m l \<longleftrightarrow> lrefs (List_Meta l) \<subseteq> {..<length (cells m)} \<and>
     (case Items l of None \<Rightarrow> True | Some s \<Rightarrow> slice_valid (arrays m) s \<and>
        (\<forall>x \<in> set (slice_items (arrays m) s). refs x \<subseteq> {..<length (cells m)}))"

text \<open>Nothing that existed in \<open>m\<close> differs in \<open>m'\<close>.\<close>

definition memory_kept :: "('a, 'l, 'c) memory \<Rightarrow> ('a, 'l, 'c) memory \<Rightarrow> bool" where
  "memory_kept m m' \<longleftrightarrow> vars m' = vars m \<and> prefix (arrays m) (arrays m') \<and>
     prefix (list_vars m) (list_vars m') \<and> prefix (cells m) (cells m')"

text \<open>The memory \<open>m''\<close> comes from \<open>m'\<close> by any writes to what existed in \<open>m\<close> already.\<close>

definition old_overwritten :: "('a, 'l, 'c) memory \<Rightarrow> ('a, 'l, 'c) memory \<Rightarrow> ('a, 'l, 'c) memory \<Rightarrow> bool" where
  "old_overwritten m m' m'' \<longleftrightarrow>
     (\<exists>as. length as = length (arrays m) \<and> arrays m'' = as @ drop (length (arrays m)) (arrays m')) \<and>
     (\<exists>ls. length ls = length (list_vars m) \<and> list_vars m'' = ls @ drop (length (list_vars m)) (list_vars m')) \<and>
     (\<exists>cs. length cs = length (cells m) \<and> cells m'' = cs @ drop (length (cells m)) (cells m'))"

lemma fresh_value:
  assumes "local_value refs val" and "fresh_copy refs val cs new x x'" and "length ds = length cs"
  shows "val (ds @ new) x' = val cs x"
proof -
  have "val (ds @ new) x' = val (cs @ new) x'"
    using assms(1) by (rule local_valueD) (use assms(2,3) in \<open>auto simp: fresh_copy_def nth_append\<close>)
  with assms(2) show ?thesis by (simp add: fresh_copy_def)
qed

lemma list_into_nil:
  assumes "go_index (list_vars m) p = Some l" and "Items l = None"
    and "copy (List_Meta l) (cells m) = (v, cells m @ new)"
  shows "list_DeepCopy zm (list_DeepCopyInto zero copy into) (Some p) m =
    Some (Some (length (list_vars m)),
      m\<lparr>list_vars := list_vars m @ [l\<lparr>List_Meta := v\<rparr>], cells := cells m @ new\<rparr>)"
  using assms go_index_SomeD [OF assms(1)]
  by (auto simp: list_DeepCopy_def list_DeepCopyInto_def list_assign_def list_assign_meta_def seq_def
      go_index_def nth_append)

lemma list_into_items:
  assumes "go_index (list_vars m) p = Some l" and "Items l = Some s"
    and "copy (List_Meta l) (cells m) = (v, cells m @ new)"
  shows "list_DeepCopy zm (list_DeepCopyInto zero copy into) (Some p) m =
    map_option (\<lambda>m'. (Some (length (list_vars m)), m'))
      (copy_items into p (length (list_vars m)) [0..<Slice_Len s]
        (m\<lparr>cells := cells m @ new, arrays := arrays m @ [replicate (Slice_Len s) zero],
           list_vars := list_vars m @ [l\<lparr>List_Meta := v, Items := Some
             \<lparr>Slice_Arr = length (arrays m), Slice_Off = 0, Slice_Len = Slice_Len s\<rparr>\<rparr>]\<rparr>))"
  using assms go_index_SomeD [OF assms(1)]
  by (auto simp: list_DeepCopy_def list_DeepCopyInto_def list_assign_def list_assign_meta_def make_items_def seq_def
      go_index_def nth_append Let_def)

text \<open>Two items have the same value if one is a fresh copy of the other.\<close>

lemma map_fresh_values:
  assumes "local_value refs val" and "length ds = length cs"
    and "list_all2 (fresh_copy refs val cs new) xs ys"
  shows "map (val (ds @ new)) ys = map (val cs) xs"
  using assms(3) by induction (simp_all add: fresh_value [OF assms(1) _ assms(2)])

lemma list_copies_items:
  assumes into: "copies_object refs val into" "local_value refs val"
    and l: "go_index (list_vars m) p = Some l" "list_valid lrefs refs m l" "Items l = Some s"
    and v: "copy (List_Meta l) (cells m) = (v, cells m @ new)"
  shows "\<exists>ys rest. list_DeepCopy zm (list_DeepCopyInto zero copy into) (Some p) m =
      Some (Some (length (list_vars m)), m\<lparr>arrays := arrays m @ [ys],
        list_vars := list_vars m @ [l\<lparr>List_Meta := v, Items := Some
          \<lparr>Slice_Arr = length (arrays m), Slice_Off = 0, Slice_Len = Slice_Len s\<rparr>\<rparr>],
        cells := cells m @ new @ rest\<rparr>) \<and>
    list_all2 (fresh_copy refs val (cells m) (new @ rest)) (slice_items (arrays m) s) ys"
proof -
  let ?n = "Slice_Len s" and ?a = "length (arrays m)" and ?xs = "slice_items (arrays m) s"
  let ?l = "l\<lparr>List_Meta := v, Items := Some \<lparr>Slice_Arr = ?a, Slice_Off = 0, Slice_Len = ?n\<rparr>\<rparr>"
  let ?m = "m\<lparr>cells := cells m @ new, arrays := arrays m @ [replicate ?n zero], list_vars := list_vars m @ [?l]\<rparr>"
  have s: "slice_valid (arrays m) s" "\<forall>x \<in> set ?xs. refs x \<subseteq> {..<length (cells m)}"
    using l(2,3) by (simp_all add: list_valid_def)
  have xs: "slice_items (arrays ?m) s = ?xs" "slice_valid (arrays ?m) s" "Slice_Arr s \<noteq> ?a"
    using s(1) by (auto simp: slice_items_def slice_valid_def nth_append)
  have refs: "\<forall>x \<in> set ?xs. refs x \<subseteq> {..<length (cells m @ new)}"
    by (intro ballI order_trans [OF s(2) [rule_format]]) simp_all
  have "\<exists>ys rest. copy_items into p (length (list_vars m)) [0..<?n] ?m =
        Some (?m\<lparr>arrays := (arrays ?m)[?a := ys @ drop ?n (arrays ?m ! ?a)], cells := cells ?m @ rest\<rparr>) \<and>
      list_all2 (fresh_copy refs val (cells ?m) rest) (take ?n (slice_items (arrays ?m) s)) ys"
    by (rule copy_items_prefix [OF into, where li = l and lo = ?l and s = s])
      (use l(1,3) xs refs go_index_SomeD [OF l(1)] in \<open>auto simp: go_index_def nth_append\<close>)
  then obtain ys rest where run: "copy_items into p (length (list_vars m)) [0..<?n] ?m =
        Some (?m\<lparr>arrays := arrays m @ [ys], cells := cells m @ new @ rest\<rparr>)"
      and copies: "list_all2 (fresh_copy refs val (cells m @ new) rest) ?xs ys"
    using xs(1) length_slice_items [OF s(1)] by auto
  have "list_DeepCopy zm (list_DeepCopyInto zero copy into) (Some p) m =
      Some (Some (length (list_vars m)), ?m\<lparr>arrays := arrays m @ [ys], cells := cells m @ new @ rest\<rparr>)"
    using run by (simp add: list_into_items [where copy = copy and v = v and new = new, OF l(1,3) v])
  moreover have "list_all2 (fresh_copy refs val (cells m) (new @ rest)) ?xs ys"
    by (rule list.rel_mono_strong [OF copies]) (rule fresh_copy_shift [OF into(2) _ s(2) [rule_format]])
  ultimately show ?thesis by (intro exI conjI) simp_all
qed

lemma list_deep_copy:
  assumes into: "copies_object refs val into" "local_value refs val" and meta: "deep_copier lrefs lval copy"
    and l: "go_index (list_vars m) p = Some l" "list_valid lrefs refs m l"
  shows "\<exists>p' m'. list_DeepCopy zm (list_DeepCopyInto zero copy into) (Some p) m = Some (Some p', m') \<and>
    memory_kept m m' \<and>
    (\<forall>m''. old_overwritten m m' m'' \<longrightarrow>
       map_option (list_value lval val m'') (go_index (list_vars m'') p') = Some (list_value lval val m l))"
proof -
  note lloc = deep_copier_local [OF meta]
  obtain v new where v: "copy (List_Meta l) (cells m) = (v, cells m @ new)"
      "fresh_copy lrefs lval (cells m) new (List_Meta l) v"
    using l(2) unfolding list_valid_def by (auto intro: deep_copierD [OF meta])
  show ?thesis
  proof (cases "Items l")
    case None
    have "lval (cs @ new) v = lval (cells m) (List_Meta l)" if "length cs = length (cells m)" for cs
      using fresh_value [OF lloc v(2) that] .
    then show ?thesis using None
      by (auto simp: list_into_nil [where copy = copy and v = v and new = new, OF l(1) None v(1)]
          memory_kept_def old_overwritten_def list_value_def go_index_def nth_append)
  next
    case (Some s)
    obtain ys rest where run: "list_DeepCopy zm (list_DeepCopyInto zero copy into) (Some p) m =
        Some (Some (length (list_vars m)), m\<lparr>arrays := arrays m @ [ys],
          list_vars := list_vars m @ [l\<lparr>List_Meta := v, Items := Some
            \<lparr>Slice_Arr = length (arrays m), Slice_Off = 0, Slice_Len = Slice_Len s\<rparr>\<rparr>],
          cells := cells m @ new @ rest\<rparr>)" (is "_ = Some (_, ?m')")
      and copies: "list_all2 (fresh_copy refs val (cells m) (new @ rest)) (slice_items (arrays m) s) ys"
      using list_copies_items [where copy = copy and v = v and new = new, OF into l Some v(1)] by blast
    have len: "length ys = Slice_Len s"
      using list_all2_lengthD [OF copies] l(2) Some by (simp add: list_valid_def length_slice_items)
    have "map_option (list_value lval val m'') (go_index (list_vars m'') (length (list_vars m))) =
        Some (list_value lval val m l)" if "old_overwritten m ?m' m''" for m''
    proof -
      from that obtain as ls cs where m'': "arrays m'' = as @ [ys]" "list_vars m'' = ls @ [hd (drop (length (list_vars m)) (list_vars ?m'))]"
          "cells m'' = cs @ new @ rest" and n: "length as = length (arrays m)"
          "length ls = length (list_vars m)" "length cs = length (cells m)"
        by (auto simp: old_overwritten_def)
      show ?thesis
        using map_fresh_values [OF into(2) n(3) copies] fresh_value [OF lloc fresh_copy_append [OF lloc v(2)] n(3)]
          m'' n len Some
        by (simp add: list_value_def slice_items_def go_index_def nth_append)
    qed
    with run show ?thesis by (intro exI conjI) (auto simp: memory_kept_def)
  qed
qed

subsection \<open>The lists of both operators\<close>

text \<open>C40: a deep copy of a list of InternalCertificates succeeds, leaves all existing memory as it is,
  has the value of the original (a nil slice of items stays nil), and keeps that value whatever is later written to
  memory that existed before: it shares neither items nor metadata with the original.  The functions of
  apimachinery that copy the metadata are assumed to be deep copies themselves.\<close>

theorem intcert_list_deep_copy:
  assumes "deep_copier refs val copy" and "deep_copier lrefs lval list_copy"
    and "go_index (list_vars m) p = Some l" and "list_valid lrefs (intcert_refs refs) m l"
  shows "\<exists>p' m'. InternalCertificateList_DeepCopy zo zm copy list_copy (Some p) m = Some (Some p', m') \<and>
    memory_kept m m' \<and>
    (\<forall>m''. old_overwritten m m' m'' \<longrightarrow>
       map_option (list_value lval (intcert_value val) m'') (go_index (list_vars m'') p') =
         Some (list_value lval (intcert_value val) m l))"
  unfolding InternalCertificateList_DeepCopy_def InternalCertificateList_DeepCopyInto_def
  by (rule list_deep_copy [OF intcert_copies_object [OF assms(1)] local_values(1) [OF deep_copier_local [OF assms(1)]] assms(2-4)])

text \<open>A library as simple as possible: metadata is a name and a reference to a list of owners, nil or not.\<close>

type_synonym sample_meta = "string \<times> nat option"

definition sample_copy :: "(sample_meta, string list) copier" where
  "sample_copy x cs =
     (case snd x of None \<Rightarrow> (x, cs) | Some r \<Rightarrow> ((fst x, Some (length cs)), cs @ [cs ! r]))"

definition sample_refs :: "sample_meta \<Rightarrow> nat set" where
  "sample_refs x = set_option (snd x)"

definition sample_value :: "string list list \<Rightarrow> sample_meta \<Rightarrow> string \<times> string list option" where
  "sample_value cs x = (fst x, map_option (\<lambda>r. cs ! r) (snd x))"

lemma sample_copier: "deep_copier sample_refs sample_value sample_copy"
  by (auto simp: deep_copier_def local_value_def fresh_copy_def sample_refs_def sample_value_def sample_copy_def
      split: option.splits intro!: option.map_cong)

definition sample_intcert :: "string \<Rightarrow> sample_meta intcert_obj" where
  "sample_intcert n = (zero_intcert (n, Some 0))\<lparr>IC_TypeMeta := \<lparr>TM_Kind = ''InternalCertificate'', TM_APIVersion = ''v1alpha1''\<rparr>\<rparr>"

definition sample_memory :: "(sample_meta intcert_obj, sample_meta, string list) list_memory" where
  "sample_memory = \<lparr>vars = [], arrays = [[sample_intcert ''a'', sample_intcert ''b'']],
     list_vars = [(zero_list ([], None))\<lparr>Items := Some \<lparr>Slice_Arr = 0, Slice_Off = 1, Slice_Len = 1\<rparr>\<rparr>],
     cells = [[''owner'']]\<rparr>"

theorem intcert_list_deep_copy_witness:
  "\<exists>p' m'. InternalCertificateList_DeepCopy ([], None) ([], None) sample_copy sample_copy (Some 0) sample_memory = Some (Some p', m') \<and>
     map_option (list_value sample_value (intcert_value sample_value) (m'\<lparr>arrays := [] # tl (arrays m'), cells := [] # tl (cells m')\<rparr>))
       (go_index (list_vars m') p') =
     Some (\<lparr>TM_Kind = [], TM_APIVersion = []\<rparr>, ([], None),
       Some [(\<lparr>TM_Kind = ''InternalCertificate'', TM_APIVersion = ''v1alpha1''\<rparr>, (''b'', Some [''owner'']), zero_spec)])"
proof -
  let ?l = "hd (list_vars sample_memory)"
  have l: "go_index (list_vars sample_memory) 0 = Some ?l"
    "list_valid sample_refs (intcert_refs sample_refs) sample_memory ?l"
    by (simp_all add: sample_memory_def go_index_def list_valid_def slice_valid_def slice_items_def zero_list_def
        sample_refs_def intcert_refs_def sample_intcert_def zero_intcert_def)
  from intcert_list_deep_copy [OF sample_copier sample_copier l, of "([], None)" "([], None)"] obtain p' m' where
    copy: "InternalCertificateList_DeepCopy ([], None) ([], None) sample_copy sample_copy (Some 0) sample_memory = Some (Some p', m')"
      "memory_kept sample_memory m'"
    and val: "\<And>m''. old_overwritten sample_memory m' m'' \<Longrightarrow>
       map_option (list_value sample_value (intcert_value sample_value) m'') (go_index (list_vars m'') p') =
         Some (list_value sample_value (intcert_value sample_value) sample_memory ?l)" by blast
  have "old_overwritten sample_memory m' (m'\<lparr>arrays := [] # tl (arrays m'), cells := [] # tl (cells m')\<rparr>)"
    using copy(2) by (auto simp: old_overwritten_def memory_kept_def sample_memory_def prefix_def)
  from val [OF this] copy(1) show ?thesis
    by (auto simp: list_value_def sample_memory_def slice_items_def zero_list_def sample_value_def intcert_value_def
        sample_intcert_def zero_intcert_def)
qed

theorem clientca_list_deep_copy:
  assumes "deep_copier refs val copy" and "deep_copier lrefs lval list_copy"
    and "go_index (list_vars m) p = Some l" and "list_valid lrefs (clientca_refs refs) m l"
  shows "\<exists>p' m'. InternalClientCAList_DeepCopy zo zm copy list_copy (Some p) m = Some (Some p', m') \<and>
    memory_kept m m' \<and>
    (\<forall>m''. old_overwritten m m' m'' \<longrightarrow>
       map_option (list_value lval (clientca_value val) m'') (go_index (list_vars m'') p') =
         Some (list_value lval (clientca_value val) m l))"
  unfolding InternalClientCAList_DeepCopy_def InternalClientCAList_DeepCopyInto_def
  by (rule list_deep_copy [OF clientca_copies_object [OF assms(1)] local_values(2) [OF deep_copier_local [OF assms(1)]] assms(2-4)])

text \<open>\<^verbatim>\<open>DeepCopyObject\<close> of a nil pointer is the nil interface, never an interface that holds nil.\<close>

theorem deep_copy_object_nil:
  "InternalCertificate_DeepCopyObject zo copy None m = Some (NilObject, m)"
  "InternalCertificateList_DeepCopyObject zo zm copy list_copy None m1 = Some (NilObject, m1)"
  "InternalClientCA_DeepCopyObject zo copy None m2 = Some (NilObject, m2)"
  "InternalClientCAList_DeepCopyObject zo zm copy list_copy None m3 = Some (NilObject, m3)"
  by (simp_all add: InternalCertificate_DeepCopyObject_def InternalCertificate_DeepCopy_def new_copy_def
      InternalCertificateList_DeepCopyObject_def InternalCertificateList_DeepCopy_def list_DeepCopy_def
      InternalClientCA_DeepCopyObject_def InternalClientCA_DeepCopy_def
      InternalClientCAList_DeepCopyObject_def InternalClientCAList_DeepCopy_def)

end
