(* ===== verification/Vault_Ttls.thy ===== *)
theory Vault_Ttls
  imports ClientCA_Controller Vault_Pki_Schedules
begin

text \<open>
  The lifetimes that are asked of Vault's PKI mounts.  Vault shortens every certificate of a mount
  to the mount's maximum lease TTL, so a mount is configured consistently when nothing it is asked
  for, its root CA and the roles written to it, exceeds the TTL it was tuned to.

  \<^item> \<open>duration_hours\<close>: the reading of a duration in hours, of Go's \<^verbatim>\<open>time.ParseDuration\<close>.
  \<^item> \<open>pki_mount\<close>, \<open>replay_ttl\<close>, \<open>ttl_conform\<close>: the abstract state of one mount, its changes, and what
    the replies of a conforming Vault are: a path in use is not enabled again, a mount that does not
    exist cannot be configured, and the list shows the mounts there are.
  \<^item> \<open>ttls_within\<close>: the invariant.
  \<^item> \<open>ttl_keeper\<close>: the interface of a component that configures mounts of its own and keeps the
    invariant; two with different mounts, however their calls are interleaved, are one again.
    It is interpreted for the controller of the client CAs and for the PKI job.
\<close>

subsection \<open>Durations\<close>

definition is_digit :: "char \<Rightarrow> bool" where
  "is_digit d \<longleftrightarrow> 48 \<le> (of_char d :: nat) \<and> (of_char d :: nat) \<le> 57"

fun digits_value :: "nat \<Rightarrow> string \<Rightarrow> nat option" where
  "digits_value n [] = Some n"
| "digits_value n (d # ds) = (if is_digit d then digits_value (10 * n + (of_char d - 48)) ds else None)"

definition duration_hours :: "string \<Rightarrow> nat option" where
  "duration_hours s =
     (if s = [] \<or> butlast s = [] \<or> last s \<noteq> CHR ''h'' then None else digits_value 0 (butlast s))"

definition ttl_le :: "string \<Rightarrow> string \<Rightarrow> bool" where
  "ttl_le a b = (case (duration_hours a, duration_hours b) of (Some x, Some y) \<Rightarrow> x \<le> y | _ \<Rightarrow> False)"

text \<open>The lifetimes of the program: 876000 hours are a hundred years, 168 a week.\<close>

lemma ttl_hours:
  "duration_hours rootCATTL = Some 876000" "duration_hours intermCATTL = Some 168"
  "duration_hours clientCATTL = Some 876000" "duration_hours clientCertTTL = Some 168"
  by (simp_all add: duration_hours_def is_digit_def record_defs)

lemma ttl_le_names [simp]:
  "ttl_le rootCATTL rootCATTL" "ttl_le intermCATTL intermCATTL"
  "ttl_le clientCATTL clientCATTL" "ttl_le clientCertTTL clientCATTL"
  by (simp_all add: ttl_le_def ttl_hours)

subsection \<open>The state of a mount\<close>

record pki_mount =
  Max_Lease :: "string option"     \<comment> \<open>\<^term>\<open>None\<close>: the default of the system\<close>
  Asked :: "string list"           \<comment> \<open>the lifetimes of its root CA and of its roles\<close>

definition ask_ttl :: "string \<Rightarrow> pki_mount \<Rightarrow> pki_mount" where
  "ask_ttl ttl m = m\<lparr>Asked := ttl # Asked m\<rparr>"

text \<open>What a successful call does to the mount at \<open>p\<close>.\<close>

datatype ttl_effect = Mount | Change "pki_mount \<Rightarrow> pki_mount" | Listed bool | Nothing

definition mount_effect :: "string \<Rightarrow> event \<Rightarrow> ttl_effect" where
  "mount_effect p e =
     (case e of
        EvDo a r \<Rightarrow>
          (if r \<noteq> None then Nothing else
           case a of
             MountsEnableSecretsEngine q _ \<Rightarrow> if q = p then Mount else Nothing
           | MountsTuneConfigurationParameters q ttl \<Rightarrow>
               if q = p then Change (Max_Lease_update (\<lambda>_. Some ttl)) else Nothing
           | PkiWriteRole q _ rr \<Rightarrow> if q = p then Change (ask_ttl (Role_MaxTtl rr)) else Nothing
           | _ \<Rightarrow> Nothing)
      | EvAsk q r \<Rightarrow>
          (if isl r then Nothing else
           case q of
             PkiGenerateRoot q' _ g \<Rightarrow> if q' = p then Change (ask_ttl (Gen_Ttl g)) else Nothing
           | _ \<Rightarrow> Nothing)
      | EvListMounts r \<Rightarrow> (case r of Inl _ \<Rightarrow> Nothing | Inr listed \<Rightarrow> Listed (p @ ''/'' \<in> listed))
      | _ \<Rightarrow> Nothing)"

definition apply_ttl :: "string \<Rightarrow> pki_mount option \<Rightarrow> event \<Rightarrow> pki_mount option" where
  "apply_ttl p m e =
     (case mount_effect p e of
        Mount \<Rightarrow> Some \<lparr>Max_Lease = None, Asked = []\<rparr> | Change f \<Rightarrow> map_option f m | _ \<Rightarrow> m)"

definition ttl_reply_ok :: "string \<Rightarrow> pki_mount option \<Rightarrow> event \<Rightarrow> bool" where
  "ttl_reply_ok p m e =
     (case mount_effect p e of
        Mount \<Rightarrow> m = None | Change f \<Rightarrow> m \<noteq> None | Listed b \<Rightarrow> b \<longleftrightarrow> m \<noteq> None | Nothing \<Rightarrow> True)"

fun replay_ttl :: "string \<Rightarrow> pki_mount option \<Rightarrow> event list \<Rightarrow> pki_mount option" where
  "replay_ttl p m [] = m"
| "replay_ttl p m (e # t) = replay_ttl p (apply_ttl p m e) t"

fun ttl_conform :: "string \<Rightarrow> pki_mount option \<Rightarrow> event list \<Rightarrow> bool" where
  "ttl_conform p m [] = True"
| "ttl_conform p m (e # t) \<longleftrightarrow> ttl_reply_ok p m e \<and> ttl_conform p (apply_ttl p m e) t"

text \<open>The invariant: a mount is only asked for what it was tuned to before.\<close>

definition ttls_within :: "pki_mount option \<Rightarrow> bool" where
  "ttls_within m =
     (case m of None \<Rightarrow> True | Some d \<Rightarrow>
        (case Max_Lease d of None \<Rightarrow> Asked d = [] | Some l \<Rightarrow> list_all (\<lambda>ttl. ttl_le ttl l) (Asked d)))"

lemma replay_ttl_append [simp]: "replay_ttl p m (s @ t) = replay_ttl p (replay_ttl p m s) t"
  by (induction s arbitrary: m) auto

lemma ttl_conform_append [simp]:
  "ttl_conform p m (s @ t) \<longleftrightarrow> ttl_conform p m s \<and> ttl_conform p (replay_ttl p m s) t"
  by (induction s arbitrary: m) auto

text \<open>Calls that do not concern the mount.\<close>

lemma ttl_Nothing: "mount_effect p e = Nothing \<Longrightarrow> apply_ttl p m e = m \<and> ttl_reply_ok p m e"
  by (simp add: apply_ttl_def ttl_reply_ok_def)

definition ttl_quiet :: "string \<Rightarrow> event \<Rightarrow> bool" where
  "ttl_quiet p e \<longleftrightarrow> (case mount_effect p e of Nothing \<Rightarrow> True | Listed b \<Rightarrow> True | _ \<Rightarrow> False)"

lemma ttl_quiet_apply: "ttl_quiet p e \<Longrightarrow> apply_ttl p m e = m"
  by (auto simp: ttl_quiet_def apply_ttl_def split: ttl_effect.splits)

lemma ttl_quiet_replay: "list_all (ttl_quiet p) t \<Longrightarrow> replay_ttl p m t = m"
  by (induction t) (auto simp: ttl_quiet_apply)

lemma ttl_filter:
  "replay_ttl p m (filter (\<lambda>e. mount_effect p e \<noteq> Nothing) t) = replay_ttl p m t \<and>
   ttl_conform p m (filter (\<lambda>e. mount_effect p e \<noteq> Nothing) t) = ttl_conform p m t"
  by (induction t arbitrary: m) (auto simp: ttl_Nothing)

text \<open>Of two interleaved series of calls, one that leaves the mount alone does not show in it.\<close>

lemma shuffles_quiet:
  "t \<in> shuffles xs ys \<Longrightarrow> list_all (ttl_quiet p) ys \<Longrightarrow>
     replay_ttl p m t = replay_ttl p m xs \<and> (ttl_conform p m t \<longrightarrow> ttl_conform p m xs)"
  by (induction xs ys arbitrary: t m rule: shuffles.induct)
    (auto simp: ttl_quiet_apply ttl_quiet_replay)

subsection \<open>Components that configure mounts of their own\<close>

locale ttl_keeper =
  fixes runs :: "event list \<Rightarrow> bool"
    and owns :: "string \<Rightarrow> bool"
  assumes leaves: "runs t \<Longrightarrow> \<not> owns p \<Longrightarrow> list_all (ttl_quiet p) t"
    and keeps: "runs t \<Longrightarrow> owns p \<Longrightarrow> ttl_conform p m t \<Longrightarrow> ttls_within m \<Longrightarrow> ttls_within (replay_ttl p m t)"
begin

text \<open>The invariant of every mount is kept, and a mount of others is not touched.\<close>

lemma keeps_all: "runs t \<Longrightarrow> ttl_conform p m t \<Longrightarrow> ttls_within m \<Longrightarrow> ttls_within (replay_ttl p m t)"
  using keeps [of t p m] leaves [of t p] by (cases "owns p") (simp_all add: ttl_quiet_replay)

text \<open>Any number of runs after another.\<close>

lemma series_leaves: "list_all runs ts \<Longrightarrow> \<not> owns p \<Longrightarrow> list_all (ttl_quiet p) (concat ts)"
  using leaves by (induction ts) auto

lemma series_keeps:
  "list_all runs ts \<Longrightarrow> ttl_conform p m (concat ts) \<Longrightarrow> ttls_within m \<Longrightarrow>
   ttls_within (replay_ttl p m (concat ts))"
  by (induction ts arbitrary: m) (auto intro: keeps_all)

end

locale ttl_keepers =
  one: ttl_keeper runs owns + two: ttl_keeper runs' owns' for runs owns runs' owns' +
  assumes disjoint: "\<not> (owns p \<and> owns' p)"

text \<open>Two components with different mounts, running concurrently, are such a component.\<close>

sublocale ttl_keepers \<subseteq> both: ttl_keeper
  "\<lambda>t. \<exists>ts ts'. list_all runs ts \<and> list_all runs' ts' \<and> t \<in> shuffles (concat ts) (concat ts')"
  "\<lambda>p. owns p \<or> owns' p"
proof
  fix t p m
  assume "\<exists>ts ts'. list_all runs ts \<and> list_all runs' ts' \<and> t \<in> shuffles (concat ts) (concat ts')"
  then obtain ts ts' where ts: "list_all runs ts" and ts': "list_all runs' ts'"
    and t: "t \<in> shuffles (concat ts) (concat ts')" by blast
  show "list_all (ttl_quiet p) t" if "\<not> (owns p \<or> owns' p)"
    using one.series_leaves [OF ts] two.series_leaves [OF ts'] that set_shuffles [OF t]
    by (auto simp: list_all_iff)
  assume mine: "owns p \<or> owns' p" and cf: "ttl_conform p m t" and within: "ttls_within m"
  have t': "t \<in> shuffles (concat ts') (concat ts)" using t by (simp add: shuffles_commutes)
  show "ttls_within (replay_ttl p m t)"
  proof (cases "owns p")
    case True
    then have "list_all (ttl_quiet p) (concat ts')" using two.series_leaves [OF ts'] disjoint by blast
    from shuffles_quiet [OF t this] cf show ?thesis by (auto intro: one.series_keeps [OF ts _ within])
  next
    case False
    then have "list_all (ttl_quiet p) (concat ts)" by (rule one.series_leaves [OF ts])
    from shuffles_quiet [OF t' this] cf show ?thesis by (auto intro: two.series_keeps [OF ts' _ within])
  qed
qed

subsection \<open>The controller of the client CAs\<close>

text \<open>One simplification rule per call.\<close>

lemma mount_effect_simps [simp]:
  "mount_effect p (EvDo (MountsEnableSecretsEngine q rq) None) = (if q = p then Mount else Nothing)"
  "mount_effect p (EvDo (MountsTuneConfigurationParameters q ttl) None) =
     (if q = p then Change (Max_Lease_update (\<lambda>_. Some ttl)) else Nothing)"
  "mount_effect p (EvDo (PkiWriteRole q ro rr) None) =
     (if q = p then Change (ask_ttl (Role_MaxTtl rr)) else Nothing)"
  "mount_effect p (EvAsk (PkiGenerateRoot q x g) (Inr cert)) =
     (if q = p then Change (ask_ttl (Gen_Ttl g)) else Nothing)"
  "mount_effect p (EvListMounts (Inr l)) = Listed (p @ ''/'' \<in> l)"
  "mount_effect p (EvDo a (Some err)) = Nothing" "mount_effect p (EvAsk aq (Inl err)) = Nothing"
  by (simp_all add: mount_effect_def)

lemma ca_Reconcile_leaves:
  "each_call (\<lambda>e. \<forall>p. (\<nexists>c. p = ca_mount c) \<longrightarrow> ttl_quiet p e) (ca_Reconcile req)"
  by (auto simp: ca_reconcile_defs ttl_quiet_def mount_effect_def split: sum.splits option.splits)

lemma ca_Reconcile_within:
  "always (ca_Reconcile req) (\<lambda>t. \<forall>p m. ttl_conform p m t \<longrightarrow> ttls_within m \<longrightarrow>
     ttls_within (replay_ttl p m t))"
  by (auto simp: ca_reconcile_defs apply_ttl_def ttl_reply_ok_def mount_effect_def ttls_within_def
      ask_ttl_def client_ca_role_request_def split: sum.splits option.splits if_splits)

interpretation ca_keeper: ttl_keeper
  "\<lambda>t. \<exists>reqs. worked ca_Reconcile reqs t" "\<lambda>p. \<exists>c. p = ca_mount c"
proof
  fix t p m
  assume "\<exists>reqs. worked ca_Reconcile reqs t"
  then obtain reqs where w: "worked ca_Reconcile reqs t" by blast
  from w show "list_all (ttl_quiet p) t" if "\<nexists>c. p = ca_mount c"
  proof (induction rule: worked.induct)
    case (handled req t p' reqs u)
    with that always_steps [OF ca_Reconcile_leaves handled(1)] show ?case
      by (auto simp: list_all_iff)
  qed simp
  from w show "ttl_conform p m t \<Longrightarrow> ttls_within m \<Longrightarrow> ttls_within (replay_ttl p m t)"
  proof (induction arbitrary: m rule: worked.induct)
    case (handled req t p' reqs u)
    with always_steps [OF ca_Reconcile_within handled(1)] show ?case by auto
  qed simp
qed

subsection \<open>The PKI job\<close>

text \<open>The parts of the job, at a mount that it makes itself.\<close>

definition fresh_within :: "string \<Rightarrow> event list \<Rightarrow> bool" where
  "fresh_within p t \<longleftrightarrow> (early t \<longrightarrow> ttl_conform p None t \<longrightarrow> ttls_within (replay_ttl p None t))"

lemmas fresh_defs = fresh_within_def early_def apply_ttl_def ttl_reply_ok_def mount_effect_def ttls_within_def ask_ttl_def

lemma root_part_within: "always (enablePKIRootCA v) (fresh_within ''sip-root-ca'')"
  by (auto simp: enablePKIRootCA_def pki_defs fresh_defs rootCAPath_def root_generate_request_def root_role_request_def
      split: option.split sum.split)

definition fresh_anyway :: "string \<Rightarrow> event list \<Rightarrow> bool" where
  "fresh_anyway p t \<longleftrightarrow> (ttl_conform p None t \<longrightarrow> ttls_within (replay_ttl p None t))"

lemma interm_part_within: "always (enablePKIIntermCA v) (fresh_anyway ''sip-interm-ca'')"
  by (auto simp: enablePKIIntermCA_def pki_defs fresh_anyway_def fresh_defs intermCAPath_def rootCAPath_def
      interm_role_request_def split: option.split sum.split)

lemma untouched_quiet: "\<not> touches p e \<Longrightarrow> ttl_quiet p e"
  by (auto simp: touches_def ttl_quiet_def mount_effect_def split: event.splits act.splits query.splits sum.splits)

lemma untouched_nothing: "\<not> touches p e \<Longrightarrow> \<forall>r. e \<noteq> EvListMounts r \<Longrightarrow> mount_effect p e = Nothing"
  by (auto simp: touches_def mount_effect_def split: event.splits act.splits query.splits sum.splits)

lemma untouched_replay: "list_all (\<lambda>e. \<not> touches p e) t \<Longrightarrow> replay_ttl p m t = m"
  by (rule ttl_quiet_replay) (auto simp: list_all_iff intro: untouched_quiet)

lemma interm_parts:
  "always (bind (if ''sip-interm-ca/'' \<notin> mounts then enablePKIIntermCA v else Ret ()) (\<lambda>_. Exit 0))
     (fresh_anyway ''sip-interm-ca'')"
proof -
  have "fresh_anyway ''sip-interm-ca'' []" by (simp add: fresh_anyway_def ttls_within_def)
  with interm_part_within [of v] show ?thesis
    by (auto simp: always_bind all_paths_iff intro: always_accepts)
qed

lemma rest_within:
  assumes "p = ''sip-root-ca'' \<or> p = ''sip-interm-ca''" and "p @ ''/'' \<notin> mounts"
  shows "always (pki_rest mounts v) (fresh_within p)"
  using assms(1)
proof
  let ?q = "bind (if ''sip-interm-ca/'' \<notin> mounts then enablePKIIntermCA v else Ret ()) (\<lambda>_. Exit 0)"
  assume p: "p = ''sip-root-ca''"
  with assms(2) have root: "''sip-root-ca/'' \<notin> mounts" by simp
  have "each_call (\<lambda>e. \<not> touches ''sip-root-ca'' e) ?q"
    by (rule each_call_bind) (simp_all add: interm_leaves_root)
  then have quiet: "each_call (ttl_quiet p) ?q"
    by (rule always_mono) (auto simp: p list_all_iff intro: untouched_quiet)
  have "always ?q (\<lambda>t'. fresh_within p (t @ t'))" if "fresh_within p t" for t
    by (rule always_mono [OF quiet])
      (use that early_prefix in \<open>auto simp: fresh_within_def ttl_quiet_replay\<close>)
  then show ?thesis
    using root root_part_within [of v] always_accepts [OF root_part_within [of v]]
    by (auto simp only: always_bind [of "enablePKIRootCA v"] p not_False_eq_True if_True
        intro!: accepts_all_pathsI)
next
  let ?q = "bind (if ''sip-interm-ca/'' \<notin> mounts then enablePKIIntermCA v else Ret ()) (\<lambda>_. Exit 0)"
  assume p: "p = ''sip-interm-ca''"
  have quiet: "each_call (ttl_quiet p) (if ''sip-root-ca/'' \<notin> mounts then enablePKIRootCA v else Ret ())"
    using always_mono [OF root_leaves_interm, where J = "list_all (ttl_quiet p)"]
    by (auto simp: p list_all_iff intro: untouched_quiet)
  show ?thesis
  proof (rule always_bindI [OF quiet])
    show "fresh_within p t" if "list_all (ttl_quiet p) t" for t
      by (simp add: fresh_within_def ttl_quiet_replay [OF that] ttls_within_def)
    show "always ?q (\<lambda>t'. fresh_within p (t @ t'))" if "list_all (ttl_quiet p) t" for t x
      by (rule always_mono [OF interm_parts])
        (simp add: fresh_within_def fresh_anyway_def ttl_quiet_replay [OF that, unfolded p] p)
  qed
qed

text \<open>The whole job.\<close>

definition job_within :: "string \<Rightarrow> event list \<Rightarrow> bool" where
  "job_within p t \<longleftrightarrow>
     (\<forall>m. early t \<longrightarrow> ttl_conform p m t \<longrightarrow> ttls_within m \<longrightarrow> ttls_within (replay_ttl p m t))"

lemma main_within:
  assumes "p = ''sip-root-ca'' \<or> p = ''sip-interm-ca''"
  shows "always (pki_main v) (job_within p)"
proof -
  have nil: "job_within p []" "job_within p [EvListMounts r]" for r
    by (auto simp: job_within_def apply_ttl_def mount_effect_def split: sum.split)
  have "always (pki_rest mounts v) (\<lambda>t. job_within p (EvListMounts (Inr mounts) # t))" for mounts
  proof (cases "p @ ''/'' \<in> mounts")
    case True
    have "each_call (\<lambda>e. \<not> touches p e) (pki_rest mounts v)"
      using assms True root_leaves_interm interm_leaves_root by (intro bind_parts) auto
    then show ?thesis
      by (rule always_mono)
        (auto simp: job_within_def apply_ttl_def untouched_replay)
  next
    case False
    have early: "early (EvListMounts r # t) = early t" for r t by (simp add: early_def)
    show ?thesis
      by (rule always_mono [OF rest_within [OF assms False]])
        (auto simp: job_within_def fresh_within_def early apply_ttl_def ttl_reply_ok_def False)
  qed
  with nil show ?thesis
    by (auto simp: pki_main_def split: sum.split split del: if_split)
qed

definition pki_private :: "string \<Rightarrow> event \<Rightarrow> bool" where
  "pki_private p e \<longleftrightarrow> no_start e \<and> mount_effect p e = Nothing \<and> (\<forall>r. e \<noteq> EvLoadErr r) \<and> (\<forall>r. e \<noteq> EvStoreErr r)"

lemma private_early: "list_all (pki_private p) s \<Longrightarrow> early (s @ t) = early t"
proof -
  assume s: "list_all (pki_private p) s"
  then have "before_go (s @ t) = s @ before_go t"
    by (intro before_go_append) (auto simp: pki_private_def list_all_iff)
  moreover have "undisturbed_from w (s @ u) = undisturbed_from w u" for w u
    using s by (induction s) (auto simp: pki_private_def split: event.splits)
  ultimately show "early (s @ t) = early t" by (simp add: early_def)
qed

lemma private_quiet:
  "list_all (pki_private p) s \<Longrightarrow> ttl_conform p m s \<and> replay_ttl p m s = m"
  by (induction s) (auto simp: pki_private_def ttl_Nothing)

lemma init_private: "each_call (pki_private p) pki_init"
  by (auto simp: pki_init_def read_namespace_def Let_def pki_private_def no_start_def mount_effect_def
      split: option.split sum.split)

lemma pki_job_within:
  assumes "p = ''sip-root-ca'' \<or> p = ''sip-interm-ca''"
  shows "always pki_job (job_within p)"
  unfolding pki_job_def
proof (rule always_bindI [OF init_private [of p]])
  show "job_within p t" if "list_all (pki_private p) t" for t
    by (simp add: job_within_def private_quiet [OF that])
  show "always (pki_main v) (\<lambda>t'. job_within p (t @ t'))" if "list_all (pki_private p) t" for t v
    by (rule always_mono [OF main_within [OF assms]])
      (simp add: job_within_def private_early [OF that] private_quiet [OF that])
qed

lemma untouched_job: "each_call (\<lambda>e. \<forall>p. p \<noteq> ''sip-root-ca'' \<longrightarrow> p \<noteq> ''sip-interm-ca'' \<longrightarrow> ttl_quiet p e) pki_job"
proof -
  let ?P = "\<lambda>e. \<forall>p. p \<noteq> ''sip-root-ca'' \<longrightarrow> p \<noteq> ''sip-interm-ca'' \<longrightarrow> ttl_quiet p e"
  have parts: "each_call ?P (enablePKIRootCA v)" "each_call ?P (enablePKIIntermCA v)" "each_call ?P pki_init" for v
    by (auto simp: enablePKIRootCA_def enablePKIIntermCA_def pki_init_def read_namespace_def Let_def pki_defs
        pki_names ttl_quiet_def mount_effect_def split: option.split sum.split)
  then have "each_call ?P (pki_rest mounts v)" for mounts v by (intro each_call_bind) auto
  then have "each_call ?P (pki_main v)" for v
    by (auto simp: pki_main_def always_conj ttl_quiet_def mount_effect_def split: sum.split split del: if_split)
  with parts(3) show ?thesis unfolding pki_job_def by (intro each_call_bind)
qed

text \<open>The calls of a process of the job that concern mounts are those of \<^verbatim>\<open>main\<close>.\<close>

lemma pki_ttl_calls:
  assumes "pki_execs ms c"
  shows "replay_ttl p m (all_calls ms) = replay_ttl p m (calls_of 0 ms) \<and>
    ttl_conform p m (all_calls ms) = ttl_conform p m (calls_of 0 ms)"
proof -
  have "mount_effect p e = Nothing" if "Act i e \<in> set ms" "i \<noteq> 0" for i e
    using pki_goroutine_harmless [OF assms that] by (auto simp: pki_harmless_def intro: untouched_nothing)
  then have "filter (\<lambda>e. mount_effect p e \<noteq> Nothing) (all_calls ms) =
      filter (\<lambda>e. mount_effect p e \<noteq> Nothing) (calls_of 0 ms)"
    by (intro filter_main_calls) auto
  then show ?thesis by (metis ttl_filter)
qed

interpretation pki_keeper: ttl_keeper
  "\<lambda>t. \<exists>ms c. pki_execs ms c \<and> t = all_calls ms" "\<lambda>p. p = ''sip-root-ca'' \<or> p = ''sip-interm-ca''"
proof
  fix t p m
  assume "\<exists>ms c. pki_execs ms c \<and> t = all_calls ms"
  then obtain ms c where c: "pki_execs ms c" and t: "t = all_calls ms" by blast
  note main = exec_main [OF c]
  show "list_all (ttl_quiet p) t" if "\<not> (p = ''sip-root-ca'' \<or> p = ''sip-interm-ca'')"
  proof -
    have "ttl_quiet p e" if "\<not> pki_harmless e \<Longrightarrow> e \<in> set (calls_of 0 ms)" "e \<in> set t" for e
    proof (cases "pki_harmless e")
      case True
      then have "\<not> touches p e" by (simp add: pki_harmless_def)
      then show ?thesis by (rule untouched_quiet)
    next
      case False
      with that(1) always_steps [OF untouched_job main] \<open>\<not> (p = _ \<or> p = _)\<close> show ?thesis
        by (auto simp: list_all_iff)
    qed
    then show ?thesis using pki_main_made [OF c] by (auto simp: t list_all_iff)
  qed
  show "ttls_within (replay_ttl p m t)"
    if "p = ''sip-root-ca'' \<or> p = ''sip-interm-ca''" "ttl_conform p m t" "ttls_within m"
    using always_steps [OF pki_job_within [OF that(1)] main] pki_early [OF c] pki_ttl_calls [OF c] that(2,3)
    by (simp add: job_within_def t)
qed

interpretation vault_keepers: ttl_keepers
  "\<lambda>t. \<exists>ms c. pki_execs ms c \<and> t = all_calls ms" "\<lambda>p. p = ''sip-root-ca'' \<or> p = ''sip-interm-ca''"
  "\<lambda>t. \<exists>reqs. worked ca_Reconcile reqs t" "\<lambda>p. \<exists>c. p = ca_mount c"
  by unfold_locales (auto simp: ca_mount_def)

subsection \<open>Properties\<close>

text \<open>C19: in every interleaving of any number of runs of the PKI job with any series of reconciliations of
  the client CAs, each of which may be stopped anywhere, and with a Vault that answers as one does, no
  mount is asked for a lifetime beyond its own: the root CA of every mount, and every role written
  to it, lives at most as long as the maximum lease TTL the mount was tuned to before.\<close>

theorem vault_ttls_within_lease:
  assumes "list_all (\<lambda>ms. \<exists>c. pki_execs ms c) jobs" and "worked ca_Reconcile reqs u"
    and "t \<in> shuffles (concat (map all_calls jobs)) u"
    and "ttl_conform p m t" and "ttls_within m"
  shows "ttls_within (replay_ttl p m t)"
proof (rule vault_keepers.both.keeps_all [OF _ assms(4,5)])
  have "list_all (\<lambda>t. \<exists>ms c. pki_execs ms c \<and> t = all_calls ms) (map all_calls jobs)"
    using assms(1) by (simp add: list_all_iff) blast
  moreover have "list_all (\<lambda>t. \<exists>reqs. worked ca_Reconcile reqs t) [u]" using assms(2) by auto
  ultimately show "\<exists>ts ts'. list_all (\<lambda>t. \<exists>ms c. pki_execs ms c \<and> t = all_calls ms) ts \<and>
      list_all (\<lambda>t. \<exists>reqs. worked ca_Reconcile reqs t) ts' \<and> t \<in> shuffles (concat ts) (concat ts')"
    using assms(3) by (intro exI [of _ "map all_calls jobs"] exI [of _ "[u]"]) simp
qed

lemma worked_whole: "accepts (ca_Reconcile req) t out \<Longrightarrow> worked ca_Reconcile [req] t"
  using worked.handled [OF _ worked.idle, of ca_Reconcile req t] by (auto simp: accepts_iff_steps)

lemma append_shuffles: "s @ t \<in> shuffles t s"
  by (induction s) (auto intro: Cons_in_shuffles_rightI)

theorem vault_ttls_within_lease_witness:
  "let t = tokenless_run (''sip'', ''ca'') sample_ca ''PEM'' (VaultError []) @ all_calls pki_good in
   ttls_within (replay_ttl ''sip-interm-ca'' None t) \<and>
   replay_ttl ''sip-interm-ca'' None t = Some \<lparr>Max_Lease = Some ''168h'', Asked = [''168h'']\<rparr>"
proof -
  let ?u = "tokenless_run (''sip'', ''ca'') sample_ca ''PEM'' (VaultError [])"
  let ?t = "?u @ concat (map all_calls [pki_good])"
  have jobs: "list_all (\<lambda>ms. \<exists>c. pki_execs ms c) [pki_good]" using pki_good_exec by auto
  have replay: "replay_ttl ''sip-interm-ca'' None ?t = Some \<lparr>Max_Lease = Some ''168h'', Asked = [''168h'']\<rparr>"
    and conform: "ttl_conform ''sip-interm-ca'' None ?t"
    by (simp_all add: pki_good_def pki_head_def root_head_def root_role_call_def no_patch_def interm_events_def
        interm_chain_def tokenless_run_def tokenless_enable_def setup_calls_def ca_mount_def apply_ttl_def
        ttl_reply_ok_def mount_effect_def ask_ttl_def record_defs)
  from vault_ttls_within_lease [OF jobs worked_whole [OF accepts_tokenless_run] append_shuffles conform]
    replay show ?thesis by (simp add: ttls_within_def)
qed

end
