(* ===== verification/Vault_Pki_Reruns.thy ===== *)
theory Vault_Pki_Reruns
  imports Vault_Pki_Schedules Vault_Ca
begin

text \<open>
  Repeated runs of the PKI job.  Its manifest lets Kubernetes start the job again after an exit code
  other than 0, and the job only tests whether its mounts are listed: what a first run has
  enabled but not finished is left alone by every later one.
\<close>

text \<open>Without a list of the secrets engines the job configures nothing.\<close>

definition listed_first :: "event list \<Rightarrow> bool" where
  "listed_first t \<longleftrightarrow> (\<exists>l. EvListMounts (Inr l) \<in> set t) \<or> list_all (\<lambda>e. \<forall>m. \<not> touches m e) t"

lemma pki_job_lists_first: "always pki_job listed_first"
proof -
  have "listed_first []" "listed_first (EvListMounts (Inr l) # t)" "listed_first [EvListMounts (Inl e)]" for l t e
    by (auto simp: listed_first_def touches_def)
  then have main: "always (pki_main v) listed_first" for v
    by (simp add: pki_main_def split: sum.split)
  have app: "listed_first (t @ t')" if "list_all pki_harmless t" "listed_first t'" for t t'
    using that by (auto simp: listed_first_def pki_harmless_def list_all_iff)
  show ?thesis
    unfolding pki_job_def
  proof (rule always_bindI [OF pki_init_harmless])
    show "listed_first t" if "list_all pki_harmless t" for t
      using that by (auto simp: listed_first_def pki_harmless_def list_all_iff)
    show "always (pki_main v) (\<lambda>t'. listed_first (t @ t'))" if "list_all pki_harmless t" for t v
      by (rule always_mono [OF main]) (rule app [OF that])
  qed
qed

lemma pki_touches_listed:
  assumes "pki_execs ms c" and "e \<in> set (all_calls ms)" and "touches m e"
  obtains l where "EvListMounts (Inr l) \<in> set (all_calls ms)"
proof -
  have "\<not> pki_harmless e" using assms(3) by (auto simp: pki_harmless_def)
  from pki_main_made [OF assms(1,2) this] assms(3) always_steps [OF pki_job_lists_first exec_main [OF assms(1)]]
  show thesis using that by (auto simp: listed_first_def list_all_iff dest: calls_of_subset)
qed

text \<open>C21: a mount of the PKI job that one run has enabled is left alone by every run after it, whatever
  became of the first: it is not tuned, gets no CA, no role and no certificate.  So a set-up that
  fails half way is never completed.\<close>

theorem pki_half_set_up_mount_stays:
  assumes "pki_execs ms c" and "pki_execs ms' c'"
    and "m = ''sip-root-ca'' \<or> m = ''sip-interm-ca''"
    and "EvDo (MountsEnableSecretsEngine m mr) None \<in> set (all_calls ms)"
    and "mounts_conform v (all_calls ms @ t @ all_calls ms')"
  shows "list_all (\<lambda>e. \<not> touches m e) (all_calls ms')"
proof (cases "\<exists>l. EvListMounts (Inr l) \<in> set (all_calls ms')")
  case True
  then obtain l s u where l: "all_calls ms' = s @ EvListMounts (Inr l) # u" by (auto dest: split_list)
  with assms(5) have "mounts_conform v ((all_calls ms @ t @ s) @ EvListMounts (Inr l) # u)" by simp
  then have "l = replay_mounts v (all_calls ms @ t @ s)" by (rule conform_listed)
  then have "m @ ''/'' \<in> l" using enabled_is_mounted [of m mr "all_calls ms @ t @ s" v] assms(4) by simp
  with l show ?thesis by (intro listed_untouched [OF assms(2) _ assms(3)]) auto
next
  case False
  then show ?thesis using pki_touches_listed [OF assms(2)] by (auto simp: list_all_iff)
qed

text \<open>Three runs of the job against the same Vault, in which only the first tuning fails, and then the
  signing of the intermediate, for want of a root.\<close>

definition first_run :: "move list" where
  "first_run = map (Act 0) (pki_head {} @
     [EvDo (MountsEnableSecretsEngine rootCAPath (pki_mount_request ''server authn'')) None,
      EvDo (MountsTuneConfigurationParameters rootCAPath rootCATTL) (Some (VaultError ''unavailable'')),
      EvStoreErr (Some (VaultError ''unavailable'')), EvLoadErr (Some (VaultError ''unavailable''))]) @ [Stop 0]"

definition second_run :: "move list" where
  "second_run = map (Act 0) (pki_head {''sip-root-ca/''} @
     [EvDo (MountsEnableSecretsEngine ''sip-interm-ca'' (pki_mount_request ''server authn'')) None] @
     take 3 (interm_chain ''R'' ''I'') @ [no_patch ''sip-interm-ca/roles/interm-ca''] @
     [EvAsk (PkiGenerateIntermediate ''sip-interm-ca'' ''internal'' interm_generate_request) (Inr ''R''),
      EvAsk (PkiRootSignIntermediate ''sip-root-ca'' (interm_sign_request ''R'')) (Inl (VaultError ''no CA''))]) @
     [Stop 0]"

definition third_run :: "move list" where
  "third_run = map (Act 0) (pki_head {''sip-interm-ca/'', ''sip-root-ca/''}) @ [Stop 0]"

definition exits_with :: "nat \<Rightarrow> move list \<Rightarrow> bool" where
  "exits_with n ms \<longleftrightarrow> (\<exists>c. pki_execs ms c \<and> exit_code c = Some n)"

lemma three_runs:
  "exits_with 1 first_run" "exits_with 1 second_run" "exits_with 0 third_run"
  by (simp_all add: exits_with_def first_run_def second_run_def third_run_def pki_sample_defs Let_def)

lemmas rerun_defs = first_run_def second_run_def third_run_def pki_head_def interm_chain_def no_patch_def
  rootCAPath_def intermCAPath_def

text \<open>A failure is hidden by repeating the job: two runs end with code 1, the third with code 0, and Vault,
  which has behaved as one does, has no CA in any mount.\<close>

theorem pki_rerun_hides_failure:
  "exits_with 1 first_run \<and> exits_with 1 second_run \<and> exits_with 0 third_run \<and>
   mounts_conform {} (concat (map all_calls [first_run, second_run, third_run])) \<and>
   ca_conform signs Map.empty (concat (map all_calls [first_run, second_run, third_run])) \<and>
   replay_cas Map.empty (concat (map all_calls [first_run, second_run, third_run])) = Map.empty"
  by (intro conjI three_runs)
    (simp_all add: rerun_defs mount_reply_ok_def apply_mount_def enabled_path_def apply_ca_def new_ca_def ca_reply_ok_def)

theorem pki_half_set_up_mount_stays_witness:
  "list_all (\<lambda>e. \<not> touches ''sip-root-ca'' e) (all_calls third_run)"
proof -
  from three_runs obtain c c' where "pki_execs first_run c" "pki_execs third_run c'"
    by (auto simp: exits_with_def)
  moreover have "EvDo (MountsEnableSecretsEngine ''sip-root-ca'' (pki_mount_request ''server authn'')) None
      \<in> set (all_calls first_run)"
    by (simp add: rerun_defs)
  moreover have "mounts_conform {} (all_calls first_run @ all_calls second_run @ all_calls third_run)"
    by (simp add: rerun_defs mount_reply_ok_def apply_mount_def enabled_path_def)
  ultimately show ?thesis by (blast intro: pki_half_set_up_mount_stays)
qed

end
