(* ===== verification/Vault_Init_Errors.thy ===== *)
theory Vault_Init_Errors
  imports Vault_Init_Schedules "HOL-Library.Sublist"
begin

text \<open>
  Errors of the job init/main.go, for every schedule of \<^verbatim>\<open>main\<close> and its unsealing goroutines: which failed
  calls an exit code 0 can hide.
\<close>

text \<open>The creation of a secret that is there already, followed by reading that secret and updating it with
  the entries that were to be created.\<close>

definition replaced :: "event \<Rightarrow> event list \<Rightarrow> bool" where
  "replaced e t \<longleftrightarrow> (\<exists>ns s err got m. e = EvDo (CreateSecret ns s) (Some err) \<and> IsAlreadyExists err \<and>
     Data got = Some m \<and>
     subseq [e, EvGetSecret ns (secret_name s) (Inr got),
       EvDo (UpdateSecret ns (got\<lparr>Data := Some (m ++ StringData s)\<rparr>)) None] t)"

lemma replaced_append: "replaced e t \<Longrightarrow> replaced e (s @ t)" "replaced e s \<Longrightarrow> replaced e (s @ t)"
  unfolding replaced_def by (blast intro: list_emb_append2 list_emb_prefix)+

lemma replaced_simp [simp]:
  assumes "IsAlreadyExists err" and "Data got = Some m" and "n = secret_name s"
    and "s' = got\<lparr>Data := Some (the (Data got) ++ StringData s)\<rparr>"
  shows "replaced (EvDo (CreateSecret ns' s) (Some err))
    [EvDo (CreateSecret ns' s) (Some err), EvGetSecret ns' n (Inr got), EvDo (UpdateSecret ns' s') None]"
  using assms unfolding replaced_def by (intro exI [of _ ns'] exI [of _ s] exI [of _ err] exI [of _ got] exI [of _ m]) simp

lemma persist_errors:
  "all_paths (persist_unseal_key x) (\<lambda>t out. out = Returned () \<longrightarrow> (\<forall>e \<in> set t. reply_error e \<longrightarrow> replaced e t))"
  "all_paths (persist_root_token x) (\<lambda>t out. out = Returned () \<longrightarrow> (\<forall>e \<in> set t. reply_error e \<longrightarrow> replaced e t))"
  by (auto simp: persist_unseal_key_def persist_root_token_def data_set_def
      split: prod.split option.split sum.split)

definition unread_namespace :: "event \<Rightarrow> bool" where
  "unread_namespace e \<longleftrightarrow> (\<exists>err. e = EvAsk (ReadFile namespace_file) (Inl err))"

lemma env_vars_errors:
  "env_vars v t \<Longrightarrow> e \<in> set t \<Longrightarrow> reply_error e \<Longrightarrow> unread_namespace e"
  unfolding env_vars_def
  by (elim exE conjE) (auto simp: unread_namespace_def isl_def split: option.splits)

lemma initialised_run_errors:
  assumes "initialised_run v addr data ns' k token u" and "e \<in> set u" and "reply_error e"
  shows "unread_namespace e \<or> replaced e u"
proof -
  from assms(1) obtain r t1 t2 where u: "u = init_head addr data (vaultFQDNs v) k r @ t1 @ t2 @ [EvWgWait]"
    and acc: "accepts (persist_unseal_key (ns', k)) t1 (Returned ())"
      "accepts (persist_root_token (ns', token)) t2 (Returned ())"
    unfolding initialised_run_def by blast
  from assms(2,3) have "unread_namespace e \<or> e \<in> set t1 \<or> e \<in> set t2"
    by (auto simp: u init_head_def workers_def unread_namespace_def reply_error_def isl_def)
  with all_paths_accepts [OF persist_errors(1) acc(1)] all_paths_accepts [OF persist_errors(2) acc(2)] assms(3)
  have "unread_namespace e \<or> replaced e t1 \<or> replaced e t2" by blast
  then show ?thesis by (auto simp: u intro: replaced_append)
qed

lemma unsealed_run_errors: "unsealed_run v k u \<Longrightarrow> e \<in> set u \<Longrightarrow> \<not> reply_error e"
  by (auto simp: unsealed_run_def workers_def reply_error_def)

lemma worker_errors:
  "always (unSealWorker f k s) (\<lambda>t. EvWgDone \<in> set t \<longrightarrow> (\<forall>e \<in> set t. reply_error e \<longrightarrow>
     (\<exists>err. e = EvDo (VaultNew (''https://'' @ f @ '':8200'') ca_file) (Some err))))"
  by (auto simp: unSealWorker_def getClientV_def reply_error_def Let_def split: option.split sum.split)

lemma exit_0_run:
  assumes "init_execs ms c" and "exit_code c = Some 0"
  obtains t0 ad dat u v where "calls_of 0 ms = (t0 @ [EvAskJson (ReadHealthStatus ad) (Inr dat)]) @ u"
    "env_vars v t0" "good_end v ad dat u"
proof (rule init_runs_0 [OF assms])
  fix v ad dat t0 u
  assume "calls_of 0 ms = t0 @ EvAskJson (ReadHealthStatus ad) (Inr dat) # u" "env_vars v t0" "good_end v ad dat u"
  then show thesis by (intro that [of t0 ad dat u v]) simp_all
qed

text \<open>When the process ends with code 0, each goroutine it started is done.\<close>

lemma workers_finished:
  assumes "init_execs ms c" and "exit_code c = Some 0" and "0 < i" and "i < length (threads c)"
  shows "EvWgDone \<in> set (calls_of i ms)"
proof -
  obtain v ad dat t0 u where
    t: "calls_of 0 ms = (t0 @ [EvAskJson (ReadHealthStatus ad) (Inr dat)]) @ u" and env: "env_vars v t0"
    and good: "good_end v ad dat u" by (rule exit_0_run [OF assms(1,2)])
  have n: "length (threads c) = Suc (length (spawned u))"
    using exec_started [OF assms(1)] init_main_starts [OF assms(1)] env_vars_wg [OF env] by (simp add: t)
  from good consider "u = []" | k where "barrier_run (vaultFQDNs v) k u"
    unfolding good_end_def using unsealed_run_barrier initialised_run_barrier by blast
  then show ?thesis
  proof cases
    case 1
    with n assms(3,4) show ?thesis by simp
  next
    case 2
    then have "length (spawned u) = 3" by (auto simp: barrier_run_def workers_def)
    moreover have "\<forall>i < 3. EvWgDone \<in> set (calls_of (Suc i) ms)"
      using init_barrier [OF assms(1) t 2] env_vars_wg [OF env] by simp
    ultimately show ?thesis using n assms(3,4) by (cases i) auto
  qed
qed

text \<open>C31: in every interleaving, exit code 0 hides no failed call of the init job but three kinds: the
  namespace file that could not be read, the client a worker could not build, and the creation of a secret
  that was there already, which \<^verbatim>\<open>main\<close> has then read and updated with the new entry.\<close>

theorem init_errors_reported:
  assumes "init_execs ms c" and "exit_code c = Some 0"
    and "Act i e \<in> set ms" and "reply_error e"
  shows "unread_namespace e \<or> i = 0 \<and> replaced e (calls_of 0 ms) \<or>
    0 < i \<and> (\<exists>f err. e = EvDo (VaultNew (''https://'' @ f @ '':8200'') ca_file) (Some err))"
proof (cases "i = 0")
  case True
  obtain v ad dat t0 u where
    t: "calls_of 0 ms = (t0 @ [EvAskJson (ReadHealthStatus ad) (Inr dat)]) @ u" and env: "env_vars v t0"
    and good: "good_end v ad dat u" by (rule exit_0_run [OF assms(1,2)])
  from assms(3,4) True consider "e \<in> set t0" | "e \<in> set u"
    by (auto simp: in_calls_of_iff [symmetric] t reply_error_def)
  then show ?thesis
  proof cases
    case 1
    with env_vars_errors [OF env] assms(4) show ?thesis by blast
  next
    case 2
    with good assms(4) have "unread_namespace e \<or> replaced e u"
      unfolding good_end_def using unsealed_run_errors initialised_run_errors by fastforce
    then show ?thesis unfolding t using True by (blast intro: replaced_append)
  qed
next
  case False
  then have i: "0 < i" "i < length (threads c)" using Act_in_range [OF assms(1,3)] by simp_all
  obtain f k s where "steps (unSealWorker f k s) (calls_of i ms) = Some (threads c ! i)"
    by (rule init_worker [OF assms(1) i])
  from always_steps [OF worker_errors this] workers_finished [OF assms(1,2) i] assms(3,4) i
  show ?thesis by (auto simp: in_calls_of_iff)
qed

text \<open>A schedule in which the secret of the unseal key is there already and the client to the second node
  cannot be built.\<close>

definition key_secret_exists :: event where
  "key_secret_exists = EvDo (CreateSecret ''sip'' (credential_secret ''vault-unseal-key'' [] ''key'' ''K''))
     (Some (StatusError AlreadyExists ''s''))"

definition old_key_secret :: secret where
  "old_key_secret = empty_secret\<lparr>Data := Some [''key'' \<mapsto> ''old'']\<rparr>"

definition tolerant_schedule :: "move list" where
  "tolerant_schedule = sample_init fresh ''a,b,c'' @ map (Act 0) sample_start @ sample_worker 1 ''a'' False @
     map (Act 0) [EvAsk (ReadFile namespace_file) (Inr ''sip''), key_secret_exists,
       EvGetSecret ''sip'' ''vault-unseal-key'' (Inr old_key_secret),
       EvDo (UpdateSecret ''sip'' (old_key_secret\<lparr>Data := Some [''key'' \<mapsto> ''K'']\<rparr>)) None,
       EvDo (CreateSecret ''sip'' (credential_secret ''vault-root-token'' ''sip'' ''token'' ''T'')) None] @
     sample_worker 3 ''c'' True @
     map (Act 2) [EvDo (VaultNew (sample_addr ''b'') ca_file) (Some (PlainError ''no CA'')), EvWgDone] @
     [Act 0 EvWgWait, Stop 0]"

lemma tolerant_exec: "\<exists>c. init_execs tolerant_schedule c \<and> exit_code c = Some 0"
  by (simp add: tolerant_schedule_def key_secret_exists_def old_key_secret_def empty_secret_def data_set_def
      sample_defs job_defs start_def shared_effect_def stop_code_def go_index_def Let_def IsNotFound_def)

theorem init_errors_reported_witness:
  "(\<exists>c. init_execs tolerant_schedule c \<and> exit_code c = Some 0) \<and>
   replaced key_secret_exists (calls_of 0 tolerant_schedule)"
proof -
  obtain c where c: "init_execs tolerant_schedule c" "exit_code c = Some 0" using tolerant_exec by blast
  have "Act 0 key_secret_exists \<in> set tolerant_schedule" by (simp add: tolerant_schedule_def)
  moreover have "reply_error key_secret_exists" by (simp add: key_secret_exists_def)
  ultimately have "unread_namespace key_secret_exists \<or> replaced key_secret_exists (calls_of 0 tolerant_schedule)"
    using init_errors_reported [OF c] by blast
  then show ?thesis using c by (auto simp: unread_namespace_def key_secret_exists_def)
qed

end
