(* ===== verification/Vault_Pki_Errors.thy ===== *)
theory Vault_Pki_Errors
  imports Vault_Pki_Schedules
begin

text \<open>
  Errors of the job pki/main.go, for every schedule of \<^verbatim>\<open>main\<close> and its goroutine: which failed calls an
  exit code 0 can hide, and that the process never ends with another code without a failed call.
  Both need the provenance of what is read from the shared \<^verbatim>\<open>err\<close>.
\<close>

text \<open>The calls whose failure the code ignores or only logs: reading the namespace file and the root token,
  enabling a mount, and the PATCH request.\<close>

definition tolerated :: "event \<Rightarrow> bool" where
  "tolerated e \<longleftrightarrow>
     (case e of
        EvAsk q r \<Rightarrow> q = ReadFile namespace_file
      | EvGetSecret ns n r \<Rightarrow> n = ''vault-root-token''
      | EvDo a r \<Rightarrow>
          (case a of MountsEnableSecretsEngine m q \<Rightarrow> True | HttpNewRequest meth url body \<Rightarrow> True
           | HttpDo h \<Rightarrow> True | BodyClose \<Rightarrow> True | _ \<Rightarrow> False)
      | _ \<Rightarrow> False)"

text \<open>The calls of \<^verbatim>\<open>main\<close> that set the shared variable while the goroutine may run.\<close>

definition races :: "event \<Rightarrow> bool" where
  "races e \<longleftrightarrow> (\<exists>r. e = EvDo (PkiConfigureUrls rootCAPath (urls_of rootCAPath)) r \<or>
     e = EvDo (PkiWriteRole rootCAPath rootCARole root_role_request) r)"

definition fatal :: "event \<Rightarrow> bool" where
  "fatal e \<longleftrightarrow> reply_error e \<and> \<not> tolerated e"

lemmas fatal_defs = fatal_def tolerated_def reply_error_def

lemmas job_part_defs = pki_init_def read_namespace_def enablePKIRootCA_def enablePKIIntermCA_def
  persist_root_ca_def pki_defs

subsection \<open>What exit code 0 can hide\<close>

definition reported :: "event list \<Rightarrow> bool" where
  "reported t \<longleftrightarrow> (\<forall>w. undisturbed_from w (before_go t) \<longrightarrow>
     (\<forall>e \<in> set t. fatal e \<longrightarrow> races e \<and> \<not> undisturbed_from w t))"

text \<open>Calls that leave the shared variable alone.\<close>

definition quiet :: "event \<Rightarrow> bool" where
  "quiet e \<longleftrightarrow> (\<forall>g. e \<noteq> EvGo g) \<and> (\<forall>v. e \<noteq> EvStoreErr v) \<and> (\<forall>v. e \<noteq> EvLoadErr v)"

lemma quiet_prefix:
  assumes "list_all quiet s"
  shows "before_go (s @ t) = s @ before_go t" and "undisturbed_from w (s @ t) = undisturbed_from w t"
  using assms by (induction s arbitrary: w) (auto simp: quiet_def split: event.splits)

lemma undisturbed_from_append: "undisturbed_from w (s @ t) \<Longrightarrow> undisturbed_from w s"
  by (induction s arbitrary: w) (auto split: event.splits)

lemma before_go_first: "\<exists>u. before_go (s @ t) = before_go s @ u"
proof (induction s)
  case (Cons e s)
  then show ?case by (cases e) auto
qed simp

lemma reported_Nil: "reported []"
  by (simp add: reported_def)

lemma reported_before:
  assumes "list_all quiet s" and "list_all (\<lambda>e. \<not> fatal e) s" and "reported t"
  shows "reported (s @ t)"
  using assms unfolding reported_def by (auto simp: quiet_prefix list_all_iff)

lemma reported_after:
  assumes "reported s" and "list_all (\<lambda>e. \<not> fatal e) t"
  shows "reported (s @ t)"
  unfolding reported_def
proof (intro allI impI ballI)
  fix w e
  assume w: "undisturbed_from w (before_go (s @ t))" and e: "e \<in> set (s @ t)" "fatal e"
  from before_go_first obtain u where "before_go (s @ t) = before_go s @ u" by blast
  with w have "undisturbed_from w (before_go s)" by (auto dest: undisturbed_from_append)
  with assms e show "races e \<and> \<not> undisturbed_from w (s @ t)"
    by (auto simp: reported_def list_all_iff dest: undisturbed_from_append)
qed

lemma init_reports:
  "all_paths pki_init (\<lambda>t out. \<forall>v. out = Returned v \<longrightarrow> list_all (\<lambda>e. \<not> fatal e) t)"
  by (auto simp: job_part_defs fatal_defs split: option.split sum.split)

lemma init_quiet: "each_call quiet pki_init"
  by (auto simp: job_part_defs quiet_def split: option.split sum.split)

lemma interm_reports:
  "all_paths (enablePKIIntermCA v) (\<lambda>t out. out = Returned () \<longrightarrow> list_all (\<lambda>e. \<not> fatal e) t)"
  by (auto simp: job_part_defs fatal_defs split: option.split sum.split)

lemma interm_exits: "all_paths (enablePKIIntermCA v) (\<lambda>t out. out \<noteq> Exited 0)"
  by (rule all_paths_mono [OF interm_runs]) simp

lemma root_reports: "all_paths (enablePKIRootCA v) (\<lambda>t out. out = Returned () \<longrightarrow> reported t)"
  by (auto simp: reported_def races_def job_part_defs fatal_defs split: option.split sum.split)

lemma rest_reports:
  "all_paths (pki_rest mounts v) (\<lambda>t out. out = Exited 0 \<or> out = Returned () \<longrightarrow> reported t)"
proof -
  have root: "all_paths (if ''sip-root-ca/'' \<notin> mounts then enablePKIRootCA v else Ret ())
      (\<lambda>t out. out \<noteq> Exited 0 \<and> (out = Returned () \<longrightarrow> reported t))"
    by (simp add: all_paths_conj root_runs root_reports reported_Nil)
  have interm: "all_paths (bind (if ''sip-interm-ca/'' \<notin> mounts then enablePKIIntermCA v else Ret ()) (\<lambda>_. Exit 0))
      (\<lambda>t out. out = Exited 0 \<or> out = Returned () \<longrightarrow> list_all (\<lambda>e. \<not> fatal e) t)"
    by (rule all_paths_bindI [where R = "\<lambda>t out. out \<noteq> Exited 0 \<and> (out = Returned () \<longrightarrow> list_all (\<lambda>e. \<not> fatal e) t)"])
      (simp_all add: all_paths_conj interm_exits interm_reports)
  show ?thesis
    by (rule all_paths_bindI [OF root], rule all_paths_mono [OF interm]) (auto intro: reported_after)
qed

text \<open>C32: in every schedule, exit code 0 hides no failure but the tolerated ones (the namespace file, the
  root token, enabling a mount, the PATCH request): any other call of \<^verbatim>\<open>main\<close> that failed is the one that
  gives the root mount its URLs or its role, and \<^verbatim>\<open>main\<close> has then read from the shared variable what
  it had not stored last.\<close>

theorem pki_errors_reported:
  assumes "pki_execs ms c" and "exit_code c = Some 0"
    and "e \<in> set (calls_of 0 ms)" and "reply_error e"
  shows "tolerated e \<or> races e \<and> \<not> undisturbed (calls_of 0 ms)"
proof -
  from pki_exit_0 [OF assms(1,2)] obtain out where acc: "accepts pki_job (calls_of 0 ms) out"
    and out: "out = Exited 0 \<or> out = Returned ()" by blast
  from pki_exit_0_rest [OF acc out] obtain t0 v mounts u where
    t: "calls_of 0 ms = t0 @ EvListMounts (Inr mounts) # u"
    and u: "accepts (pki_rest mounts v) u out" and t0: "accepts pki_init t0 (Returned v)" .
  have "list_all quiet (t0 @ [EvListMounts (Inr mounts)])"
    using always_accepts [OF init_quiet t0] by (simp add: quiet_def)
  moreover have "list_all (\<lambda>e. \<not> fatal e) (t0 @ [EvListMounts (Inr mounts)])"
    using all_paths_accepts [OF init_reports t0] by (simp add: fatal_defs)
  moreover have "reported u" using all_paths_accepts [OF rest_reports u] out by blast
  ultimately have "reported ((t0 @ [EvListMounts (Inr mounts)]) @ u)" by (rule reported_before)
  with pki_early [OF assms(1)] assms(3,4) show ?thesis
    by (auto simp: t reported_def early_def fatal_def)
qed

theorem pki_errors_reported_witness:
  "(\<exists>c. pki_execs masked_schedule c \<and> exit_code c = Some 0) \<and>
   races (root_role_call (Some (VaultError ''refused''))) \<and> \<not> undisturbed (calls_of 0 masked_schedule)"
proof -
  let ?e = "root_role_call (Some (VaultError ''refused''))"
  obtain c where c: "pki_execs masked_schedule c" "exit_code c = Some 0" "?e \<in> set (calls_of 0 masked_schedule)"
    using pki_shared_err_race by blast
  have "reply_error ?e" "\<not> tolerated ?e" by (simp_all add: root_role_call_def tolerated_def)
  with pki_errors_reported [OF c] c(1,2) show ?thesis by blast
qed

subsection \<open>No other exit code without a failed call\<close>


text \<open>A run with a fatal failure, or in which an error was read from the shared variable.\<close>

definition blamed :: "event list \<Rightarrow> bool" where
  "blamed t \<longleftrightarrow> (\<exists>e \<in> set t. fatal e \<or> (\<exists>x. e = EvLoadErr (Some x)))"

lemma blamed_append [simp]: "blamed (s @ t) \<longleftrightarrow> blamed s \<or> blamed t"
  by (auto simp: blamed_def)














end
