(* ===== verification/Root_Token.thy ===== *)
theory Root_Token
  imports Vault_Init_Schedules Vault_Pki_Schedules ClientCA_Controller Operator_Managers
begin

text \<open>
  The root token of Vault, from the init job that stores it to the programs that present it: both
  operators, as the token of their Vault client, the controller of the client CAs, in the header of its
  PATCH request, and the PKI job, in both ways.

  \<^item> \<open>token_sent e\<close>: the token a call presents.
  \<^item> \<open>token_origin st t tok\<close>: the run \<open>t\<close> has read its namespace, and \<open>tok\<close> is what the store \<open>st\<close> holds
    there as the root token.
\<close>

subsection \<open>The PKI job\<close>

definition token_sent :: "event \<Rightarrow> string option" where
  "token_sent e =
     (case e of EvDo a r \<Rightarrow>
        (case a of SetToken tok \<Rightarrow> Some tok | HttpDo h \<Rightarrow> map_of (Header h) ''X-Vault-Token'' | _ \<Rightarrow> None)
      | _ \<Rightarrow> None)"

text \<open>The first calls of the job when it can read the token.\<close>

definition token_head :: "go_error + string \<Rightarrow> secret \<Rightarrow> event list" where
  "token_head r s = [EvAsk (ReadFile namespace_file) r, EvDo InClusterConfig None, EvDo NewForConfig None,
     EvGetSecret (file_contents r) ''vault-root-token'' (Inr s)]"

lemma pki_parts_token:
  "each_call (\<lambda>e. \<forall>tok. token_sent e = Some tok \<longrightarrow> tok = rootToken v) (enablePKIRootCA v)"
  "each_call (\<lambda>e. \<forall>tok. token_sent e = Some tok \<longrightarrow> tok = rootToken v) (enablePKIIntermCA v)"
  by (auto simp: enablePKIRootCA_def enablePKIIntermCA_def pki_defs token_sent_def split: option.split sum.split)

lemma pki_main_token: "each_call (\<lambda>e. \<forall>tok. token_sent e = Some tok \<longrightarrow> tok = rootToken v) (pki_main v)"
  using pki_parts_token [of v]
  by (auto simp: pki_main_def always_conj token_sent_def intro!: each_call_bind split: sum.split)

definition token_from_head :: "event list \<Rightarrow> bool" where
  "token_from_head t \<longleftrightarrow> (\<forall>e tok. e \<in> set t \<longrightarrow> token_sent e = Some tok \<longrightarrow> tok \<noteq> [] \<longrightarrow>
     (\<exists>r s u. t = token_head r s @ u \<and> tok = data_get s ''token''))"

lemma pki_init_token:
  "always pki_init token_from_head"
  "all_paths pki_init (\<lambda>t out. \<forall>v. out = Returned v \<longrightarrow> rootToken v \<noteq> [] \<longrightarrow>
     (\<exists>r s u. t = token_head r s @ u \<and> rootToken v = data_get s ''token''))"
  by (auto simp: pki_init_def read_namespace_def Let_def token_from_head_def token_sent_def token_head_def
      data_get_def got_or_empty_def empty_secret_def split: option.split sum.split)

lemma pki_job_token: "always pki_job token_from_head"
  unfolding pki_job_def always_bind
proof (intro conjI pki_init_token(1) accepts_all_pathsI allI impI)
  fix t out v
  assume run: "accepts pki_init t out" and out: "out = Returned v"
  have init: "token_from_head t" using pki_init_token(1) run by (rule always_accepts)
  have v: "rootToken v \<noteq> [] \<Longrightarrow> \<exists>r s u. t = token_head r s @ u \<and> rootToken v = data_get s ''token''"
    using all_paths_accepts [OF pki_init_token(2) run] out by blast
  have "token_from_head (t @ t')" if t': "list_all (\<lambda>e. \<forall>tok. token_sent e = Some tok \<longrightarrow> tok = rootToken v) t'" for t'
    unfolding token_from_head_def
  proof (intro allI impI)
    fix e tok
    assume e: "e \<in> set (t @ t')" and sent: "token_sent e = Some tok" and "tok \<noteq> []"
    have "\<exists>r s u. t = token_head r s @ u \<and> tok = data_get s ''token''"
    proof (cases "e \<in> set t")
      case True
      with init sent \<open>tok \<noteq> []\<close> show ?thesis unfolding token_from_head_def by blast
    next
      case False
      with e sent t' have "tok = rootToken v" by (auto simp: list_all_iff)
      with v \<open>tok \<noteq> []\<close> show ?thesis by simp
    qed
    then obtain r s u where "t @ t' = token_head r s @ (u @ t')" "tok = data_get s ''token''" by auto
    then show "\<exists>r s u. t @ t' = token_head r s @ u \<and> tok = data_get s ''token''" by blast
  qed
  then show "always (pki_main v) (\<lambda>t'. token_from_head (t @ t'))"
    by (rule always_mono [OF pki_main_token])
qed

lemma persist_no_token: "each_call (\<lambda>e. token_sent e = None) (persist_root_ca x)"
  by (auto simp: persist_root_ca_def set_err_def token_sent_def split: prod.split option.split sum.split)

subsection \<open>The operators\<close>

lemma ca_token:
  "always (ca_Reconcile req) (\<lambda>t. \<forall>e tok st. e \<in> set t \<longrightarrow> token_sent e = Some tok \<longrightarrow> conforms st t \<longrightarrow>
     (\<exists>r s. EvAsk (ReadFile namespace_file) r \<in> set t \<and>
       st (file_contents r, ''vault-root-token'') = Some (entries s) \<and> StringData s = Map.empty \<and>
       tok = data_get s ''token''))"
  by (auto simp: ca_reconcile_defs token_sent_def reply_ok_other namespace_file_def file_contents_def
      split: sum.splits option.splits)


lemma manager_no_request:
  "all_paths (manager op) (\<lambda>t out. \<forall>e tok. e \<in> set t \<longrightarrow> token_sent e = Some tok \<longrightarrow> (\<exists>r. e = EvDo (SetToken tok) r))"
  by (cases op) (auto simp: manager_defs Let_def token_sent_def split: option.split sum.split)

subsection \<open>Where a token comes from\<close>

text \<open>What was read to obtain a token that a run has sent, from a store \<open>st\<close>.\<close>

definition token_origin :: "secret_store \<Rightarrow> event list \<Rightarrow> string \<Rightarrow> bool" where
  "token_origin st t tok \<longleftrightarrow> (\<exists>r s. EvAsk (ReadFile namespace_file) r \<in> set t \<and>
     st (file_contents r, ''vault-root-token'') = Some (entries s) \<and> StringData s = Map.empty \<and>
     tok = data_get s ''token'')"

lemma pki_token_origin:
  assumes "pki_execs ms c" and "e \<in> set (all_calls ms)" and "token_sent e = Some tok" and "tok \<noteq> []"
    and "conforms st (all_calls ms)"
  shows "token_origin st (all_calls ms) tok"
proof -
  obtain i where i: "Act i e \<in> set ms" using assms(2) by (auto simp: all_calls_iff)
  have "i = 0"
  proof (rule ccontr)
    assume "i \<noteq> 0"
    with pki_goroutine [OF assms(1) _ Act_in_range [OF assms(1) i]] obtain ns cert where
      "steps (persist_root_ca (ns, cert)) (calls_of i ms) = Some (threads c ! i)" by blast
    from always_steps [OF persist_no_token this] i assms(3) show False
      by (auto simp: list_all_iff in_calls_of_iff)
  qed
  with i have "e \<in> set (calls_of 0 ms)" by (simp add: in_calls_of_iff)
  with always_steps [OF pki_job_token exec_main [OF assms(1)]] assms(3,4) obtain r s u where
    head: "calls_of 0 ms = token_head r s @ u" and tok: "tok = data_get s ''token''"
    unfolding token_from_head_def by blast
  have "before_go (all_calls ms) = before_go (calls_of 0 ms)"
    using alone_before_go [of pki_body "start pki_job" ms c] assms(1) by (simp add: start_def)
  also have "\<dots> = token_head r s @ before_go u" by (simp add: head token_head_def)
  finally obtain u' where all: "all_calls ms = token_head r s @ u'"
    using before_go_prefix [of "all_calls ms"] by auto
  from assms(5) have "st (file_contents r, ''vault-root-token'') = Some (entries s)" "StringData s = Map.empty"
    by (auto simp: all token_head_def reply_ok_other)
  moreover have "EvAsk (ReadFile namespace_file) r \<in> set (all_calls ms)" by (simp add: all token_head_def)
  ultimately show ?thesis using tok by (auto simp: token_origin_def)
qed

text \<open>The programs that present a token to Vault.\<close>

definition vault_client :: "event list \<Rightarrow> bool" where
  "vault_client t \<longleftrightarrow> (\<exists>op out. accepts (manager op) t out) \<or>
     (\<exists>ms c. pki_execs ms c \<and> t = all_calls ms) \<or> (\<exists>req p. steps (ca_Reconcile req) t = Some p)"

lemma vault_client_token:
  assumes "vault_client t" and "e \<in> set t" and "token_sent e = Some tok" and "tok \<noteq> []" and "conforms st t"
  shows "token_origin st t tok"
  using assms(1) unfolding vault_client_def
proof (elim disjE exE conjE)
  fix op out assume run: "accepts (manager op) t out"
  from all_paths_accepts [OF manager_no_request run] assms(2,3) obtain r where "e = EvDo (SetToken tok) r" by blast
  with all_paths_accepts [OF manager_token_paths run] assms(2,5) show ?thesis unfolding token_origin_def by blast
next
  fix ms c assume "pki_execs ms c" and "t = all_calls ms"
  with pki_token_origin [of ms c e tok st] assms(2-5) show ?thesis by simp
next
  fix req p assume "steps (ca_Reconcile req) t = Some p"
  from always_steps [OF ca_token this] assms(2,3,5) show ?thesis unfolding token_origin_def by blast
qed

text \<open>What a successful init job stores is what is read.\<close>

lemma handed_over:
  assumes "init_execs ms c" and "exit_code c = Some 0"
    and "EvAskJson (Initialize addr a b) (Inr data) \<in> set (all_calls ms)" and "conforms st (all_calls ms)"
    and "token_origin (replay st (all_calls ms)) t tok"
    and "\<And>x y. EvAsk (ReadFile namespace_file) x \<in> set (all_calls ms) \<Longrightarrow>
      EvAsk (ReadFile namespace_file) y \<in> set t \<Longrightarrow> file_contents x = file_contents y"
  shows "data ''root_token'' = Some (JString tok)"
proof -
  from credentials_stored [OF assms(1-4)] obtain x token m where
    x: "EvAsk (ReadFile namespace_file) x \<in> set (all_calls ms)" "data ''root_token'' = Some (JString token)"
      "replay st (all_calls ms) (file_contents x, ''vault-root-token'') = Some m" "m ''token'' = Some token"
    by blast
  from assms(5) obtain y s where y: "EvAsk (ReadFile namespace_file) y \<in> set t"
      "replay st (all_calls ms) (file_contents y, ''vault-root-token'') = Some (entries s)"
      "StringData s = Map.empty" "tok = data_get s ''token''"
    unfolding token_origin_def by blast
  have "entries s = m" using x(3) y(2) assms(6) [OF x(1) y(1)] by simp
  with x(2,4) y(3,4) show ?thesis using data_get_stored [of s m "''token''" token] by simp
qed

text \<open>C16: after the init job has initialised Vault and ended with code 0, every token that an operator
  on its start, the PKI job in any schedule or a reconciliation of a client CA presents to Vault, as the
  token of its client or in the header of a request, is empty or exactly the root token Vault returned to the
  job, if they run in the job's namespace on the Secrets it left.\<close>

theorem root_token_presented:
  assumes "init_execs ms c" and "exit_code c = Some 0"
    and "EvAskJson (Initialize addr a b) (Inr data) \<in> set (all_calls ms)" and "conforms st (all_calls ms)"
    and "vault_client t" and "conforms (replay st (all_calls ms)) t"
    and "e \<in> set t" and "token_sent e = Some tok" and "tok \<noteq> []"
    and "\<And>x y. EvAsk (ReadFile namespace_file) x \<in> set (all_calls ms) \<Longrightarrow>
      EvAsk (ReadFile namespace_file) y \<in> set t \<Longrightarrow> file_contents x = file_contents y"
  shows "data ''root_token'' = Some (JString tok)"
  using handed_over [OF assms(1-4) vault_client_token [OF assms(5,7-9,6)]] assms(10) by blast

text \<open>A reconciliation up to the PATCH request, with the token of \<^const>\<open>sample_data\<close>.\<close>

definition handed_patch :: http_request where
  "handed_patch = (patch_of sample_ca)
     \<lparr>Header := [(''Content-Type'', ''application/merge-patch+json''), (''X-Vault-Token'', ''T'')]\<rparr>"

definition handed_run :: "event list" where
  "handed_run =
     [EvGetIntClientCA (''sip'', ''ca'') (Inr sample_ca), EvListMounts (Inr {})] @
     setup_calls sample_ca (ca_mount sample_ca) ''PEM'' @
     [EvDo InClusterConfig None, EvDo NewForConfig None, EvAsk (ReadFile namespace_file) (Inr ''sip''),
      EvGetSecret ''sip'' ''vault-root-token'' (Inr stored_token),
      EvDo (HttpNewRequest ''PATCH'' (v1_url (ca_mount sample_ca @ ''/roles/'' @ clientCARole)) patchBody) None,
      EvDo (HttpDo handed_patch) None]"

lemma handed_run_steps: "\<exists>p. steps (ca_Reconcile (''sip'', ''ca'')) handed_run = Some p"
  by (simp add: handed_run_def handed_patch_def patch_of_def setup_calls_def root_request_def ca_reconcile_defs
      namespace_file_def stored_token_def data_get_def empty_secret_def)

theorem root_token_presented_witness:
  "\<exists>c tok. init_execs sample_good c \<and> EvDo (HttpDo handed_patch) None \<in> set handed_run \<and>
    map_of (Header handed_patch) ''X-Vault-Token'' = Some tok \<and> sample_data ''root_token'' = Some (JString tok)"
proof -
  obtain c where c: "init_execs sample_good c" "exit_code c = Some 0" using sample_good_exec by blast
  have read: "EvAsk (ReadFile namespace_file) x \<in> set (all_calls sample_good) \<Longrightarrow> x = Inr ''sip''"
      "EvAsk (ReadFile namespace_file) x \<in> set handed_run \<Longrightarrow> x = Inr ''sip''" for x
    by (simp_all add: sample_good_def sample_defs handed_run_def setup_calls_def)
  have client: "vault_client handed_run" using handed_run_steps by (auto simp: vault_client_def)
  have conf: "conforms (replay Map.empty (all_calls sample_good)) handed_run"
    by (simp add: sample_good_def sample_defs handed_run_def setup_calls_def stored_token_def empty_secret_def
        empty_meta_def file_contents_def reply_ok_other)
  have sent: "EvDo (HttpDo handed_patch) None \<in> set handed_run" by (simp add: handed_run_def)
  have tok: "token_sent (EvDo (HttpDo handed_patch) None) = Some ''T''"
    by (simp add: token_sent_def handed_patch_def)
  from root_token_presented [OF c sample_good_calls(1,3) client conf sent tok]
  have "sample_data ''root_token'' = Some (JString ''T'')" using read by fastforce
  with c sent show ?thesis by (auto simp: handed_patch_def)
qed

end
