(* ===== verification/Vault_Names.thy ===== *)
theory Vault_Names
  imports Vault_Bootstrap_Props Vault_Init_Schedules Vault_Pki_Schedules Operator_Managers Mtls_Services
begin

text \<open>
  The names by which Vault is addressed, and the names its certificate is made for: the bootstrap job
  asks for a list of DNS names, the init job builds the addresses of the three nodes from its
  environment, and the PKI job and the operators use the address of the service.  A client of Vault
  accepts the certificate only if one of its names covers the host of the address.

  \<^item> \<open>validHostname\<close>, \<open>matchHostnames\<close>, \<open>name_covers\<close>: the test of crypto/x509 (\<^verbatim>\<open>VerifyHostname\<close>), for names in lower
    case.
  \<^item> \<open>dials\<close>: the addresses a run makes Vault clients for.
\<close>

subsection \<open>Host names\<close>

definition label_char :: "char \<Rightarrow> bool" where
  "label_char c \<longleftrightarrow> (let n = of_char c :: nat in
     97 \<le> n \<and> n \<le> 122 \<or> 48 \<le> n \<and> n \<le> 57 \<or> c = CHR ''-'' \<or> c = CHR ''_'')"

definition valid_label :: "string \<Rightarrow> bool" where
  "valid_label l \<longleftrightarrow> l \<noteq> [] \<and> hd l \<noteq> CHR ''-'' \<and> list_all label_char l"

definition labels :: "string \<Rightarrow> string list" where
  "labels s = strings_Split s (CHR ''.'')"

text \<open>A pattern may have a star for its first label.\<close>

definition validHostname :: "bool \<Rightarrow> string \<Rightarrow> bool" where
  "validHostname isPattern s \<longleftrightarrow>
     (valid_label (hd (labels s)) \<or> isPattern \<and> hd (labels s) = ''*'') \<and> list_all valid_label (tl (labels s))"

definition matchHostnames :: "string \<Rightarrow> string \<Rightarrow> bool" where
  "matchHostnames pattern host \<longleftrightarrow>
     (hd (labels pattern) = ''*'' \<or> hd (labels pattern) = hd (labels host)) \<and>
     tl (labels pattern) = tl (labels host)"

text \<open>A final dot of the host is dropped; names that are not valid are compared as they are.\<close>

definition name_covers :: "string \<Rightarrow> string \<Rightarrow> bool" where
  "name_covers name host \<longleftrightarrow>
     (let host' = strings_TrimSuffix host ''.'' in
      if validHostname False host' \<and> validHostname True name then matchHostnames name host'
      else name = host \<and> host \<noteq> [] \<and> host \<noteq> ''.'')"

lemma labels_append: "labels (a @ CHR ''.'' # b) = labels a @ labels b"
  by (induction a) (auto simp: labels_def hd_append tl_append split: list.splits)

lemma labels_none: "CHR ''.'' \<notin> set a \<Longrightarrow> labels a = [a]"
  by (induction a) (auto simp: labels_def)

lemma labels_nonempty [simp]: "labels s \<noteq> []"
  by (simp add: labels_def)

lemma valid_label_chars: "valid_label l \<Longrightarrow> c \<in> set l \<Longrightarrow> label_char c"
  by (simp add: valid_label_def list_all_iff)

lemma not_label_char [simp]: "\<not> label_char (CHR ''.'')" "\<not> label_char (CHR '':'')" "\<not> label_char (CHR ''/'')"
  by (simp_all add: label_char_def)

lemma labels_valid: "valid_label l \<Longrightarrow> labels l = [l]"
  using valid_label_chars [of l "CHR ''.''"] by (intro labels_none) auto

text \<open>Names that are built from valid parts.\<close>

lemma validHostname_append:
  "validHostname b (a @ CHR ''.'' # c) \<longleftrightarrow> validHostname b a \<and> validHostname False c"
  by (cases "labels c") (auto simp: validHostname_def labels_append tl_append hd_append split: list.splits)

lemma validHostname_label: "valid_label l \<Longrightarrow> validHostname b l"
  by (simp add: validHostname_def labels_valid)

lemma validHostname_star: "validHostname True ''*''"
  by (simp add: validHostname_def labels_none)

lemma match_star:
  "valid_label l \<Longrightarrow> matchHostnames (''*.'' @ rest) (l @ CHR ''.'' # rest)"
  using labels_append [of "''*''" rest] by (simp add: matchHostnames_def labels_append labels_valid labels_none)

lemma match_self: "matchHostnames s s"
  by (simp add: matchHostnames_def)

lemma valid_host_chars: "validHostname False s \<Longrightarrow> c \<in> set s \<Longrightarrow> c = CHR ''.'' \<or> label_char c"
proof -
  assume valid: "validHostname False s" and c: "c \<in> set s"
  have parts: "c = CHR ''.'' \<or> (\<exists>l \<in> set (labels s). c \<in> set l)" using c
  proof (induction s)
    case (Cons x s)
    then show ?case by (cases "strings_Split s (CHR ''.'')") (auto simp: labels_def)
  qed simp
  have "list_all valid_label (labels s)"
    using valid by (cases "labels s") (auto simp: validHostname_def)
  with parts show ?thesis by (auto simp: list_all_iff dest: valid_label_chars)
qed

lemma valid_host_last: "validHostname False s \<Longrightarrow> strings_TrimSuffix s ''.'' = s"
proof -
  assume valid: "validHostname False s"
  have "s \<noteq> a @ ''.''" for a
    using valid validHostname_append [of False a "[]"] by (auto simp: validHostname_def labels_def valid_label_def)
  then show "strings_TrimSuffix s ''.'' = s"
    by (metis append_take_drop_id strings_TrimSuffix_def)
qed

text \<open>The host of an address for a valid name.\<close>

lemma url_host_address:
  assumes "validHostname False h"
  shows "url_host (''https://'' @ h @ '':8200'') = h"
proof -
  have "c \<noteq> CHR '':'' \<and> c \<noteq> CHR ''/''" if "c \<in> set h" for c
    using valid_host_chars [OF assms that] by auto
  then show ?thesis by (simp add: url_host_def takeWhile_append2)
qed

subsection \<open>The names of the certificate\<close>

definition asks_for :: "event \<Rightarrow> string list option" where
  "asks_for e =
     (case e of EvAsk q r \<Rightarrow> (case q of CreateCertificateRequest cn orgs alg names ips key \<Rightarrow> Some names | _ \<Rightarrow> None) | _ \<Rightarrow> None)"

lemma boot_rest_asks:
  "each_call (\<lambda>e. asks_for e = None) (create_csr c)"
  "each_call (\<lambda>e. asks_for e = None) (approve_and_store v pem)"
proof -
  show "each_call (\<lambda>e. asks_for e = None) (create_csr c)"
    by (auto simp: create_csr_def asks_for_def split: option.split)
  have "each_call (\<lambda>e. asks_for e = None) (persist_vault_tls x)" for x
    by (auto simp: persist_vault_tls_def asks_for_def split: prod.split option.split sum.split)
  then show "each_call (\<lambda>e. asks_for e = None) (approve_and_store v pem)"
    by (auto simp: approve_and_store_def get_csr_def asks_for_def always_conj intro!: each_call_bind
        split: option.split sum.split)
qed

lemma boot_main_asks: "each_call (\<lambda>e. \<forall>names. asks_for e = Some names \<longrightarrow> names = csr_dns_names v) (boot_main v)"
proof -
  have "each_call (\<lambda>e. \<forall>names. asks_for e = Some names \<longrightarrow> names = csr_dns_names v)
      (bind (create_csr c) (\<lambda>_. approve_and_store v pem))" for c pem
    by (intro each_call_bind always_mono [OF boot_rest_asks(1)] always_mono [OF boot_rest_asks(2)])
      (auto simp: list_all_iff)
  then show ?thesis
    by (auto simp: boot_main_def Let_def asks_for_def always_conj split: sum.split)
qed

definition boot_names :: "event list \<Rightarrow> bool" where
  "boot_names t \<longleftrightarrow> (\<forall>e \<in> set t. \<forall>names. asks_for e = Some names \<longrightarrow>
     (\<exists>ns cluster. EvGetenv ''VAULT_K8S_NAMESPACE'' ns \<in> set t \<and> EvGetenv ''K8S_CLUSTER_NAME'' cluster \<in> set t \<and>
       names = csr_dns_names \<lparr>boot_ns = ns, clusterName = cluster\<rparr>))"

lemma boot_job_names: "always boot_job boot_names"
proof -
  have "always (boot_main \<lparr>boot_ns = ns, clusterName = cluster\<rparr>) (\<lambda>t. boot_names
      (EvGetenv ''VAULT_K8S_NAMESPACE'' ns # EvGetenv ''K8S_CLUSTER_NAME'' cluster # EvDo InClusterConfig None #
       EvDo NewForConfig None # t))" for ns cluster
    by (rule always_mono [OF boot_main_asks]) (auto simp: boot_names_def list_all_iff asks_for_def)
  then show ?thesis
    by (auto simp: boot_job_def boot_init_def boot_names_def asks_for_def split: option.split)
qed

subsection \<open>The addresses of the clients\<close>

definition vault_address :: "string \<Rightarrow> string" where
  "vault_address host = ''https://'' @ host @ '':8200''"

text \<open>A client is made for one of the hosts, and a worker started for one.\<close>

definition dials :: "string set \<Rightarrow> event \<Rightarrow> bool" where
  "dials F e \<longleftrightarrow>
     (case e of
        EvDo a r \<Rightarrow> (case a of VaultNew addr ca \<Rightarrow> addr \<in> vault_address ` F | _ \<Rightarrow> True)
      | EvGo g \<Rightarrow> (case g of UnSealWorker f k s \<Rightarrow> f \<in> F | _ \<Rightarrow> True)
      | _ \<Rightarrow> True)"

lemma dials_mono: "dials F e \<Longrightarrow> F \<subseteq> G \<Longrightarrow> dials G e"
  by (auto simp: dials_def split: event.splits act.splits goroutine.splits)

lemma worker_dials: "f \<in> F \<Longrightarrow> each_call (dials F) (unSealWorker f k s)"
  by (auto simp: unSealWorker_def getClientV_def dials_def vault_address_def Let_def split: option.split sum.split)

lemma go_unseal_dials:
  "each_call (dials (set fqdns)) k \<Longrightarrow> each_call (dials (set fqdns)) (go_unseal fqdns i key b k)"
  by (auto simp: go_unseal_def always_conj dials_def go_index_def split: option.split if_splits)

lemma init_parts_dial:
  "each_call (dials F) (persist_unseal_key x)" "each_call (dials F) (persist_both ns' k r)"
proof -
  show p: "each_call (dials F) (persist_unseal_key x)" for x
    by (auto simp: persist_unseal_key_def dials_def split: prod.split option.split sum.split)
  have "each_call (dials F) (persist_root_token x)" for x
    by (auto simp: persist_root_token_def dials_def split: prod.split option.split sum.split)
  with p show "each_call (dials F) (persist_both ns' k r)"
    unfolding persist_both_def by (intro each_call_bind) (auto split: option.split)
qed

lemma init_main_dials: "each_call (dials (set (vaultFQDNs v))) (init_main v)"
proof -
  have "each_call (dials (set (vaultFQDNs v))) (initVault v addr)" for addr
    unfolding initVault_def read_namespace_def persist_both_def [symmetric] Let_def
    by (auto simp: always_conj dials_def init_parts_dial
        intro!: each_call_deferred go_unseal_dials split: option.split sum.split)
  moreover have "each_call (dials (set (vaultFQDNs v))) (unSeal v)"
    unfolding unSeal_def Let_def
    by (auto simp: always_conj dials_def intro!: each_call_deferred go_unseal_dials split: option.split sum.split)
  ultimately show ?thesis
    unfolding init_main_def
    by (auto simp: always_conj dials_def intro!: each_call_bind split: option.split sum.split)
qed

text \<open>The hosts the init job knows from its environment.\<close>

definition node_hosts :: "go_error + string \<Rightarrow> string \<Rightarrow> string \<Rightarrow> string set" where
  "node_hosts r cluster domain = set (map (vault_fqdn (file_contents r) domain) (strings_Split cluster (CHR '','')))"

definition dials_nodes :: "event list \<Rightarrow> bool" where
  "dials_nodes t \<longleftrightarrow> list_all (dials {}) t \<or>
     (\<exists>r cluster domain. EvAsk (ReadFile namespace_file) r \<in> set t \<and> EvGetenv ''VAULT_CLUSTER'' cluster \<in> set t \<and>
       EvGetenv ''KUBERNETES_CLUSTER_DOMAIN'' domain \<in> set t \<and> list_all (dials (node_hosts r cluster domain)) t)"

lemma init_init_dials:
  "always init_init dials_nodes"
  "all_paths init_init (\<lambda>t out. \<forall>v. out = Returned v \<longrightarrow>
     (\<exists>r cluster domain. EvAsk (ReadFile namespace_file) r \<in> set t \<and> EvGetenv ''VAULT_CLUSTER'' cluster \<in> set t \<and>
       EvGetenv ''KUBERNETES_CLUSTER_DOMAIN'' domain \<in> set t \<and> list_all (dials (node_hosts r cluster domain)) t \<and>
       set (vaultFQDNs v) \<subseteq> node_hosts r cluster domain))"
  by (auto simp: init_defs dials_nodes_def dials_def node_hosts_def vault_address_def go_index_def
      split: sum.split option.split if_splits)

lemma init_job_dials: "always vault_init_job dials_nodes"
  unfolding vault_init_job_def always_bind
proof (intro conjI init_init_dials(1) accepts_all_pathsI allI impI)
  fix t out v
  assume "accepts init_init t out" and "out = Returned v"
  with all_paths_accepts [OF init_init_dials(2)] obtain r cluster domain where
    env: "EvAsk (ReadFile namespace_file) r \<in> set t" "EvGetenv ''VAULT_CLUSTER'' cluster \<in> set t"
      "EvGetenv ''KUBERNETES_CLUSTER_DOMAIN'' domain \<in> set t" "list_all (dials (node_hosts r cluster domain)) t"
    and v: "set (vaultFQDNs v) \<subseteq> node_hosts r cluster domain" by blast
  have "dials_nodes (t @ t')" if "list_all (dials (set (vaultFQDNs v))) t'" for t'
  proof -
    have "list_all (dials (node_hosts r cluster domain)) t'"
      using that dials_mono [OF _ v] by (auto simp: list_all_iff)
    with env show ?thesis unfolding dials_nodes_def by auto
  qed
  then show "always (init_main v) (\<lambda>t'. dials_nodes (t @ t'))" by (rule always_mono [OF init_main_dials])
qed

lemma init_dials:
  assumes "init_execs ms c"
  shows "dials_nodes (all_calls ms)"
proof -
  have all: "list_all (dials F) (all_calls ms)" if main: "list_all (dials F) (calls_of 0 ms)" for F
  proof -
    have "dials F e" if e: "Act i e \<in> set ms" for i e
    proof (cases "i = 0")
      case True
      with e main show ?thesis by (auto simp: list_all_iff in_calls_of_iff)
    next
      case False
      with Act_in_range [OF assms e] init_worker [OF assms] obtain f k s where
        go: "UnSealWorker f k s \<in> set (spawned (all_calls ms))"
        and w: "steps (unSealWorker f k s) (calls_of i ms) = Some (threads c ! i)" by blast
      from go have "EvGo (UnSealWorker f k s) \<in> set (calls_of 0 ms)"
        by (simp add: init_main_starts [OF assms] spawned_EvGo)
      with main have "dials F (EvGo (UnSealWorker f k s))" unfolding list_all_iff by blast
      then have "f \<in> F" by (simp add: dials_def)
      from always_steps [OF worker_dials [OF this] w] e show ?thesis by (simp add: list_all_iff in_calls_of_iff)
    qed
    then show ?thesis by (auto simp: list_all_iff all_calls_iff)
  qed
  have "dials_nodes (calls_of 0 ms)" using always_steps [OF init_job_dials exec_main [OF assms]] .
  then show ?thesis
    unfolding dials_nodes_def using all calls_of_subset [of _ 0 ms] by blast
qed

lemma service_dials:
  "all_paths (manager op) (\<lambda>t out. list_all (dials {VAULT_INTERNAL_SERVICE_NAME}) t)"
  "each_call (dials {VAULT_INTERNAL_SERVICE_NAME}) pki_job"
proof -
  show "all_paths (manager op) (\<lambda>t out. list_all (dials {VAULT_INTERNAL_SERVICE_NAME}) t)"
    by (cases op) (auto simp: manager_defs Let_def dials_def vault_address_def vault_addr_def VAULT_INTERNAL_SERVICE_NAME_def
        split: option.split sum.split)
  have parts: "each_call (dials {VAULT_INTERNAL_SERVICE_NAME}) (enablePKIRootCA v)"
    "each_call (dials {VAULT_INTERNAL_SERVICE_NAME}) (enablePKIIntermCA v)"
    "each_call (dials {VAULT_INTERNAL_SERVICE_NAME}) pki_init" for v
    by (auto simp: enablePKIRootCA_def enablePKIIntermCA_def pki_init_def read_namespace_def Let_def pki_defs
        dials_def vault_address_def split: option.split sum.split)
  then have "each_call (dials {VAULT_INTERNAL_SERVICE_NAME}) (pki_rest mounts v)" for mounts v
    by (intro each_call_bind) auto
  then have "each_call (dials {VAULT_INTERNAL_SERVICE_NAME}) (pki_main v)" for v
    by (auto simp: pki_main_def always_conj dials_def split: sum.split split del: if_split)
  with parts(3) show "each_call (dials {VAULT_INTERNAL_SERVICE_NAME}) pki_job"
    unfolding pki_job_def by (intro each_call_bind)
qed

lemma pki_dials:
  assumes "pki_execs ms c"
  shows "list_all (dials {VAULT_INTERNAL_SERVICE_NAME}) (all_calls ms)"
proof (rule exec_each_call [OF assms service_dials(2)])
  have "each_call (dials F) (persist_root_ca x)" for F x
    by (auto simp: persist_root_ca_def set_err_def dials_def split: prod.split option.split sum.split)
  then show "each_call (dials {VAULT_INTERNAL_SERVICE_NAME}) (pki_body g)" for g
    by (cases g) (auto simp: dials_def)
qed

text \<open>The programs that make Vault clients, and the hosts they address.\<close>

definition vault_dialler :: "event list \<Rightarrow> bool" where
  "vault_dialler t \<longleftrightarrow> (\<exists>op out. accepts (manager op) t out) \<or>
     (\<exists>ms c. pki_execs ms c \<and> t = all_calls ms) \<or> (\<exists>ms c. init_execs ms c \<and> t = all_calls ms)"

lemma dialled_hosts:
  assumes "vault_dialler t" and "EvDo (VaultNew addr ca) r \<in> set t"
  shows "addr = vault_address VAULT_INTERNAL_SERVICE_NAME \<or>
    (\<exists>ns cluster domain node. EvAsk (ReadFile namespace_file) ns \<in> set t \<and> EvGetenv ''VAULT_CLUSTER'' cluster \<in> set t \<and>
      EvGetenv ''KUBERNETES_CLUSTER_DOMAIN'' domain \<in> set t \<and> node \<in> set (strings_Split cluster (CHR '','')) \<and>
      addr = vault_address (vault_fqdn (file_contents ns) domain node))"
proof -
  have service: ?thesis if "list_all (dials {VAULT_INTERNAL_SERVICE_NAME}) t"
    using that assms(2) by (auto simp: list_all_iff dials_def)
  from assms(1) show ?thesis
    unfolding vault_dialler_def
  proof (elim disjE exE conjE)
    fix op out assume "accepts (manager op) t out"
    from all_paths_accepts [OF service_dials(1) this] show ?thesis by (rule service)
  next
    fix ms c assume "pki_execs ms c" and t: "t = all_calls ms"
    from pki_dials [OF this(1)] show ?thesis using service t by simp
  next
    fix ms c assume "init_execs ms c" and t: "t = all_calls ms"
    from init_dials [OF this(1)] have "dials_nodes t" by (simp add: t)
    with assms(2) show ?thesis
      by (fastforce simp: dials_nodes_def list_all_iff dials_def node_hosts_def)
  qed
qed

subsection \<open>Properties\<close>

lemma service_covered: "list_ex (\<lambda>name. name_covers name VAULT_INTERNAL_SERVICE_NAME) (csr_dns_names v)"
proof -
  have valid: "valid_label VAULT_INTERNAL_SERVICE_NAME"
    by (simp add: VAULT_INTERNAL_SERVICE_NAME_def valid_label_def label_char_def)
  note host = validHostname_label [OF this]
  have "name_covers VAULT_INTERNAL_SERVICE_NAME VAULT_INTERNAL_SERVICE_NAME"
    by (simp add: name_covers_def valid_host_last host match_self)
  then show ?thesis by (simp add: csr_dns_names_def)
qed

lemma fqdn_dots: "vault_fqdn namespace domain node = node @ CHR ''.'' # VAULT_INTERNAL_SERVICE_NAME @ CHR ''.'' # namespace @
    CHR ''.'' # ''svc'' @ CHR ''.'' # domain"
  by (simp add: vault_fqdn_def)

lemma fqdn_valid:
  assumes "valid_label node" and "validHostname False namespace" and "validHostname False domain"
  shows "validHostname False (vault_fqdn namespace domain node)"
proof -
  have "valid_label VAULT_INTERNAL_SERVICE_NAME" "valid_label ''svc''"
    by (simp_all add: VAULT_INTERNAL_SERVICE_NAME_def valid_label_def label_char_def)
  with assms show ?thesis
    unfolding fqdn_dots by (simp only: validHostname_append validHostname_label)
qed

lemma node_covered:
  assumes "valid_label node" and "validHostname False namespace" and "validHostname False domain"
  shows "list_ex (\<lambda>name. name_covers name (vault_fqdn namespace domain node))
    (csr_dns_names \<lparr>boot_ns = namespace, clusterName = domain\<rparr>)"
proof -
  let ?rest = "VAULT_INTERNAL_SERVICE_NAME @ CHR ''.'' # namespace @ CHR ''.'' # ''svc'' @ CHR ''.'' # domain"
  note host = fqdn_valid [OF assms]
  have pattern: "validHostname True (''*'' @ CHR ''.'' # ?rest)"
    using host unfolding fqdn_dots validHostname_append [of _ node] validHostname_append [of _ "''*''"]
    by (simp only: validHostname_star simp_thms)
  have "name_covers (''*.'' @ ?rest) (vault_fqdn namespace domain node)"
    using pattern match_star [OF assms(1), of ?rest] host
    by (simp add: name_covers_def valid_host_last) (simp add: fqdn_dots)
  then show ?thesis by (simp add: csr_dns_names_def)
qed

text \<open>C23: wherever the init job, the PKI job or an operator makes a client for Vault, in any schedule, the
  host of its address is covered by one of the DNS names the bootstrap job has requested the certificate
  for, if the jobs are given the same namespace and cluster domain and the nodes' names are single labels.\<close>

theorem vault_names_covered:
  assumes "steps boot_job tb = Some p"
    and "EvAsk (CreateCertificateRequest cn orgs alg names ips key) csr \<in> set tb"
    and "vault_dialler t" and "EvDo (VaultNew addr ca) r \<in> set t"
    and "\<And>ns nsfile. EvGetenv ''VAULT_K8S_NAMESPACE'' ns \<in> set tb \<Longrightarrow> EvAsk (ReadFile namespace_file) nsfile \<in> set t \<Longrightarrow>
      file_contents nsfile = ns \<and> validHostname False ns"
    and "\<And>d d'. EvGetenv ''K8S_CLUSTER_NAME'' d \<in> set tb \<Longrightarrow> EvGetenv ''KUBERNETES_CLUSTER_DOMAIN'' d' \<in> set t \<Longrightarrow>
      d = d' \<and> validHostname False d"
    and "\<And>nodes. EvGetenv ''VAULT_CLUSTER'' nodes \<in> set t \<Longrightarrow> list_all valid_label (strings_Split nodes (CHR '',''))"
  shows "list_ex (\<lambda>name. name_covers name (url_host addr)) names"
proof -
  have "asks_for (EvAsk (CreateCertificateRequest cn orgs alg names ips key) csr) = Some names"
    by (simp add: asks_for_def)
  with always_steps [OF boot_job_names assms(1)] assms(2) obtain ns d where
    env: "EvGetenv ''VAULT_K8S_NAMESPACE'' ns \<in> set tb" "EvGetenv ''K8S_CLUSTER_NAME'' d \<in> set tb"
    and names: "names = csr_dns_names \<lparr>boot_ns = ns, clusterName = d\<rparr>"
    unfolding boot_names_def by blast
  from dialled_hosts [OF assms(3,4)] show ?thesis
  proof (elim disjE exE conjE)
    assume "addr = vault_address VAULT_INTERNAL_SERVICE_NAME"
    then have "url_host addr = VAULT_INTERNAL_SERVICE_NAME"
      by (simp add: vault_address_def VAULT_INTERNAL_SERVICE_NAME_def url_host_def)
    then show ?thesis using service_covered names by simp
  next
    fix nsfile nodes d' node
    assume t: "EvAsk (ReadFile namespace_file) nsfile \<in> set t" "EvGetenv ''VAULT_CLUSTER'' nodes \<in> set t"
      "EvGetenv ''KUBERNETES_CLUSTER_DOMAIN'' d' \<in> set t" and node: "node \<in> set (strings_Split nodes (CHR '',''))"
      and addr: "addr = vault_address (vault_fqdn (file_contents nsfile) d' node)"
    from assms(5) [OF env(1) t(1)] assms(6) [OF env(2) t(3)] assms(7) [OF t(2)] node
    have ok: "valid_label node" "validHostname False ns" "validHostname False d" "file_contents nsfile = ns" "d' = d"
      by (auto simp: list_all_iff)
    then have "url_host addr = vault_fqdn ns d node"
      using url_host_address [OF fqdn_valid] by (simp add: addr vault_address_def)
    with node_covered [OF ok(1-3)] names show ?thesis by simp
  qed
qed

lemma labels_join:
  "ls \<noteq> [] \<Longrightarrow> \<forall>l \<in> set ls. CHR ''.'' \<notin> set l \<Longrightarrow> labels (join_with (CHR ''.'') ls) = ls"
proof (induction ls)
  case (Cons l ls)
  then show ?case by (cases ls) (simp_all add: labels_none labels_append)
qed simp

lemma sample_labels:
  "labels ''vault-0.vault-internal.sip.svc'' = [''vault-0'', ''vault-internal'', ''sip'', ''svc'']"
  "labels ''*.vault-internal.sip.svc.'' = [''*'', ''vault-internal'', ''sip'', ''svc'', []]"
  "labels ''*.vault-internal.sip.svc.cluster.local'' = [''*'', ''vault-internal'', ''sip'', ''svc'', ''cluster'', ''local'']"
  "labels ''*.vault-internal.sip'' = [''*'', ''vault-internal'', ''sip'']"
  "labels ''*.vault-internal'' = [''*'', ''vault-internal'']"
  "labels ''vault-internal'' = [''vault-internal'']"
  "labels ''vault-active'' = [''vault-active'']"
  using labels_join [of "[''vault-0'', ''vault-internal'', ''sip'', ''svc'']"]
    labels_join [of "[''*'', ''vault-internal'', ''sip'', ''svc'', []]"]
    labels_join [of "[''*'', ''vault-internal'', ''sip'', ''svc'', ''cluster'', ''local'']"]
    labels_join [of "[''*'', ''vault-internal'', ''sip'']"]
    labels_join [of "[''*'', ''vault-internal'']"]
    labels_join [of "[''vault-internal'']"]
    labels_join [of "[''vault-active'']"]
  by simp_all

lemma dead_name: "name_covers ''*.vault-internal.sip.svc.'' host \<longleftrightarrow> host = ''*.vault-internal.sip.svc.''"
proof -
  have "\<not> valid_label []" by (simp add: valid_label_def)
  then have "\<not> validHostname True ''*.vault-internal.sip.svc.''" by (simp add: validHostname_def sample_labels)
  then show ?thesis by (auto simp: name_covers_def Let_def)
qed

lemma not_covered:
  assumes "\<not> matchHostnames name ''vault-0.vault-internal.sip.svc''"
  shows "\<not> name_covers name ''vault-0.vault-internal.sip.svc''"
  using assms match_self [of name] by (auto simp: name_covers_def Let_def strings_TrimSuffix_def)

text \<open>One of the names is of no use: its final dot makes it cover nothing but itself, so a node is not covered
  by its name without the domain.\<close>

theorem dead_name_covers_nothing:
  "(name_covers ''*.vault-internal.sip.svc.'' host \<longleftrightarrow> host = ''*.vault-internal.sip.svc.'') \<and>
   ''*.vault-internal.sip.svc.'' \<in> set (csr_dns_names \<lparr>boot_ns = ''sip'', clusterName = ''cluster.local''\<rparr>) \<and>
   \<not> list_ex (\<lambda>name. name_covers name ''vault-0.vault-internal.sip.svc'')
     (csr_dns_names \<lparr>boot_ns = ''sip'', clusterName = ''cluster.local''\<rparr>)"
  by (simp add: dead_name not_covered csr_dns_names_def VAULT_ACTIVE_SERVICE_NAME_def VAULT_INTERNAL_SERVICE_NAME_def
      matchHostnames_def sample_labels)

text \<open>The first calls of the bootstrap job, and a run of the init job with the same namespace and domain.\<close>

definition local_boot :: boot_vars where
  "local_boot = \<lparr>boot_ns = ''sip'', clusterName = ''local''\<rparr>"

lemma local_boot_steps: "\<exists>p. steps boot_job (boot_head local_boot ''K'' ''B'' ''R'') = Some p"
  by (simp add: boot_head_def boot_env_def local_boot_def boot_job_def boot_init_def boot_main_def Let_def)

theorem vault_names_covered_witness:
  "list_ex (\<lambda>name. name_covers name (url_host (sample_addr ''a''))) (csr_dns_names local_boot)"
proof -
  let ?tb = "boot_head local_boot ''K'' ''B'' ''R''" and ?t = "all_calls sample_good"
  obtain p where p: "steps boot_job ?tb = Some p" using local_boot_steps by blast
  have asked: "EvAsk (CreateCertificateRequest (csr_common_name local_boot) [''system:nodes''] ''ECDSAWithSHA256''
      (csr_dns_names local_boot) [''127.0.0.1''] ''K'') (Inr ''R'') \<in> set ?tb"
    by (simp add: boot_head_def)
  obtain c where "init_execs sample_good c" using sample_good_exec by blast
  then have t: "vault_dialler ?t" unfolding vault_dialler_def by blast
  have dial: "EvDo (VaultNew (sample_addr ''a'') ca_file) None \<in> set ?t"
    by (simp add: sample_good_def sample_init_def)
  have env: "EvGetenv ''VAULT_K8S_NAMESPACE'' x \<in> set ?tb \<Longrightarrow> x = ''sip''"
      "EvGetenv ''K8S_CLUSTER_NAME'' x \<in> set ?tb \<Longrightarrow> x = ''local''"
      "EvGetenv ''VAULT_CLUSTER'' x \<in> set ?t \<Longrightarrow> x = ''a,b,c''"
      "EvGetenv ''KUBERNETES_CLUSTER_DOMAIN'' x \<in> set ?t \<Longrightarrow> x = ''local''"
      "EvAsk (ReadFile namespace_file) r \<in> set ?t \<Longrightarrow> r = Inr ''sip''" for x r
    by (simp_all add: boot_head_def boot_env_def local_boot_def sample_good_def sample_defs)
  have valid: "validHostname False ''sip''" "validHostname False ''local''"
      "valid_label ''a''" "valid_label ''b''" "valid_label ''c''"
    by (simp_all add: validHostname_label valid_label_def label_char_def)
  show ?thesis
    by (rule vault_names_covered [OF p asked t dial]) ((drule env)+, simp add: valid file_contents_def)+
qed

end
