(* ===== verification/Spec2Isabelle.thy ===== *)
theory Spec2Isabelle
  imports IntCert_Webhook IntCert_Refinement ClientCA_Refinement Vault_Init_Liveness
    Vault_Pki_Liveness Vault_Bootstrap_Props Operator_Managers Controller_Watches System_Trust
    Mtls_Handshake Deep_Copy_Props Vault_Ttls Vault_Pki_Reruns Vault_Init_Errors Vault_Pki_Errors Root_Token
    Vault_Names
begin

text \<open>
  A verification development of service-identity-provider, a system that gives the services of
  a Kubernetes cluster X.509 identities from a Vault PKI.

  \<^bold>\<open>The program.\<close>  Three jobs under vault/client-go prepare Vault: \<^verbatim>\<open>bootstrap\<close> obtains the
  serving certificate of the Vault nodes from the Kubernetes signer, \<^verbatim>\<open>init\<close> initialises and
  unseals the cluster and keeps the unseal key and the root token in Secrets, and \<^verbatim>\<open>pki\<close> mounts
  the root and the intermediate CA.  Two operators then serve custom resources:
  operator/internal-client-ca makes a CA for client certificates per InternalClientCA, and
  operator/internal-cert issues a certificate into a Secret per InternalCertificate, with an
  admission webhook in front; each is started by the \<^verbatim>\<open>init\<close> and \<^verbatim>\<open>main\<close> of its cmd/main.go.  They
  interact only through the state of Vault (mounts, roles) and of the API server (Secrets,
  CertificateSigningRequests).  mtls-demo makes the same chain of certificates without Vault,
  writes it to files, and has a service with three servers and a consumer that use them.

  \<^bold>\<open>How code becomes definitions.\<close>  A Go function that calls out is a value of type
  \<^verbatim>\<open>'a prog\<close> (\<^verbatim>\<open>Go_Prog\<close>): a tree whose inner nodes are the calls with their arguments, whose
  branches are the replies, and whose leaves are a return, an exit of the process or a panic.
  The clock, the random source, the command line and crypto/x509 are such calls as well.
  Every guard and early return of the source is a branch.  The services called are not part
  of the repository: nothing is assumed of their replies unless a hypothesis says so, by
  \<open>conforms\<close> for Secrets (\<^verbatim>\<open>Kube_Store\<close>), \<open>csr_conforms\<close> for signing requests (\<^verbatim>\<open>Csr_Store\<close>) and
  \<open>mounts_conform\<close>, \<open>ca_conform\<close> and \<open>ttl_conform\<close> for Vault's mounts, their CAs and their lifetimes
  (\<^verbatim>\<open>Vault_Mounts\<close>, \<^verbatim>\<open>Vault_Ca\<close>, \<^verbatim>\<open>Vault_Ttls\<close>), a run of \<open>fs_step\<close> for files (\<^verbatim>\<open>File_Store\<close>) and
  \<open>x509_contract\<close> and \<open>der_injective\<close> for certificates (\<^verbatim>\<open>Mtls_Chain\<close>, \<^verbatim>\<open>Mtls_Handshake\<close>).  A run is the list of calls with their
  replies; \<open>accepts p t out\<close> says that \<open>t\<close> is a complete run, \<open>steps p t = Some q\<close> that it is a
  partial one.  \<open>all_paths\<close> and \<open>always\<close> (\<^verbatim>\<open>Go_Paths\<close>) compute what holds of all of them by
  recursion on the tree.  The trees are finite, so there is no fuel: every function of the
  repository that is modelled ends for every sequence of replies (\<open>accepts_exists\<close>), with one
  exception: the endless loop of the consumer is cut after a number of rounds, and its
  properties hold for every number.
  Goroutines, a variable they share and a WaitGroup are in \<^verbatim>\<open>Go_Proc\<close>: \<open>exec\<close> runs any schedule.

  \<^bold>\<open>Theories.\<close>
  \<^item> \<^verbatim>\<open>Sip_Prelude\<close>, \<^verbatim>\<open>Sip_Types\<close>: Go library functions on strings and slices; the custom resources,
    Secrets, signing requests, requests to Vault, errors and untyped JSON.
  \<^item> \<^verbatim>\<open>Go_X509\<close>, \<^verbatim>\<open>Server_Types\<close>: times, names, keys and certificates of crypto/x509; TLS
    configurations, HTTP servers, flags and options of a manager.
  \<^item> \<^verbatim>\<open>Go_Prog\<close>, \<^verbatim>\<open>Go_Paths\<close>, \<^verbatim>\<open>Go_Proc\<close>, \<^verbatim>\<open>Go_Progress\<close>: programs, their runs, processes, and when a
    process is bounded or stuck.
  \<^item> \<^verbatim>\<open>Kube_Store\<close>, \<^verbatim>\<open>Csr_Store\<close>, \<^verbatim>\<open>Vault_Mounts\<close>, \<^verbatim>\<open>Vault_Ca\<close>, \<^verbatim>\<open>File_Store\<close>: the abstract state of the services and
    of the file system.
  \<^item> \<^verbatim>\<open>Reconciler\<close>, \<^verbatim>\<open>Secret_Upsert\<close>: two interfaces, as locales; a third, \<open>ttl_keeper\<close>, is in \<^verbatim>\<open>Vault_Ttls\<close>.  \<open>reconciler\<close> is what the manager
    relies on in a controller (interpreted for both operators), \<open>secret_upsert\<close> the create-or-update
    sequence of the jobs (interpreted for its four copies).
  \<^item> \<^verbatim>\<open>IntCert_Controller\<close>, \<^verbatim>\<open>IntCert_Webhook\<close>: internalcertificate_controller.go (\<open>Reconcile\<close>,
    \<open>buildSecretFrom\<close>) and internalcertificate_webhook.go; \<^verbatim>\<open>IntCert_Refinement\<close>: the abstract machine
    (\<open>spec_step\<close>) that the controller implements.
  \<^item> \<^verbatim>\<open>ClientCA_Controller\<close>: internalclientca_controller.go (\<open>ca_Reconcile\<close>, \<open>enablePKIClientCA\<close>,
    \<open>ca_disableFlag\<close>, \<open>ca_buildSecretFrom\<close>); \<^verbatim>\<open>ClientCA_Refinement\<close>: its abstract machine (\<open>ca_step\<close>).
  \<^item> \<^verbatim>\<open>Operator_Managers\<close>: cmd/main.go of both operators.  \<^verbatim>\<open>Controller_Watches\<close>: groupversion_info.go, the
    registration of the types and \<open>SetupWithManager\<close>, and which changes lead to which requests.
  \<^item> \<^verbatim>\<open>System_Trust\<close>: the Secrets the operators and the PKI job leave, as a PKI: who verifies whom.
  \<^item> \<^verbatim>\<open>Go_Memory\<close>, \<^verbatim>\<open>Deep_Copy\<close>, \<^verbatim>\<open>Deep_Copy_Props\<close>: zz_generated.deepcopy.go of both operators, on a memory in
    which slices share arrays; the copies of the metadata are parameters (\<open>deep_copier\<close>).
  \<^item> \<^verbatim>\<open>In_Cluster\<close>, \<^verbatim>\<open>Vault_Init\<close>, \<^verbatim>\<open>Vault_Init_Schedules\<close>, \<^verbatim>\<open>Vault_Init_Errors\<close>, \<^verbatim>\<open>Vault_Init_Liveness\<close>:
    init/main.go and its three workers.
  \<^item> \<^verbatim>\<open>Vault_Pki\<close>, \<^verbatim>\<open>Vault_Pki_Schedules\<close>, \<^verbatim>\<open>Vault_Pki_Errors\<close>, \<^verbatim>\<open>Vault_Pki_Liveness\<close>, \<^verbatim>\<open>Vault_Pki_Reruns\<close>: pki/main.go
    and its goroutine, in one run and in repeated ones.
  \<^item> \<^verbatim>\<open>Vault_Ttls\<close>: the lifetimes asked of the mounts, over all programs that configure them (\<open>ttl_keeper\<close>,
    interpreted for the PKI job and the controller of the client CAs; \<open>ttl_keepers\<close> is the two running
    concurrently).  \<^verbatim>\<open>Root_Token\<close>: the way of Vault's root token from the init job to its users;
    \<^verbatim>\<open>Vault_Names\<close>: the names Vault is addressed by and the names of its certificate, with the test of host names of
    crypto/x509.
  \<^item> \<^verbatim>\<open>Go_Pem\<close>, \<^verbatim>\<open>Vault_Bootstrap\<close>, \<^verbatim>\<open>Vault_Bootstrap_Props\<close>: bootstrap/main.go with PEM encoding;
    the empty \<^verbatim>\<open>main\<close> of k8s_auth/main.go.
  \<^item> \<^verbatim>\<open>Pem_Decode\<close>: PEM decoding, as the inverse of the encoding.
  \<^item> \<^verbatim>\<open>Mtls_Certs\<close>, \<^verbatim>\<open>Mtls_Chain\<close>: the certificate generator of mtls-demo, function by function, and
    what it makes; \<^verbatim>\<open>Mtls_Services\<close>: service-provider and service-consumer;
    \<^verbatim>\<open>Mtls_Handshake\<close>: the connection of the two with the generated files.

  \<^bold>\<open>What is shown.\<close>  For the controllers: what a successful reconciliation leaves in the Secret,
  which errors are reported and which are swallowed, that nothing else is touched over any series
  of reconciliations, when a repeated reconciliation changes nothing, and that every series
  implements an abstract machine, in which no client CA is ever replaced; a deleted Secret comes back.  For the jobs: what an exit code of 0 means under every
  interleaving and which failed calls it can hide, that the PKI job ends with no other code without a failed
  call, that listed mounts and a running cluster are left alone, and the schedules in which credentials are lost, an error is hidden or invented by a shared variable, or \<^verbatim>\<open>main\<close>
  exits before its goroutine is done; what a failed run leaves half done no later run completes; with three nodes and
  a key in Vault's reply the init job has always ended after 33 moves, with no deadlock in its wait group, and with
  well-typed replies its code is 0 or 1; the PKI job makes at most 44.  For the managers: a manager is started only after every
  step before it succeeded, and HTTP/2 is off unless asked for.  For mtls-demo: which certificate is
  signed with which key, that the files decode to the chain and the key, bounds of serial
  numbers and validity periods, the effect of every failing call, that the mTLS server requires
  client certificates, and that provider and consumer accept each other with the generated files.  Of the
  system as a whole: the certificate in a client's Secret verifies against the Secret of its client CA, the chain in
  a server's Secret against sip-root-ca.  A deep copy of a list of resources has
  the value of the original and shares no memory with it.  No mount is ever asked for a lifetime beyond the
  one it was tuned to, however the PKI job and the controller of the client CAs interleave, and every token
  presented to Vault is the one the init job stored; the DNS names of Vault's certificate cover every address
  it is reached by.  This theory adds that certificates are
  requested from exactly the mounts and roles that the other components write.

  \<^bold>\<open>Not modelled.\<close>  Logging; contexts and timeouts; the parsing of the command line; the manager of
  controller-runtime itself (its contract is \<open>reconciler\<close>, \<open>worked\<close> and \<open>demanded\<close>);
  vault/client-go/pki/pki_internal.go, in which every line is a comment; \<^verbatim>\<open>getConfig\<close> of bootstrap/main.go,
  which nothing calls; test code.  Reads and writes of the shared variable are atomic, a field of a
  request that the code never sets has its zero value, and the zone of the clock has a fixed
  offset.
\<close>

subsection \<open>Certificates are issued by the roles the other components write\<close>

lemma ca_reconcile_writes_role:
  "all_paths (ca_Reconcile req) (\<lambda>t out. \<forall>c mounts. out = Returned None \<longrightarrow>
     EvGetIntClientCA req (Inr c) \<in> set t \<longrightarrow> EvListMounts (Inr mounts) \<in> set t \<longrightarrow> clientCAPath c \<notin> mounts \<longrightarrow>
     (\<forall>m ro. (\<exists>rr. EvDo (PkiWriteRole m ro rr) None \<in> set t) \<longleftrightarrow> (m, ro) = (ca_mount c, ''client-ca'')))"
  by (auto simp: ca_reconcile_defs clientCARole_def split: sum.splits option.splits if_splits)

lemma Reconcile_issue_of:
  "all_paths (Reconcile req) (\<lambda>t out. \<forall>c m ro q r. EvGetIntCert req (Inr c) \<in> set t \<longrightarrow>
     EvIssue m ro q r \<in> set t \<longrightarrow> (m, ro) = issuing_role c)"
  by (auto simp: reconcile_defs issuing_role_def split: sum.splits option.splits)

text \<open>C11: a client certificate is requested with exactly the mount and role that the
  controller of the client CAs wrote when it set up the CA, if and only if the certificate's issuer
  reference is the CA's common name followed by "-ca".\<close>

theorem client_certificate_role:
  assumes "accepts (ca_Reconcile ca_req) t1 (Returned None)"
    and "EvGetIntClientCA ca_req (Inr ca) \<in> set t1" and "EvListMounts (Inr mounts) \<in> set t1"
    and "clientCAPath ca \<notin> mounts"
    and "accepts (Reconcile req) t2 out" and "EvGetIntCert req (Inr c) \<in> set t2" and "is_client c"
    and "EvIssue m ro q r \<in> set t2"
  shows "(\<exists>rr. EvDo (PkiWriteRole m ro rr) None \<in> set t1) \<longleftrightarrow>
    Reference (Issuer (Spec_Certificate (IntCert_Spec c))) =
      CA_CN (CA_Subject (CA_Spec_Certificate (ClientCA_Spec ca))) @ ''-ca''"
proof -
  have written: "(\<exists>rr. EvDo (PkiWriteRole m ro rr) None \<in> set t1) \<longleftrightarrow> (m, ro) = (ca_mount ca, ''client-ca'')"
    using all_paths_accepts [OF ca_reconcile_writes_role assms(1)] assms(2-4) by blast
  have "(m, ro) = issuing_role c"
    using all_paths_accepts [OF Reconcile_issue_of assms(5)] assms(6,8) by blast
  with assms(7) show ?thesis unfolding written by (simp add: issuing_role_def ca_mount_def)
qed

theorem client_certificate_role_witness:
  "EvDo (PkiWriteRole ''sip-client-ca/sp-ca'' ''client-ca'' client_ca_role_request) None
     \<in> set (tokenless_run (''sip'', ''ca'') sample_ca ''PEM'' (VaultError [])) \<and>
   Reference (Issuer (Spec_Certificate (IntCert_Spec (sample_cr True)))) =
     CA_CN (CA_Subject (CA_Spec_Certificate (ClientCA_Spec sample_ca))) @ ''-ca''"
proof
  let ?t = "tokenless_run (''sip'', ''ca'') sample_ca ''PEM'' (VaultError [])"
  show role: "EvDo (PkiWriteRole ''sip-client-ca/sp-ca'' ''client-ca'' client_ca_role_request) None \<in> set ?t"
    by (simp add: tokenless_run_def tokenless_enable_def setup_calls_def ca_mount_def record_defs)
  have "EvGetIntClientCA (''sip'', ''ca'') (Inr sample_ca) \<in> set ?t" "EvListMounts (Inr {}) \<in> set ?t"
    "EvGetIntCert (''sip'', ''cr'') (Inr (sample_cr True)) \<in> set (sample_run True)"
    "is_client (sample_cr True)"
    "EvIssue ''sip-client-ca/sp-ca'' ''client-ca'' (issue_req ''sp'') (Inr sample_resp) \<in> set (sample_run True)"
    by (simp_all add: tokenless_run_def sample_run_def sample_cr_def)
  note facts = this
  from client_certificate_role [OF accepts_tokenless_run facts(1,2) _ accepts_sample_run facts(3-5)] role
  show "Reference (Issuer (Spec_Certificate (IntCert_Spec (sample_cr True)))) =
      CA_CN (CA_Subject (CA_Spec_Certificate (ClientCA_Spec sample_ca))) @ ''-ca''"
    by auto
qed

text \<open>C13: once the PKI job has ended with code 0 and has made the intermediate mount itself,
  every certificate that is requested for a server names a mount and role that the job wrote,
  with the server usage.\<close>

theorem server_certificate_role:
  assumes "pki_execs ms p" and "exit_code p = Some 0"
    and "EvListMounts (Inr mounts) \<in> set (all_calls ms)" and "''sip-interm-ca/'' \<notin> mounts"
    and "accepts (Reconcile req) t out" and "EvGetIntCert req (Inr c) \<in> set t" and "\<not> is_client c"
    and "EvIssue m ro q r \<in> set t"
  shows "EvDo (PkiWriteRole m ro interm_role_request) None \<in> set (all_calls ms) \<and>
    Role_ExtKeyUsage interm_role_request = [''ServerAuth'']"
proof -
  from pki_chain_made [OF assms(1-4)] obtain csr cert where
    "subseq (interm_chain csr cert) (calls_of 0 ms)" by blast
  then have "set (interm_chain csr cert) \<subseteq> set (calls_of 0 ms)"
    by (auto elim: list_emb_set)
  then have "EvDo (PkiWriteRole ''sip-interm-ca'' ''interm-ca'' interm_role_request) None \<in> set (all_calls ms)"
    by (auto simp: interm_chain_def intro: calls_of_subset)
  moreover have "(m, ro) = issuing_role c"
    using all_paths_accepts [OF Reconcile_issue_of assms(5)] assms(6,8) by blast
  then have "(m, ro) = (''sip-interm-ca'', ''interm-ca'')" using assms(7) by (simp add: issuing_role_def)
  ultimately show ?thesis by (simp add: interm_role_request_def)
qed

theorem server_certificate_role_witness:
  "EvDo (PkiWriteRole ''sip-interm-ca'' ''interm-ca'' interm_role_request) None \<in> set (all_calls pki_good)"
proof -
  obtain c where c: "pki_execs pki_good c" "exit_code c = Some 0" using pki_good_exec by blast
  have l: "EvListMounts (Inr {}) \<in> set (all_calls pki_good)" by (simp add: pki_good_def pki_head_def)
  have "EvGetIntCert (''sip'', ''cr'') (Inr (sample_cr False)) \<in> set (sample_run False)"
    "\<not> is_client (sample_cr False)"
    "EvIssue ''sip-interm-ca'' ''interm-ca'' (issue_req ''sp'') (Inr sample_resp) \<in> set (sample_run False)"
    by (simp_all add: sample_run_def sample_cr_def)
  from server_certificate_role [OF c l _ accepts_sample_run this] show ?thesis by simp
qed

subsection \<open>The root token reaches the operators\<close>

text \<open>After the init job has initialised Vault and ended with code 0, an operator started in
  the same namespace, on the Secrets the job left, authenticates its Vault client with exactly the root token
  Vault returned to the job.\<close>

theorem root_token_handover:
  assumes "init_execs ms c" and "exit_code c = Some 0"
    and "EvAskJson (Initialize addr a b) (Inr data) \<in> set (all_calls ms)" and "conforms st (all_calls ms)"
    and "accepts (manager op) t out" and "conforms (replay st (all_calls ms)) t"
    and "EvDo (SetToken tok) r \<in> set t"
    and "\<And>x y. EvAsk (ReadFile namespace_file) x \<in> set (all_calls ms) \<Longrightarrow>
      EvAsk (ReadFile namespace_file) y \<in> set t \<Longrightarrow> file_contents x = file_contents y"
  shows "data ''root_token'' = Some (JString tok)"
proof -
  have "token_origin (replay st (all_calls ms)) t tok"
    using all_paths_accepts [OF manager_token_paths assms(5)] assms(6,7) unfolding token_origin_def by blast
  from handed_over [OF assms(1-4) this] assms(8) show ?thesis by blast
qed

theorem root_token_handover_witness:
  "\<exists>c tok. init_execs sample_good c \<and> EvDo (SetToken tok) None \<in> set (op_start InternalCert) \<and>
    sample_data ''root_token'' = Some (JString tok)"
proof -
  obtain c where c: "init_execs sample_good c" "exit_code c = Some 0" using sample_good_exec by blast
  have read: "EvAsk (ReadFile namespace_file) x \<in> set (all_calls sample_good) \<Longrightarrow> x = Inr ''sip''"
      "EvAsk (ReadFile namespace_file) x \<in> set (op_start InternalCert) \<Longrightarrow> x = Inr ''sip''" for x
    by (simp_all add: sample_good_def sample_defs op_start_def startup_def startup_init_def webhook_calls_def
        default_flags_def)
  have "conforms (replay Map.empty (all_calls sample_good)) (op_start InternalCert)"
    by (simp add: sample_good_def sample_defs op_start_def startup_def startup_init_def webhook_calls_def
        stored_token_def empty_secret_def empty_meta_def file_contents_def reply_ok_other)
  moreover have set_token: "EvDo (SetToken (data_get stored_token ''token'')) None \<in> set (op_start InternalCert)"
    by (simp add: op_start_def startup_def startup_init_def)
  ultimately have "sample_data ''root_token'' = Some (JString (data_get stored_token ''token''))"
    by (rule root_token_handover [OF c sample_good_calls(1,3) accepts_op_start]) (use read in auto)
  with c set_token show ?thesis by blast
qed

end
